theory Spec2Isabelle
  imports Complex_Main
begin

section \<open>Fixed-bed breakthrough, Ergun variant: the embedding\<close>

text \<open>
  The development follows \<^verbatim>\<open>src/ergun_approach2/breakthrough.cpp\<close>. A \<^verbatim>\<open>double\<close> is
  read as a real number (rounding, infinities and NaN are not modelled), a \<^verbatim>\<open>size_t\<close> as a
  natural number, a \<^verbatim>\<open>std::vector<double>\<close> as a list. A thrown exception is the left
  summand of a result.
\<close>

subsection \<open>Errors and the result monad\<close>

datatype error = OutOfRange | PressureGradientTooLarge | MixturePredictionFailed

definition bindE :: "error + 'a \<Rightarrow> ('a \<Rightarrow> error + 'b) \<Rightarrow> error + 'b" where
  "bindE m f = (case m of Inl e \<Rightarrow> Inl e | Inr x \<Rightarrow> f x)"

text \<open>A counted \<^verbatim>\<open>for\<close> loop whose body may throw: the first error ends the loop.\<close>

fun foldE :: "('a \<Rightarrow> 'b \<Rightarrow> error + 'b) \<Rightarrow> 'a list \<Rightarrow> 'b \<Rightarrow> error + 'b" where
  "foldE f [] s = Inr s"
| "foldE f (x # xs) s = bindE (f x s) (foldE f xs)"

subsection \<open>Vector accesses\<close>

text \<open>
  \<^verbatim>\<open>operator[]\<close> is unchecked. A read inside the allocation gives the element. What a read
  past the end gives is not fixed by the program, so it is a parameter: an
  \<open>oob_policy\<close> says, for a vector and an index beyond its size, either that the access
  faults (\<open>None\<close>) or which value happens to lie there. \<open>trap\<close> is the policy of a checked
  access (\<^verbatim>\<open>at()\<close>, a sanitizer): every such read faults. A write past the end always
  faults in the model.
\<close>

type_synonym oob_policy = "real list \<Rightarrow> nat \<Rightarrow> real option"

definition rd :: "oob_policy \<Rightarrow> real list \<Rightarrow> nat \<Rightarrow> error + real" where
  "rd pol xs i =
     (if i < length xs then Inr (xs ! i)
      else case pol xs i of None \<Rightarrow> Inl OutOfRange | Some x \<Rightarrow> Inr x)"

definition wr :: "real list \<Rightarrow> nat \<Rightarrow> real \<Rightarrow> error + real list" where
  "wr xs i x = (if i < length xs then Inr (xs[i := x]) else Inl OutOfRange)"

definition trap :: oob_policy where
  "trap xs i = None"

definition garbage :: "real \<Rightarrow> oob_policy" where
  "garbage g xs i = Some g"

subsection \<open>The object\<close>

record component =
  Yi0 :: real
  Kl :: real
  D :: real

text \<open>
  The members that only the constructor assigns form the configuration; \<open>Ncomp\<close> and
  \<open>dx\<close> are computed from it as the constructor's initialiser list does.
\<close>

record config =
  components :: "component list"
  carrierGasComponent :: nat
  Ngrid :: nat
  T :: real
  p_total :: real
  dptdx :: real
  epsilon :: real
  rho_p :: real
  v_in :: real
  L :: real
  dt :: real
  numberOfTimeSteps :: nat
  autoNumberOfTimeSteps :: bool
  pulse :: bool
  tpulse :: real
  maxIsothermTerms :: nat

definition Ncomp :: "config \<Rightarrow> nat" where
  "Ncomp cfg = length (components cfg)"

definition dx :: "config \<Rightarrow> real" where
  "dx cfg = L cfg / real (Ngrid cfg)"

definition R :: real where
  "R = 8.31446261815324"

text \<open>The members that \<^verbatim>\<open>initialize\<close> and \<^verbatim>\<open>computeStep\<close> assign.\<close>

record state =
  Nsteps :: nat
  autoSteps :: bool
  iastPerformance :: "nat \<times> nat"
  prefactor :: "real list"
  Yi :: "real list"
  Yinew :: "real list"
  Xi :: "real list"
  Ni :: "real list"
  V :: "real list"
  Vnew :: "real list"
  Pt :: "real list"
  Ptnew :: "real list"
  P :: "real list"
  Pnew :: "real list"
  Q :: "real list"
  Qnew :: "real list"
  Qeq :: "real list"
  Qeqnew :: "real list"
  Dpdt :: "real list"
  Dpdtnew :: "real list"
  Dqdt :: "real list"
  Dqdtnew :: "real list"
  Dydt :: "real list"
  Dydtnew :: "real list"
  cachedP0 :: "real list"
  cachedPsi :: "real list"

text \<open>The constructor: every vector is allocated, zero-filled, at its final size.\<close>

definition Breakthrough :: "config \<Rightarrow> state" where
  "Breakthrough cfg =
     \<lparr> Nsteps = numberOfTimeSteps cfg,
       autoSteps = autoNumberOfTimeSteps cfg,
       iastPerformance = (0, 0),
       prefactor = replicate (Ncomp cfg) 0,
       Yi = replicate ((Ngrid cfg + 1) * Ncomp cfg) 0,
       Yinew = replicate ((Ngrid cfg + 1) * Ncomp cfg) 0,
       Xi = replicate (Ncomp cfg) 0,
       Ni = replicate (Ncomp cfg) 0,
       V = replicate (Ngrid cfg + 1) 0,
       Vnew = replicate (Ngrid cfg + 1) 0,
       Pt = replicate (Ngrid cfg + 1) 0,
       Ptnew = replicate (Ngrid cfg + 1) 0,
       P = replicate ((Ngrid cfg + 1) * Ncomp cfg) 0,
       Pnew = replicate ((Ngrid cfg + 1) * Ncomp cfg) 0,
       Q = replicate ((Ngrid cfg + 1) * Ncomp cfg) 0,
       Qnew = replicate ((Ngrid cfg + 1) * Ncomp cfg) 0,
       Qeq = replicate ((Ngrid cfg + 1) * Ncomp cfg) 0,
       Qeqnew = replicate ((Ngrid cfg + 1) * Ncomp cfg) 0,
       Dpdt = replicate ((Ngrid cfg + 1) * Ncomp cfg) 0,
       Dpdtnew = replicate ((Ngrid cfg + 1) * Ncomp cfg) 0,
       Dqdt = replicate ((Ngrid cfg + 1) * Ncomp cfg) 0,
       Dqdtnew = replicate ((Ngrid cfg + 1) * Ncomp cfg) 0,
       Dydt = replicate ((Ngrid cfg + 1) * Ncomp cfg) 0,
       Dydtnew = replicate ((Ngrid cfg + 1) * Ncomp cfg) 0,
       cachedP0 = replicate ((Ngrid cfg + 1) * Ncomp cfg * maxIsothermTerms cfg) 0,
       cachedPsi = replicate ((Ngrid cfg + 1) * maxIsothermTerms cfg) 0 \<rparr>"

text \<open>
  The sizes the constructor gives to the vectors that the stencils and the integrator
  index; no later code resizes a vector.
\<close>

definition sized :: "config \<Rightarrow> state \<Rightarrow> bool" where
  "sized cfg s \<longleftrightarrow>
     length (prefactor s) = Ncomp cfg \<and>
     length (V s) = Ngrid cfg + 1 \<and> length (Vnew s) = Ngrid cfg + 1 \<and>
     length (Pt s) = Ngrid cfg + 1 \<and> length (Ptnew s) = Ngrid cfg + 1 \<and>
     length (Yi s) = (Ngrid cfg + 1) * Ncomp cfg \<and>
     length (Yinew s) = (Ngrid cfg + 1) * Ncomp cfg \<and>
     length (P s) = (Ngrid cfg + 1) * Ncomp cfg \<and>
     length (Pnew s) = (Ngrid cfg + 1) * Ncomp cfg \<and>
     length (Q s) = (Ngrid cfg + 1) * Ncomp cfg \<and>
     length (Qnew s) = (Ngrid cfg + 1) * Ncomp cfg \<and>
     length (Qeq s) = (Ngrid cfg + 1) * Ncomp cfg \<and>
     length (Qeqnew s) = (Ngrid cfg + 1) * Ncomp cfg \<and>
     length (Dpdt s) = (Ngrid cfg + 1) * Ncomp cfg \<and>
     length (Dpdtnew s) = (Ngrid cfg + 1) * Ncomp cfg \<and>
     length (Dqdt s) = (Ngrid cfg + 1) * Ncomp cfg \<and>
     length (Dqdtnew s) = (Ngrid cfg + 1) * Ncomp cfg \<and>
     length (Dydt s) = (Ngrid cfg + 1) * Ncomp cfg \<and>
     length (Dydtnew s) = (Ngrid cfg + 1) * Ncomp cfg"

subsection \<open>computeFirstDerivatives\<close>

text \<open>
  The function writes the three derivative vectors it is handed by reference and reads
  \<open>q_eq\<close>, \<open>q\<close>, \<open>v\<close>, \<open>p\<close>, \<open>y\<close> and the members \<open>prefactor\<close>, \<open>components\<close>. Every
  element access of the source is an \<open>rd\<close> or a \<open>wr\<close> here, at the index the source
  computes. \<open>components[j]\<close> is read for \<open>j < Ncomp = components.size()\<close> only.
\<close>

type_synonym derivs = "real list \<times> real list \<times> real list"

definition idx :: "config \<Rightarrow> real" where
  "idx cfg = 1 / dx cfg"

definition idx2 :: "config \<Rightarrow> real" where
  "idx2 cfg = 1 / (dx cfg * dx cfg)"

definition cfd_first ::
  "oob_policy \<Rightarrow> config \<Rightarrow> real list \<Rightarrow> real list \<Rightarrow> real list \<Rightarrow> real list \<Rightarrow> real list
     \<Rightarrow> nat \<Rightarrow> derivs \<Rightarrow> error + derivs" where
  "cfd_first pol cfg pf q_eq q v p j d =
     (case d of (dqdt, dpdt, dydt) \<Rightarrow>
        bindE (rd pol q_eq (0 * Ncomp cfg + j)) (\<lambda>qe.
        bindE (rd pol q (0 * Ncomp cfg + j)) (\<lambda>qj.
        bindE (wr dqdt (0 * Ncomp cfg + j) (Kl (components cfg ! j) * (qe - qj))) (\<lambda>dqdt'.
        bindE (rd pol v 0) (\<lambda>v0.
        bindE (rd pol p 1) (\<lambda>p1.
        bindE (rd pol p 0) (\<lambda>p0.
        bindE (rd pol v 1) (\<lambda>v1.
        bindE (rd pol pf j) (\<lambda>pfj.
        bindE (wr dpdt 0 (- v0 * (p1 - p0) * idx cfg - p0 * (v1 - v0) * idx cfg
                            - pfj * (qe - qj))) (\<lambda>dpdt'.
        bindE (wr dydt (0 * Ncomp cfg + j) 0) (\<lambda>dydt'.
        Inr (dqdt', dpdt', dydt'))))))))))))"

definition cfd_sum_middle ::
  "oob_policy \<Rightarrow> config \<Rightarrow> real list \<Rightarrow> real list \<Rightarrow> real list \<Rightarrow> real list
     \<Rightarrow> nat \<Rightarrow> nat \<Rightarrow> real \<Rightarrow> error + real" where
  "cfd_sum_middle pol cfg pf q_eq q y i j sum_j =
     bindE (rd pol pf j) (\<lambda>pfj.
     bindE (rd pol q_eq (i * Ncomp cfg + j)) (\<lambda>qe.
     bindE (rd pol q (i * Ncomp cfg + j)) (\<lambda>qj.
     bindE (rd pol y (i * Ncomp cfg + j)) (\<lambda>yj.
     Inr (sum_j + pfj * (qe - qj) * yj)))))"

definition cfd_middle_body ::
  "oob_policy \<Rightarrow> config \<Rightarrow> real list \<Rightarrow> real list \<Rightarrow> real list \<Rightarrow> real list \<Rightarrow> real list
     \<Rightarrow> real list \<Rightarrow> nat \<Rightarrow> real \<Rightarrow> nat \<Rightarrow> derivs \<Rightarrow> error + derivs" where
  "cfd_middle_body pol cfg pf q_eq q v p y i sum_j j d =
     (case d of (dqdt, dpdt, dydt) \<Rightarrow>
        bindE (rd pol q_eq (i * Ncomp cfg + j)) (\<lambda>qe.
        bindE (rd pol q (i * Ncomp cfg + j)) (\<lambda>qj.
        bindE (wr dqdt (i * Ncomp cfg + j) (Kl (components cfg ! j) * (qe - qj))) (\<lambda>dqdt'.
        bindE (rd pol v i) (\<lambda>v_i.
        bindE (rd pol p (i + 1)) (\<lambda>pn.
        bindE (rd pol p i) (\<lambda>p_i.
        bindE (rd pol v (i + 1)) (\<lambda>vn.
        bindE (rd pol pf j) (\<lambda>pfj.
        bindE (wr dpdt i (- v_i * (pn - p_i) * idx cfg - p_i * (vn - v_i) * idx cfg
                            - pfj * (qe - qj))) (\<lambda>dpdt'.
        bindE (rd pol y ((i + 1) * Ncomp cfg + j)) (\<lambda>yn.
        bindE (rd pol y (i * Ncomp cfg + j)) (\<lambda>y_i.
        bindE (rd pol y ((i - 1) * Ncomp cfg + j)) (\<lambda>yp.
        bindE (rd pol p (i - 1)) (\<lambda>pp.
        bindE (wr dydt (i * Ncomp cfg + j)
                 (D (components cfg ! j) * (yn - 2 * y_i + yp + (p_i - pp) * (y_i - yp) / p_i)
                    * idx2 cfg
                  - v_i * (y_i - yp) * idx cfg
                  + sum_j - (qe - qj) / p_i)) (\<lambda>dydt'.
        Inr (dqdt', dpdt', dydt'))))))))))))))))"

definition cfd_middle ::
  "oob_policy \<Rightarrow> config \<Rightarrow> real list \<Rightarrow> real list \<Rightarrow> real list \<Rightarrow> real list \<Rightarrow> real list
     \<Rightarrow> real list \<Rightarrow> nat \<Rightarrow> derivs \<Rightarrow> error + derivs" where
  "cfd_middle pol cfg pf q_eq q v p y i d =
     bindE (foldE (cfd_sum_middle pol cfg pf q_eq q y i) [0..<Ncomp cfg] 0) (\<lambda>sum_j.
     bindE (rd pol p i) (\<lambda>p_i.
     foldE (cfd_middle_body pol cfg pf q_eq q v p y i (sum_j / p_i)) [0..<Ncomp cfg] d))"

definition cfd_sum_last ::
  "oob_policy \<Rightarrow> config \<Rightarrow> real list \<Rightarrow> real list \<Rightarrow> real list
     \<Rightarrow> nat \<Rightarrow> real \<Rightarrow> error + real" where
  "cfd_sum_last pol cfg pf q_eq q j sum_j =
     bindE (rd pol pf j) (\<lambda>pfj.
     bindE (rd pol q_eq (Ngrid cfg * Ncomp cfg + j)) (\<lambda>qe.
     bindE (rd pol q (Ngrid cfg * Ncomp cfg + j)) (\<lambda>qj.
     Inr (sum_j + pfj * (qe - qj)))))"

definition cfd_last_body ::
  "oob_policy \<Rightarrow> config \<Rightarrow> real list \<Rightarrow> real list \<Rightarrow> real list \<Rightarrow> real list \<Rightarrow> real list
     \<Rightarrow> real list \<Rightarrow> real \<Rightarrow> nat \<Rightarrow> derivs \<Rightarrow> error + derivs" where
  "cfd_last_body pol cfg pf q_eq q v p y sum_j j d =
     (case d of (dqdt, dpdt, dydt) \<Rightarrow>
        bindE (rd pol q_eq (Ngrid cfg * Ncomp cfg + j)) (\<lambda>qe.
        bindE (rd pol q (Ngrid cfg * Ncomp cfg + j)) (\<lambda>qj.
        bindE (wr dqdt (Ngrid cfg * Ncomp cfg + j) (Kl (components cfg ! j) * (qe - qj)))
          (\<lambda>dqdt'.
        bindE (rd pol p (Ngrid cfg)) (\<lambda>pN.
        bindE (rd pol v (Ngrid cfg + 1)) (\<lambda>vn.
        bindE (rd pol v (Ngrid cfg)) (\<lambda>vN.
        bindE (rd pol pf j) (\<lambda>pfj.
        bindE (wr dpdt (Ngrid cfg) (- pN * (vn - vN) * idx cfg - pfj * (qe - qj))) (\<lambda>dpdt'.
        bindE (rd pol y (Ngrid cfg * Ncomp cfg + j)) (\<lambda>yN.
        bindE (rd pol y ((Ngrid cfg - 1) * Ncomp cfg + j)) (\<lambda>yp.
        bindE (rd pol p (Ngrid cfg - 1)) (\<lambda>pp.
        bindE (wr dydt (Ngrid cfg * Ncomp cfg + j)
                 (D (components cfg ! j) * (- yN + yp + (pN - pp) * (yN - yp) / pN) * idx2 cfg
                  - vN * (yN - yp) * idx cfg
                  + sum_j - (qe - qj) / pN)) (\<lambda>dydt'.
        Inr (dqdt', dpdt', dydt'))))))))))))))"

definition cfd_last ::
  "oob_policy \<Rightarrow> config \<Rightarrow> real list \<Rightarrow> real list \<Rightarrow> real list \<Rightarrow> real list \<Rightarrow> real list
     \<Rightarrow> real list \<Rightarrow> derivs \<Rightarrow> error + derivs" where
  "cfd_last pol cfg pf q_eq q v p y d =
     bindE (foldE (cfd_sum_last pol cfg pf q_eq q) [0..<Ncomp cfg] 0) (\<lambda>sum_j.
     bindE (rd pol p (Ngrid cfg)) (\<lambda>pN.
     foldE (cfd_last_body pol cfg pf q_eq q v p y (sum_j / pN)) [0..<Ncomp cfg] d))"

definition computeFirstDerivatives ::
  "oob_policy \<Rightarrow> config \<Rightarrow> real list \<Rightarrow> derivs \<Rightarrow> real list \<Rightarrow> real list \<Rightarrow> real list
     \<Rightarrow> real list \<Rightarrow> real list \<Rightarrow> error + derivs" where
  "computeFirstDerivatives pol cfg pf d q_eq q v p y =
     bindE (foldE (cfd_first pol cfg pf q_eq q v p) [0..<Ncomp cfg] d) (\<lambda>d1.
     bindE (foldE (cfd_middle pol cfg pf q_eq q v p y) [1..<Ngrid cfg] d1) (\<lambda>d2.
     cfd_last pol cfg pf q_eq q v p y d2))"


subsection \<open>The Ergun closure: computeVelocity and computeInitialPressure\<close>

text \<open>
  From here on an element access is written \<open>xs ! i\<close> and \<open>xs[i := x]\<close>; the theorems
  about these functions assume \<open>sized\<close> and \<open>1 \<le> Ngrid\<close>, under which each index the
  source computes lies inside the allocation.

  Both functions declare the same five local constants (the helium values).
\<close>

definition mu0 :: real where "mu0 = 0.0210"
definition T_mu0 :: real where "T_mu0 = 323.15"
definition S :: real where "S = 72.9"
definition par_diam :: real where "par_diam = 0.005"
definition M :: real where "M = 4.0026"

definition laminar_prefactor :: "config \<Rightarrow> real" where
  "laminar_prefactor cfg =
     mu0 * v_in cfg * (150 * (1 - epsilon cfg) * (1 - epsilon cfg)) /
       ((epsilon cfg * epsilon cfg) * (par_diam * par_diam))"

definition turbulent_prefactor :: "config \<Rightarrow> real" where
  "turbulent_prefactor cfg =
     v_in cfg * \<bar>v_in cfg\<bar> * (1.75 * (1 - epsilon cfg) * M) / (epsilon cfg * par_diam * R)"

text \<open>The locals \<open>term_a\<close>, \<open>term_b\<close>, \<open>term_c\<close> and \<open>D\<close> of computeVelocity at node \<open>i\<close>.\<close>

definition term_a :: "config \<Rightarrow> real \<Rightarrow> real list \<Rightarrow> nat \<Rightarrow> real" where
  "term_a cfg T_g pt i = laminar_prefactor cfg * pt ! i / T_g"

definition term_b :: "config \<Rightarrow> real \<Rightarrow> real" where
  "term_b cfg T_g =
     turbulent_prefactor cfg * (T_g / T_mu0) powr (3 / 2) * (T_mu0 + S) / (T_g + S)"

definition term_c :: "config \<Rightarrow> real list \<Rightarrow> nat \<Rightarrow> real" where
  "term_c cfg pt i = (pt ! i - pt ! (i - 1)) / dx cfg"

definition discriminant :: "config \<Rightarrow> real \<Rightarrow> real list \<Rightarrow> nat \<Rightarrow> real" where
  "discriminant cfg T_g pt i =
     term_b cfg T_g * term_b cfg T_g - 4 * term_a cfg T_g pt i * term_c cfg pt i"

text \<open>
  The "explicit version" assigned to \<open>Vnew[i]\<close>, in the loop and again at the last node.
  The doubles are read as reals. Where \<open>term_a\<close> is zero or the discriminant is negative
  the code divides by zero or takes the root of a negative number and stores a NaN or an
  infinity, which the real value below does not describe; the statements that give the
  value of a recomputed velocity are made for a non-zero \<open>term_a\<close> and a non-negative
  discriminant, as on every object they are applied to.
\<close>

definition explicit_velocity :: "config \<Rightarrow> real \<Rightarrow> real list \<Rightarrow> nat \<Rightarrow> real" where
  "explicit_velocity cfg T_g pt i =
     1 / (2 * term_a cfg T_g pt i) * (- 1 * term_b cfg T_g + sqrt (discriminant cfg T_g pt i))"

definition computeVelocity :: "config \<Rightarrow> real \<Rightarrow> state \<Rightarrow> state" where
  "computeVelocity cfg T_g s =
     (let s1 = s\<lparr>Vnew := (Vnew s)[0 := v_in cfg]\<rparr>;
          s2 = fold (\<lambda>i a. a\<lparr>Vnew := (Vnew a)[i := explicit_velocity cfg T_g (Pt a) i]\<rparr>)
                 [1..<Ngrid cfg] s1
      in s2\<lparr>Vnew := (Vnew s2)[Ngrid cfg := explicit_velocity cfg T_g (Pt s2) (Ngrid cfg)]\<rparr>)"

definition f_p :: "config \<Rightarrow> real \<Rightarrow> real list \<Rightarrow> nat \<Rightarrow> real" where
  "f_p cfg T_g p i =
     - laminar_prefactor cfg * (T_g / T_mu0) powr (3 / 2) * (T_mu0 + S) / (T_g + S)
     - turbulent_prefactor cfg * (p ! i / T_g)"

definition computeInitialPressure :: "config \<Rightarrow> real list \<Rightarrow> real \<Rightarrow> real list" where
  "computeInitialPressure cfg p T_g =
     fold (\<lambda>i a. a[i - 1 := a ! i - f_p cfg T_g a i * dx cfg])
       (rev [1..<Ngrid cfg + 1]) (p[Ngrid cfg := p_total cfg])"

subsection \<open>The equilibrium oracle\<close>

text \<open>
  \<^verbatim>\<open>MixturePrediction::predictMixture\<close> is outside the sources at hand. It is a parameter
  of the model: given the mole fractions at a node, the total pressure and the node's
  two cache blocks, it either fails (\<open>None\<close>) or gives the adsorbed fractions \<open>Xi\<close>, the loadings
  \<open>Ni\<close>, the new cache blocks and the pair it returns.
\<close>

record mixture_out =
  out_Xi :: "real list"
  out_Ni :: "real list"
  out_P0 :: "real list"
  out_Psi :: "real list"
  out_perf :: "nat \<times> nat"

type_synonym mixture = "real list \<Rightarrow> real \<Rightarrow> real list \<Rightarrow> real list \<Rightarrow> mixture_out option"

definition pair_add :: "nat \<times> nat \<Rightarrow> nat \<times> nat \<Rightarrow> nat \<times> nat" where
  "pair_add l r = (fst l + fst r, snd l + snd r)"

definition block :: "real list \<Rightarrow> nat \<Rightarrow> nat \<Rightarrow> real list" where
  "block xs off n = take n (drop off xs)"

definition put_block :: "real list \<Rightarrow> nat \<Rightarrow> real list \<Rightarrow> real list" where
  "put_block xs off ys = take off xs @ ys @ drop (off + length ys) xs"

text \<open>The vector \<open>Yi_i\<close> built at node \<open>i\<close> from the rows of \<open>y\<close>.\<close>

definition Yi_i :: "config \<Rightarrow> real list \<Rightarrow> nat \<Rightarrow> real list" where
  "Yi_i cfg y i =
     fold (\<lambda>j a. a[j := y ! (i * Ncomp cfg + j)]) [0..<Ncomp cfg] (replicate (Ncomp cfg) 0)"

text \<open>
  The call at node \<open>i\<close> with total pressure \<open>pt\<close>: the returned pair is added to
  \<open>iastPerformance\<close>, \<open>Xi\<close>, \<open>Ni\<close> and the node's cache blocks are overwritten.
\<close>

definition predictMixture_at ::
  "mixture \<Rightarrow> config \<Rightarrow> nat \<Rightarrow> real \<Rightarrow> state \<Rightarrow> error + state" where
  "predictMixture_at mix cfg i pt s =
     (case mix (Yi_i cfg (Yi s) i) pt
              (block (cachedP0 s) (i * Ncomp cfg * maxIsothermTerms cfg)
                 (Ncomp cfg * maxIsothermTerms cfg))
              (block (cachedPsi s) (i * maxIsothermTerms cfg) (maxIsothermTerms cfg)) of
        None \<Rightarrow> Inl MixturePredictionFailed
      | Some out \<Rightarrow>
          Inr (s\<lparr>iastPerformance := pair_add (iastPerformance s) (out_perf out),
                 Xi := out_Xi out, Ni := out_Ni out,
                 cachedP0 := put_block (cachedP0 s)
                               (i * Ncomp cfg * maxIsothermTerms cfg) (out_P0 out),
                 cachedPsi := put_block (cachedPsi s)
                                (i * maxIsothermTerms cfg) (out_Psi out)\<rparr>))"

subsection \<open>computeEquilibriumLoadings\<close>

definition cel_node :: "mixture \<Rightarrow> config \<Rightarrow> nat \<Rightarrow> state \<Rightarrow> error + state" where
  "cel_node mix cfg i s =
     bindE (predictMixture_at mix cfg i (Pt s ! i) s) (\<lambda>s1.
     Inr (fold (\<lambda>j a. a\<lparr>Qeqnew := (Qeqnew a)[i * Ncomp cfg + j := Ni a ! j]\<rparr>)
            [0..<Ncomp cfg] s1))"

definition computeEquilibriumLoadings :: "mixture \<Rightarrow> config \<Rightarrow> state \<Rightarrow> error + state" where
  "computeEquilibriumLoadings mix cfg s =
     bindE (foldE (cel_node mix cfg) [0..<Ngrid cfg + 1] s) (\<lambda>s1.
     if Pt s1 ! 0 + dptdx cfg * L cfg < 0 then Inl PressureGradientTooLarge else Inr s1)"


subsection \<open>initialize\<close>

definition init_prefactor :: "config \<Rightarrow> state \<Rightarrow> state" where
  "init_prefactor cfg s =
     fold (\<lambda>j a. a\<lparr>prefactor := (prefactor a)
              [j := R * T cfg * ((1 - epsilon cfg) / epsilon cfg) * rho_p cfg
                      * Kl (components cfg ! j)]\<rparr>)
       [0..<Ncomp cfg] s"

definition init_fill :: "state \<Rightarrow> state" where
  "init_fill s = s\<lparr>P := replicate (length (P s)) 0, Q := replicate (length (Q s)) 0\<rparr>"

definition pt_init :: "config \<Rightarrow> real list" where
  "pt_init cfg = computeInitialPressure cfg (replicate (Ngrid cfg + 1) 0) (T cfg)"

definition init_velocity :: "config \<Rightarrow> state \<Rightarrow> state" where
  "init_velocity cfg s =
     fold (\<lambda>i a. a\<lparr>V := (V a)[i := v_in cfg * p_total cfg / pt_init cfg ! i]\<rparr>)
       [0..<Ngrid cfg + 1] s"

definition init_carrier :: "config \<Rightarrow> state \<Rightarrow> state" where
  "init_carrier cfg s =
     fold (\<lambda>i a. a\<lparr>P := (P a)[i * Ncomp cfg + carrierGasComponent cfg := pt_init cfg ! i]\<rparr>)
       [1..<Ngrid cfg + 1] s"

definition init_inlet :: "config \<Rightarrow> state \<Rightarrow> state" where
  "init_inlet cfg s =
     fold (\<lambda>j a. a\<lparr>P := (P a)[0 * Ncomp cfg + j := p_total cfg * Yi0 (components cfg ! j)]\<rparr>)
       [0..<Ncomp cfg] s"

text \<open>The first inner loop at node \<open>i\<close> carries the local \<open>sum\<close> beside the object.\<close>

definition init_clip :: "config \<Rightarrow> nat \<Rightarrow> nat \<Rightarrow> state \<times> real \<Rightarrow> state \<times> real" where
  "init_clip cfg i j as =
     (case as of (a, sum_j) \<Rightarrow>
        let a1 = a\<lparr>Yi := (Yi a)[i * Ncomp cfg + j :=
                       max (P a ! (i * Ncomp cfg + j) / pt_init cfg ! i) 0]\<rparr>
        in (a1, sum_j + Yi a1 ! (i * Ncomp cfg + j)))"

definition init_normalise :: "config \<Rightarrow> nat \<Rightarrow> real \<Rightarrow> nat \<Rightarrow> state \<Rightarrow> state" where
  "init_normalise cfg i sum_j j a =
     a\<lparr>Yi := (Yi a)[i * Ncomp cfg + j := Yi a ! (i * Ncomp cfg + j) / sum_j]\<rparr>"

definition init_node :: "mixture \<Rightarrow> config \<Rightarrow> nat \<Rightarrow> state \<Rightarrow> error + state" where
  "init_node mix cfg i s =
     (case fold (init_clip cfg i) [0..<Ncomp cfg] (s, 0) of (s1, sum_j) \<Rightarrow>
        let s2 = fold (init_normalise cfg i sum_j) [0..<Ncomp cfg] s1 in
        bindE (predictMixture_at mix cfg i (pt_init cfg ! i) s2) (\<lambda>s3.
        Inr (fold (\<lambda>j a. a\<lparr>Qeq := (Qeq a)[i * Ncomp cfg + j := Ni a ! j]\<rparr>)
               [0..<Ncomp cfg] s3)))"

definition init_total_pressure :: "config \<Rightarrow> state \<Rightarrow> state" where
  "init_total_pressure cfg s =
     fold (\<lambda>i a.
            fold (\<lambda>j b. b\<lparr>Pt := (Pt b)[i := Pt b ! i + max 0 (P b ! (i * Ncomp cfg + j))]\<rparr>)
              [0..<Ncomp cfg] (a\<lparr>Pt := (Pt a)[i := 0]\<rparr>))
       [0..<Ngrid cfg + 1] s"

definition initialize :: "mixture \<Rightarrow> config \<Rightarrow> state \<Rightarrow> error + state" where
  "initialize mix cfg s =
     bindE (foldE (init_node mix cfg) [0..<Ngrid cfg + 1]
              (init_inlet cfg (init_carrier cfg (init_velocity cfg
                 (init_fill (init_prefactor cfg s))))))
       (\<lambda>s1. Inr (init_total_pressure cfg s1))"

subsection \<open>computeStep\<close>

text \<open>
  The automatic end-time check at the head of the step. Its local \<open>tolerance\<close> is a double
  that need not stay a number: for a component that is not fed (\<open>Yi0 = 0\<close>, or
  \<open>p_total + dptdx * L = 0\<close>) the quotient is \<open>x / 0\<close>, which is a NaN when the outlet
  pressure \<open>x\<close> is zero and an infinity otherwise. The three kinds of value the local takes
  are kept apart here. \<open>deviation num den\<close> is \<^verbatim>\<open>std::abs(num / den - 1.0)\<close>;
  \<open>std_max a b\<close> is \<^verbatim>\<open>std::max(a, b)\<close>, that is \<^verbatim>\<open>(a < b) ? b : a\<close>, and a comparison with a
  NaN is false, so a NaN operand is dropped.
\<close>

datatype dbl = Fin real | PInf | NaN

fun dbl_less :: "dbl \<Rightarrow> dbl \<Rightarrow> bool" where
  "dbl_less (Fin a) (Fin b) = (a < b)"
| "dbl_less (Fin a) PInf = True"
| "dbl_less a b = False"

definition std_max :: "dbl \<Rightarrow> dbl \<Rightarrow> dbl" where
  "std_max a b = (if dbl_less a b then b else a)"

definition deviation :: "real \<Rightarrow> real \<Rightarrow> dbl" where
  "deviation num den =
     (if den = 0 then (if num = 0 then NaN else PInf) else Fin \<bar>num / den - 1\<bar>)"

definition tolerance :: "config \<Rightarrow> state \<Rightarrow> dbl" where
  "tolerance cfg s =
     fold (\<lambda>j tol. std_max tol
             (deviation (P s ! (Ngrid cfg * Ncomp cfg + j))
                ((p_total cfg + dptdx cfg * L cfg) * Yi0 (components cfg ! j))))
       [0..<Ncomp cfg] (Fin 0)"

definition autoStepsCheck :: "config \<Rightarrow> nat \<Rightarrow> state \<Rightarrow> state" where
  "autoStepsCheck cfg step s =
     (if autoSteps s then
        (if dbl_less (tolerance cfg s) (Fin 0.01)
         then s\<lparr>Nsteps := nat \<lfloor>1.1 * real step\<rfloor>, autoSteps := False\<rparr>
         else s)
      else s)"

text \<open>
  The two call sites of computeFirstDerivatives: stage 1 hands over
  \<open>(Dqdt, Dpdt, Dydt, Qeq, Q, V, P, Yi)\<close>, stages 2 and 3 hand over
  \<open>(Dqdtnew, Dpdtnew, Dydtnew, Qeqnew, Qnew, Vnew, Ptnew, Yinew)\<close>.
\<close>

definition derivatives_stage1 :: "oob_policy \<Rightarrow> config \<Rightarrow> state \<Rightarrow> error + state" where
  "derivatives_stage1 pol cfg s =
     bindE (computeFirstDerivatives pol cfg (prefactor s) (Dqdt s, Dpdt s, Dydt s)
              (Qeq s) (Q s) (V s) (P s) (Yi s))
       (\<lambda>d. case d of (dq, dp, dy) \<Rightarrow> Inr (s\<lparr>Dqdt := dq, Dpdt := dp, Dydt := dy\<rparr>))"

definition derivatives_new :: "oob_policy \<Rightarrow> config \<Rightarrow> state \<Rightarrow> error + state" where
  "derivatives_new pol cfg s =
     bindE (computeFirstDerivatives pol cfg (prefactor s) (Dqdtnew s, Dpdtnew s, Dydtnew s)
              (Qeqnew s) (Qnew s) (Vnew s) (Ptnew s) (Yinew s))
       (\<lambda>d. case d of (dq, dp, dy) \<Rightarrow> Inr (s\<lparr>Dqdtnew := dq, Dpdtnew := dp, Dydtnew := dy\<rparr>))"

text \<open>The explicit Euler loop nest of stage 1.\<close>

definition rk1_cell :: "config \<Rightarrow> nat \<Rightarrow> nat \<Rightarrow> state \<Rightarrow> state" where
  "rk1_cell cfg i j s =
     (let k = i * Ncomp cfg + j;
          s1 = s\<lparr>Qnew := (Qnew s)[k := Q s ! k + dt cfg * Dqdt s ! k]\<rparr>;
          s2 = s1\<lparr>Yinew := (Yinew s1)[k := Yi s1 ! k + dt cfg * Dydt s1 ! k]\<rparr>
      in s2\<lparr>Pnew := (Pnew s2)[k := Yinew s2 ! k * Ptnew s2 ! i]\<rparr>)"

definition rk1_node :: "config \<Rightarrow> nat \<Rightarrow> state \<Rightarrow> state" where
  "rk1_node cfg i s =
     fold (rk1_cell cfg i) [0..<Ncomp cfg]
       (s\<lparr>Ptnew := (Ptnew s)[i := Pt s ! i + dt cfg * Dpdt s ! i]\<rparr>)"

definition rk1_update :: "config \<Rightarrow> state \<Rightarrow> state" where
  "rk1_update cfg s = fold (rk1_node cfg) [0..<Ngrid cfg + 1] s"

text \<open>
  The loop nests of stages 2 and 3 are the same text with the weights
  \<open>(0.75, 0.25, 0.25)\<close> and \<open>(1/3, 2/3, 2/3)\<close>.
\<close>

definition ssp_cell :: "config \<Rightarrow> real \<Rightarrow> real \<Rightarrow> real \<Rightarrow> nat \<Rightarrow> nat \<Rightarrow> state \<Rightarrow> state" where
  "ssp_cell cfg a b c i j s =
     (let k = i * Ncomp cfg + j;
          s1 = s\<lparr>Qnew := (Qnew s)[k := a * Q s ! k + b * Qnew s ! k + c * dt cfg * Dqdtnew s ! k]\<rparr>;
          s2 = s1\<lparr>Yinew := (Yinew s1)
                  [k := a * Yi s1 ! k + b * Yinew s1 ! k + c * dt cfg * Dydtnew s1 ! k]\<rparr>
      in s2\<lparr>Pnew := (Pnew s2)[k := Yinew s2 ! k * Ptnew s2 ! i]\<rparr>)"

definition ssp_node :: "config \<Rightarrow> real \<Rightarrow> real \<Rightarrow> real \<Rightarrow> nat \<Rightarrow> state \<Rightarrow> state" where
  "ssp_node cfg a b c i s =
     fold (ssp_cell cfg a b c i) [0..<Ncomp cfg]
       (s\<lparr>Ptnew := (Ptnew s)[i := a * Pt s ! i + b * Ptnew s ! i + c * dt cfg * Dpdtnew s ! i]\<rparr>)"

definition ssp_update :: "config \<Rightarrow> real \<Rightarrow> real \<Rightarrow> real \<Rightarrow> state \<Rightarrow> state" where
  "ssp_update cfg a b c s = fold (ssp_node cfg a b c) [0..<Ngrid cfg + 1] s"

definition stage1 :: "oob_policy \<Rightarrow> mixture \<Rightarrow> config \<Rightarrow> state \<Rightarrow> error + state" where
  "stage1 pol mix cfg s =
     bindE (derivatives_stage1 pol cfg s) (\<lambda>s1.
     bindE (computeEquilibriumLoadings mix cfg (rk1_update cfg s1)) (\<lambda>s2.
     Inr (computeVelocity cfg (T cfg) s2)))"

definition ssp_stage ::
  "oob_policy \<Rightarrow> mixture \<Rightarrow> config \<Rightarrow> real \<Rightarrow> real \<Rightarrow> real \<Rightarrow> state \<Rightarrow> error + state" where
  "ssp_stage pol mix cfg a b c s =
     bindE (derivatives_new pol cfg s) (\<lambda>s1.
     bindE (computeEquilibriumLoadings mix cfg (ssp_update cfg a b c s1)) (\<lambda>s2.
     Inr (computeVelocity cfg (T cfg) s2)))"

definition stage2 :: "oob_policy \<Rightarrow> mixture \<Rightarrow> config \<Rightarrow> state \<Rightarrow> error + state" where
  "stage2 pol mix cfg s = ssp_stage pol mix cfg 0.75 0.25 0.25 s"

definition stage3 :: "oob_policy \<Rightarrow> mixture \<Rightarrow> config \<Rightarrow> state \<Rightarrow> error + state" where
  "stage3 pol mix cfg s = ssp_stage pol mix cfg (1 / 3) (2 / 3) (2 / 3) s"

text \<open>
  \<^verbatim>\<open>std::copy(src.begin(), src.end(), dst.begin())\<close> writes \<open>dst[k] = src[k]\<close> for every
  \<open>k < src.size()\<close>.
\<close>

definition std_copy :: "real list \<Rightarrow> real list \<Rightarrow> error + real list" where
  "std_copy src dst =
     (if length src \<le> length dst then Inr (src @ drop (length src) dst) else Inl OutOfRange)"

definition commit :: "state \<Rightarrow> error + state" where
  "commit s =
     bindE (std_copy (Qnew s) (Q s)) (\<lambda>q.
     bindE (std_copy (Ptnew s) (Pt s)) (\<lambda>pt.
     bindE (std_copy (Pnew s) (P s)) (\<lambda>p.
     bindE (std_copy (Qeqnew s) (Qeq s)) (\<lambda>qe.
     bindE (std_copy (Vnew s) (V s)) (\<lambda>v.
     bindE (std_copy (Yinew s) (Yi s)) (\<lambda>y.
     Inr (s\<lparr>Q := q, Pt := pt, P := p, Qeq := qe, V := v, Yi := y\<rparr>)))))))"

definition pulseBoundary :: "config \<Rightarrow> real \<Rightarrow> state \<Rightarrow> state" where
  "pulseBoundary cfg t s =
     (if pulse cfg = True then
        (if t > tpulse cfg then
           fold (\<lambda>j a. if j = carrierGasComponent cfg
                        then a\<lparr>P := (P a)[0 * Ncomp cfg + j := p_total cfg]\<rparr>
                        else a\<lparr>P := (P a)[0 * Ncomp cfg + j := 0]\<rparr>)
             [0..<Ncomp cfg] s
         else s)
      else s)"

text \<open>The steps of one time step up to and including the six copies.\<close>

definition advance :: "oob_policy \<Rightarrow> mixture \<Rightarrow> config \<Rightarrow> nat \<Rightarrow> state \<Rightarrow> error + state" where
  "advance pol mix cfg step s =
     bindE (stage1 pol mix cfg (autoStepsCheck cfg step s)) (\<lambda>s1.
     bindE (stage2 pol mix cfg s1) (\<lambda>s2.
     bindE (stage3 pol mix cfg s2) (\<lambda>s3.
     commit s3)))"

definition computeStep :: "oob_policy \<Rightarrow> mixture \<Rightarrow> config \<Rightarrow> nat \<Rightarrow> state \<Rightarrow> error + state" where
  "computeStep pol mix cfg step s =
     (let t = real step * dt cfg in
      bindE (advance pol mix cfg step s) (\<lambda>s4. Inr (pulseBoundary cfg t s4)))"


subsection \<open>Auxiliary predicates on the derivative vectors\<close>

text \<open>The sizes of the three vectors, and the constructor's sizes for a call.\<close>

definition lens :: "derivs \<Rightarrow> nat \<times> nat \<times> nat" where
  "lens d = (case d of (a, b, c) \<Rightarrow> (length a, length b, length c))"

definition cfd_sizes ::
  "config \<Rightarrow> real list \<Rightarrow> derivs \<Rightarrow> real list \<Rightarrow> real list \<Rightarrow> real list \<Rightarrow> real list
     \<Rightarrow> real list \<Rightarrow> bool" where
  "cfd_sizes cfg pf d q_eq q v p y \<longleftrightarrow>
     length pf = Ncomp cfg \<and>
     length q_eq = (Ngrid cfg + 1) * Ncomp cfg \<and>
     length q = (Ngrid cfg + 1) * Ncomp cfg \<and>
     length y = (Ngrid cfg + 1) * Ncomp cfg \<and>
     length v = Ngrid cfg + 1 \<and>
     Ngrid cfg + 1 \<le> length p \<and>
     fst (lens d) = (Ngrid cfg + 1) * Ncomp cfg \<and>
     Ngrid cfg + 1 \<le> fst (snd (lens d)) \<and>
     snd (snd (lens d)) = (Ngrid cfg + 1) * Ncomp cfg"

text \<open>Two facts about the inlet entries that the later blocks leave alone.\<close>

definition inlet_dydt_zero :: "config \<Rightarrow> derivs \<Rightarrow> bool" where
  "inlet_dydt_zero cfg d = (case d of (dq, dp, dy) \<Rightarrow> \<forall>k<Ncomp cfg. dy ! k = 0)"

definition dpdt0_is :: "real \<Rightarrow> derivs \<Rightarrow> bool" where
  "dpdt0_is c d = (case d of (dq, dp, dy) \<Rightarrow> dp ! 0 = c)"


subsection \<open>Auxiliary predicates on the object\<close>

text \<open>
  The progress of the two kinds of loop nest over the "new" buffers, started in \<open>s\<close>:
  \<open>Ptnew\<close> is final at the nodes below \<open>m\<close>, \<open>Qnew\<close>, \<open>Yinew\<close> and \<open>Pnew\<close> are
  final at the flat indices below \<open>n\<close>, and nothing else differs from \<open>s\<close>.
\<close>

definition rk1_done ::
  "config \<Rightarrow> state \<Rightarrow> nat \<Rightarrow> nat \<Rightarrow> state \<Rightarrow> bool" where
  "rk1_done cfg s m n t \<longleftrightarrow>
     (\<exists>pt q y p.
        t = s\<lparr>Ptnew := pt, Qnew := q, Yinew := y, Pnew := p\<rparr> \<and>
        length pt = length (Ptnew s) \<and> length q = length (Qnew s) \<and>
        length y = length (Yinew s) \<and> length p = length (Pnew s) \<and>
        (\<forall>i<m. pt ! i = Pt s ! i + dt cfg * Dpdt s ! i) \<and>
        (\<forall>i\<ge>m. pt ! i = Ptnew s ! i) \<and>
        (\<forall>k<n. q ! k = Q s ! k + dt cfg * Dqdt s ! k \<and>
               y ! k = Yi s ! k + dt cfg * Dydt s ! k \<and>
               p ! k = (Yi s ! k + dt cfg * Dydt s ! k) *
                       (Pt s ! (k div Ncomp cfg) + dt cfg * Dpdt s ! (k div Ncomp cfg))) \<and>
        (\<forall>k\<ge>n. q ! k = Qnew s ! k \<and> y ! k = Yinew s ! k))"

definition ssp_done ::
  "config \<Rightarrow> real \<Rightarrow> real \<Rightarrow> real \<Rightarrow> state \<Rightarrow> nat \<Rightarrow> nat \<Rightarrow> state \<Rightarrow> bool" where
  "ssp_done cfg a b c s m n t \<longleftrightarrow>
     (\<exists>pt q y p.
        t = s\<lparr>Ptnew := pt, Qnew := q, Yinew := y, Pnew := p\<rparr> \<and>
        length pt = length (Ptnew s) \<and> length q = length (Qnew s) \<and>
        length y = length (Yinew s) \<and> length p = length (Pnew s) \<and>
        (\<forall>i<m. pt ! i = a * Pt s ! i + b * Ptnew s ! i + c * dt cfg * Dpdtnew s ! i) \<and>
        (\<forall>i\<ge>m. pt ! i = Ptnew s ! i) \<and>
        (\<forall>k<n. q ! k = a * Q s ! k + b * Qnew s ! k + c * dt cfg * Dqdtnew s ! k \<and>
               y ! k = a * Yi s ! k + b * Yinew s ! k + c * dt cfg * Dydtnew s ! k \<and>
               p ! k = (a * Yi s ! k + b * Yinew s ! k + c * dt cfg * Dydtnew s ! k) *
                       (a * Pt s ! (k div Ncomp cfg) + b * Ptnew s ! (k div Ncomp cfg)
                          + c * dt cfg * Dpdtnew s ! (k div Ncomp cfg))) \<and>
        (\<forall>k\<ge>n. q ! k = Qnew s ! k \<and> y ! k = Yinew s ! k))"

text \<open>The members that only the copies at the end of computeStep (and the end-time
  check) assign.\<close>

definition committed_same :: "state \<Rightarrow> state \<Rightarrow> bool" where
  "committed_same s s' \<longleftrightarrow>
     Nsteps s' = Nsteps s \<and> autoSteps s' = autoSteps s \<and> prefactor s' = prefactor s \<and>
     Yi s' = Yi s \<and> V s' = V s \<and> Pt s' = Pt s \<and> P s' = P s \<and> Q s' = Q s \<and> Qeq s' = Qeq s"

text \<open>computeEquilibriumLoadings assigns the oracle's members and \<open>Qeqnew\<close> only.\<close>

definition oracle_frame :: "state \<Rightarrow> state \<Rightarrow> bool" where
  "oracle_frame s t \<longleftrightarrow>
     (\<exists>perf xi ni c1 c2 qe.
        t = s\<lparr>iastPerformance := perf, Xi := xi, Ni := ni, Qeqnew := qe,
               cachedP0 := c1, cachedPsi := c2\<rparr> \<and> length qe = length (Qeqnew s))"

text \<open>The clipped fraction written first at node \<open>i\<close>, component \<open>j\<close>.\<close>

definition clipped :: "config \<Rightarrow> real list \<Rightarrow> nat \<Rightarrow> nat \<Rightarrow> real" where
  "clipped cfg p i j = max (p ! (i * Ncomp cfg + j) / pt_init cfg ! i) 0"

text \<open>The node loop of initialize, after \<open>n\<close> nodes, started in \<open>a0\<close>.\<close>

definition init_nodes_done :: "mixture \<Rightarrow> config \<Rightarrow> state \<Rightarrow> nat \<Rightarrow> state \<Rightarrow> bool" where
  "init_nodes_done mix cfg a0 n a \<longleftrightarrow>
     (\<exists>outs y qe xi ni c1 c2.
        a = a0\<lparr>iastPerformance := fold (\<lambda>out p. pair_add p (out_perf out)) outs
                                    (iastPerformance a0),
               Yi := y, Xi := xi, Ni := ni, Qeq := qe, cachedP0 := c1, cachedPsi := c2\<rparr> \<and>
        length outs = n \<and> length y = length (Yi a0) \<and> length qe = length (Qeq a0) \<and>
        (\<forall>i<n. (\<exists>b1 b2. mix (Yi_i cfg y i) (pt_init cfg ! i) b1 b2 = Some (outs ! i)) \<and>
           (\<forall>j<Ncomp cfg.
              y ! (i * Ncomp cfg + j)
                = clipped cfg (P a0) i j / (\<Sum>j'<Ncomp cfg. clipped cfg (P a0) i j') \<and>
              qe ! (i * Ncomp cfg + j) = out_Ni (outs ! i) ! j)))"

subsection \<open>Concrete configurations\<close>

text \<open>
  A one-cell column with a single (carrier) component, used to run the functions on an
  object fresh from the constructor.
\<close>

definition carrier_only :: config where
  "carrier_only =
     \<lparr> components = [\<lparr>Yi0 = 1, Kl = 0, D = 0\<rparr>],
       carrierGasComponent = 0, Ngrid = 1, T = 300, p_total = 100000, dptdx = 0,
       epsilon = 0.4, rho_p = 1000, v_in = 0.1, L = 0.3, dt = 0.01,
       numberOfTimeSteps = 10, autoNumberOfTimeSteps = False, pulse = False, tpulse = 0,
       maxIsothermTerms = 1 \<rparr>"

text \<open>An oracle that never fails and reports no uptake.\<close>

definition no_uptake :: mixture where
  "no_uptake y pt c1 c2 =
     Some \<lparr>out_Xi = y, out_Ni = replicate (length y) 0, out_P0 = c1, out_Psi = c2,
            out_perf = (1, 1)\<rparr>"

text \<open>
  The object of a one-cell column of a single gas, filled at a uniform pressure and
  flowing at the inlet velocity of \<open>carrier_only\<close>.
\<close>

definition filled :: "config \<Rightarrow> state" where
  "filled cfg =
     (Breakthrough cfg)\<lparr>Yi := [1, 1], V := [0.1, 0.1], Pt := [100000, 100000],
                         P := [100000, 100000]\<rparr>"


text \<open>The same column run as a pulse experiment that ends at time zero.\<close>

definition pulsed_carrier :: config where
  "pulsed_carrier = carrier_only\<lparr>pulse := True, tpulse := 0\<rparr>"

text \<open>
  Two objects for the pressure check: one whose outlet pressure is negative under a zero
  prescribed gradient, one whose pressures are positive under a steep prescribed gradient.
\<close>

definition negative_outlet :: state where
  "negative_outlet = (filled carrier_only)\<lparr>Pt := [100000, - 1]\<rparr>"

definition steep :: config where
  "steep = carrier_only\<lparr>dptdx := - 1000000\<rparr>"

definition positive_outlet :: state where
  "positive_outlet = filled steep"




subsection \<open>Admissible configurations and the run\<close>

text \<open>
  A configuration as the claims about mole fractions take it: the carrier is one of the
  components, the column has a cell, the feed is a composition, and the Ergun parameters
  have their physical signs.
\<close>

definition admissible :: "config \<Rightarrow> bool" where
  "admissible cfg \<longleftrightarrow>
     carrierGasComponent cfg < Ncomp cfg \<and> 1 \<le> Ngrid cfg \<and>
     0 < p_total cfg \<and> 0 \<le> v_in cfg \<and> 0 < epsilon cfg \<and> epsilon cfg \<le> 1 \<and>
     0 < T cfg \<and> 0 \<le> L cfg \<and>
     (\<forall>j<Ncomp cfg. 0 \<le> Yi0 (components cfg ! j)) \<and>
     (\<exists>j<Ncomp cfg. 0 < Yi0 (components cfg ! j))"

text \<open>
  The objects of a run: the constructor allocates and calls initialize, and the loop of
  \<^verbatim>\<open>run\<close> calls \<^verbatim>\<open>computeStep(step)\<close> for \<open>step = 0, 1, \<dots>\<close> while
  \<open>step < Nsteps || autoSteps\<close>. \<open>reached pol mix cfg n s\<close>: \<open>s\<close> is the object after \<open>n\<close>
  completed steps.
\<close>

inductive reached :: "oob_policy \<Rightarrow> mixture \<Rightarrow> config \<Rightarrow> nat \<Rightarrow> state \<Rightarrow> bool"
  for pol :: oob_policy and mix :: mixture and cfg :: config where
  start: "initialize mix cfg (Breakthrough cfg) = Inr s \<Longrightarrow> reached pol mix cfg 0 s"
| step: "reached pol mix cfg n s \<Longrightarrow> n < Nsteps s \<or> autoSteps s \<Longrightarrow>
         computeStep pol mix cfg n s = Inr s' \<Longrightarrow> reached pol mix cfg (Suc n) s'"

subsection \<open>A binary column\<close>

text \<open>
  An oracle for a carrier and one adsorbed species: no uptake of the carrier (component 0),
  a loading of the second component proportional to its partial pressure.
\<close>

definition henry :: mixture where
  "henry y pt c1 c2 =
     Some \<lparr>out_Xi = y, out_Ni = [0, 0.00001 * (y ! 1) * pt], out_P0 = c1, out_Psi = c2,
            out_perf = (1, 1)\<rparr>"

text \<open>
  A one-cell column at the reference temperature, fed with 60 % carrier and 40 % of a
  species with \<open>Kl = 0.1\<close> and an axial dispersion coefficient; and the object initialize
  leaves for it under \<open>henry\<close>.
\<close>

definition dispersive :: config where
  "dispersive =
     carrier_only\<lparr>components := [\<lparr>Yi0 = 0.6, Kl = 0, D = 0\<rparr>, \<lparr>Yi0 = 0.4, Kl = 0.1, D = 0.001\<rparr>],
                  T := 323.15\<rparr>"

definition dispersive_start :: state where
  "dispersive_start =
     (Breakthrough dispersive)
       \<lparr>iastPerformance := (2, 2),
        prefactor := [0, R * 323.15 * ((1 - 0.4) / 0.4) * 1000 * 0.1],
        Yi := [0.6, 0.4, 1, 0], Xi := [1, 0], Ni := [0, 0],
        V := [0.1 * 100000 / (pt_init dispersive ! 0), 0.1],
        Pt := [100000, 100000], P := [60000, 40000, 100000, 0],
        Qeq := [0, 0.00001 * 0.4 * (pt_init dispersive ! 0), 0, 0]\<rparr>"

subsection \<open>The quadratic of the specification\<close>




subsection \<open>Objects for computeVelocity and for stage 1\<close>


text \<open>
  A one-cell column fed with a binary mixture, at the feed composition and a uniform total
  pressure throughout.
\<close>

definition binary :: config where
  "binary = carrier_only\<lparr>components := [\<lparr>Yi0 = 0.6, Kl = 0, D = 0\<rparr>, \<lparr>Yi0 = 0.4, Kl = 0, D = 0\<rparr>]\<rparr>"

definition binary_feed :: state where
  "binary_feed =
     (Breakthrough binary)
       \<lparr>V := [0.1, 0.1], Yi := [0.6, 0.4, 0.6, 0.4],
        P := [60000, 40000, 60000, 40000], Pt := [100000, 100000]\<rparr>"

subsection \<open>The recomputation after a stage\<close>

text \<open>
  What the calls of computeEquilibriumLoadings and computeVelocity at the end of a stage
  leave in the object \<open>t\<close>, in terms of the object \<open>s\<close> the step started from: the
  loadings are the oracle's answers on the committed \<open>Yi\<close> and \<open>Pt\<close> of \<open>s\<close>, and the
  velocities are the roots for the committed \<open>Pt\<close> of \<open>s\<close> (stated where the code's root
  is a number: \<open>term_a\<close> non-zero and a non-negative discriminant).
\<close>

definition recomputed_from_committed :: "mixture \<Rightarrow> config \<Rightarrow> state \<Rightarrow> state \<Rightarrow> bool" where
  "recomputed_from_committed mix cfg s t \<longleftrightarrow>
     Vnew t ! 0 = v_in cfg \<and>
     (\<forall>i. 1 \<le> i \<and> i \<le> Ngrid cfg \<and> term_a cfg (T cfg) (Pt s) i \<noteq> 0
            \<and> 0 \<le> discriminant cfg (T cfg) (Pt s) i
          \<longrightarrow> Vnew t ! i = explicit_velocity cfg (T cfg) (Pt s) i) \<and>
     (\<forall>i\<le>Ngrid cfg. \<exists>out b1 b2.
          mix (Yi_i cfg (Yi s) i) (Pt s ! i) b1 b2 = Some out \<and>
          (\<forall>j<Ncomp cfg. Qeqnew t ! (i * Ncomp cfg + j) = out_Ni out ! j))"

section \<open>Facts about the result monad and about loops\<close>

lemma bindE_Inr_iff: "bindE m f = Inr y \<longleftrightarrow> (\<exists>x. m = Inr x \<and> f x = Inr y)"
  by (cases m) (simp_all add: bindE_def)

lemma bindE_Inl_iff: "bindE m f = Inl e \<longleftrightarrow> m = Inl e \<or> (\<exists>x. m = Inr x \<and> f x = Inl e)"
  by (cases m) (simp_all add: bindE_def)

lemma bindE_Inr [simp]: "bindE (Inr x) f = f x"
  by (simp add: bindE_def)

lemma bindE_Inl [simp]: "bindE (Inl e) f = Inl e"
  by (simp add: bindE_def)

lemma foldE_append: "foldE f (xs @ ys) s = bindE (foldE f xs s) (foldE f ys)"
proof (induction xs arbitrary: s)
  case Nil
  show ?case by simp
next
  case (Cons x xs)
  show ?case
  proof (cases "f x s")
    case (Inl e)
    then show ?thesis by simp
  next
    case (Inr a)
    then show ?thesis using Cons.IH [of a] by simp
  qed
qed

lemma foldE_invariant:
  assumes "foldE f xs s = Inr s'" and "I s"
    and "\<And>x a b. x \<in> set xs \<Longrightarrow> I a \<Longrightarrow> f x a = Inr b \<Longrightarrow> I b"
  shows "I s'"
  using assms
proof (induction xs arbitrary: s)
  case Nil
  then show ?case by simp
next
  case (Cons x xs)
  from Cons.prems(1) obtain a where a: "f x s = Inr a" and rest: "foldE f xs a = Inr s'"
    by (auto simp: bindE_Inr_iff)
  have "I a" using Cons.prems(2) Cons.prems(3) [of x s a] a by (meson list.set_intros(1))
  moreover have "\<And>y a b. y \<in> set xs \<Longrightarrow> I a \<Longrightarrow> f y a = Inr b \<Longrightarrow> I b"
    using Cons.prems(3) by (meson list.set_intros(2))
  ultimately show ?case using Cons.IH [OF rest] by blast
qed

lemma foldE_total:
  assumes "I s"
    and "\<And>x a. x \<in> set xs \<Longrightarrow> I a \<Longrightarrow> \<exists>b. f x a = Inr b \<and> I b"
  shows "\<exists>s'. foldE f xs s = Inr s' \<and> I s'"
  using assms
proof (induction xs arbitrary: s)
  case Nil
  then show ?case by simp
next
  case (Cons x xs)
  from Cons.prems obtain a where a: "f x s = Inr a" "I a" by (meson list.set_intros(1))
  moreover have "\<And>y c. y \<in> set xs \<Longrightarrow> I c \<Longrightarrow> \<exists>b. f y c = Inr b \<and> I b"
    using Cons.prems(2) by (meson list.set_intros(2))
  ultimately show ?case using Cons.IH [of a] by simp
qed

lemma fold_invariant:
  assumes "I s" and "\<And>x a. x \<in> set xs \<Longrightarrow> I a \<Longrightarrow> I (f x a)"
  shows "I (fold f xs s)"
  using assms by (induction xs arbitrary: s) simp_all

lemma fold_upt_invariant:
  assumes "I m s" and "\<And>k a. m \<le> k \<Longrightarrow> k < n \<Longrightarrow> I k a \<Longrightarrow> I (Suc k) (f k a)" and "m \<le> n"
  shows "I n (fold f [m..<n] s)"
  using assms(3,2)
proof (induction n)
  case 0
  then show ?case using assms(1) by simp
next
  case (Suc n)
  show ?case
  proof (cases "m = Suc n")
    case True
    then show ?thesis using assms(1) by simp
  next
    case False
    with Suc.prems have mn: "m \<le> n" by simp
    have "I n (fold f [m..<n] s)" using Suc.IH [OF mn] Suc.prems(2) by simp
    then have "I (Suc n) (f n (fold f [m..<n] s))" using Suc.prems(2) mn by simp
    then show ?thesis using mn by simp
  qed
qed


section \<open>computeFirstDerivatives: the accesses\<close>

lemma cell_in_range:
  fixes i j n c :: nat
  assumes i: "i \<le> n" and j: "j < c"
  shows "i * c + j < (n + 1) * c"
proof -
  have "i * c + j < (i + 1) * c" using j by (simp add: algebra_simps)
  also have "\<dots> \<le> (n + 1) * c" using i by (intro mult_le_mono1) simp
  finally show ?thesis .
qed

lemma wr_Inr_iff: "wr xs i x = Inr ys \<longleftrightarrow> i < length xs \<and> ys = xs[i := x]"
  by (auto simp: wr_def)

lemma rd_in_range: "i < length xs \<Longrightarrow> rd pol xs i = Inr (xs ! i)"
  by (simp add: rd_def)

lemma rd_trap_Inr_iff: "rd trap xs i = Inr x \<longleftrightarrow> i < length xs \<and> x = xs ! i"
  by (auto simp: rd_def trap_def)

lemma rd_Inl: "rd pol xs i = Inl e \<Longrightarrow> e = OutOfRange"
  by (auto simp: rd_def split: if_splits option.splits)

lemma wr_Inl: "wr xs i x = Inl e \<Longrightarrow> e = OutOfRange"
  by (auto simp: wr_def split: if_splits)

text \<open>What each loop body writes.\<close>

lemma cfd_first_writes:
  assumes "cfd_first pol cfg pf q_eq q v p j (dq, dp, dy) = Inr (dq', dp', dy')"
  shows "\<exists>a b. dq' = dq[j := a] \<and> dp' = dp[0 := b] \<and> dy' = dy[j := 0]
           \<and> j < length dq \<and> 0 < length dp \<and> j < length dy"
  using assms unfolding cfd_first_def
  by (auto simp: bindE_Inr_iff wr_Inr_iff)

lemma cfd_middle_body_writes:
  assumes "cfd_middle_body pol cfg pf q_eq q v p y i sm j (dq, dp, dy) = Inr (dq', dp', dy')"
  shows "\<exists>a b c. dq' = dq[i * Ncomp cfg + j := a] \<and> dp' = dp[i := b]
           \<and> dy' = dy[i * Ncomp cfg + j := c]"
  using assms unfolding cfd_middle_body_def
  by (auto simp: bindE_Inr_iff wr_Inr_iff)

lemma cfd_last_body_writes:
  assumes "cfd_last_body pol cfg pf q_eq q v p y sm j (dq, dp, dy) = Inr (dq', dp', dy')"
  shows "\<exists>a b c. dq' = dq[Ngrid cfg * Ncomp cfg + j := a] \<and> dp' = dp[Ngrid cfg := b]
           \<and> dy' = dy[Ngrid cfg * Ncomp cfg + j := c]"
  using assms unfolding cfd_last_body_def
  by (auto simp: bindE_Inr_iff wr_Inr_iff)

lemma cfd_last_body_reads_past:
  assumes "cfd_last_body trap cfg pf q_eq q v p y sm j d = Inr d'"
  shows "Ngrid cfg + 1 < length v"
  using assms unfolding cfd_last_body_def
  by (auto simp: bindE_Inr_iff rd_trap_Inr_iff split: prod.splits)

lemma cfd_first_Inl:
  "cfd_first pol cfg pf q_eq q v p j d = Inl e \<Longrightarrow> e = OutOfRange"
  unfolding cfd_first_def
  by (auto simp: bindE_Inl_iff split: prod.splits dest: rd_Inl wr_Inl)


lemma foldE_Inl:
  "foldE f xs s = Inl e \<Longrightarrow> \<exists>x a. x \<in> set xs \<and> f x a = Inl e"
proof (induction xs arbitrary: s)
  case Nil
  then show ?case by simp
next
  case (Cons x xs)
  show ?case
  proof (cases "f x s")
    case (Inl e')
    with Cons.prems have "f x s = Inl e" by simp
    then show ?thesis by (meson list.set_intros(1))
  next
    case (Inr a)
    with Cons.prems have "foldE f xs a = Inl e" by simp
    from Cons.IH [OF this] show ?thesis by (meson list.set_intros(2))
  qed
qed

lemma cfd_sum_middle_Inl:
  "cfd_sum_middle pol cfg pf q_eq q y i j sm = Inl e \<Longrightarrow> e = OutOfRange"
  unfolding cfd_sum_middle_def
  by (auto simp: bindE_Inl_iff dest: rd_Inl)

lemma cfd_middle_body_Inl:
  "cfd_middle_body pol cfg pf q_eq q v p y i sm j d = Inl e \<Longrightarrow> e = OutOfRange"
  unfolding cfd_middle_body_def
  by (auto simp: bindE_Inl_iff split: prod.splits dest: rd_Inl wr_Inl)

lemma cfd_middle_Inl:
  assumes "cfd_middle pol cfg pf q_eq q v p y i d = Inl e"
  shows "e = OutOfRange"
  using assms unfolding cfd_middle_def
  by (auto simp: bindE_Inl_iff
      dest!: foldE_Inl rd_Inl cfd_sum_middle_Inl cfd_middle_body_Inl)

lemma cfd_sum_last_Inl:
  "cfd_sum_last pol cfg pf q_eq q j sm = Inl e \<Longrightarrow> e = OutOfRange"
  unfolding cfd_sum_last_def
  by (auto simp: bindE_Inl_iff dest: rd_Inl)

lemma cfd_last_body_Inl:
  "cfd_last_body pol cfg pf q_eq q v p y sm j d = Inl e \<Longrightarrow> e = OutOfRange"
  unfolding cfd_last_body_def
  by (auto simp: bindE_Inl_iff split: prod.splits dest: rd_Inl wr_Inl)

lemma cfd_last_Inl:
  assumes "cfd_last pol cfg pf q_eq q v p y d = Inl e"
  shows "e = OutOfRange"
  using assms unfolding cfd_last_def
  by (auto simp: bindE_Inl_iff
      dest!: foldE_Inl rd_Inl cfd_sum_last_Inl cfd_last_body_Inl)

lemma computeFirstDerivatives_Inl:
  assumes "computeFirstDerivatives pol cfg pf d q_eq q v p y = Inl e"
  shows "e = OutOfRange"
  using assms unfolding computeFirstDerivatives_def
  by (auto simp: bindE_Inl_iff
      dest!: foldE_Inl cfd_first_Inl cfd_middle_Inl cfd_last_Inl)

lemma upt_0_Cons: "0 < n \<Longrightarrow> [0..<n] = 0 # [1..<n]"
  by (simp add: upt_conv_Cons)

lemma cfd_last_trap_Inr:
  assumes "cfd_last trap cfg pf q_eq q v p y d = Inr d'" and "1 \<le> Ncomp cfg"
  shows "Ngrid cfg + 1 < length v"
proof -
  from assms(1) obtain sm where
    "foldE (cfd_last_body trap cfg pf q_eq q v p y sm) [0..<Ncomp cfg] d = Inr d'"
    unfolding cfd_last_def by (auto simp: bindE_Inr_iff)
  moreover have "[0..<Ncomp cfg] = 0 # [1..<Ncomp cfg]"
    using assms(2) by (simp add: upt_0_Cons)
  ultimately obtain d1 where "cfd_last_body trap cfg pf q_eq q v p y sm 0 d = Inr d1"
    by (auto simp: bindE_Inr_iff)
  then show ?thesis by (rule cfd_last_body_reads_past)
qed

lemma computeFirstDerivatives_trap:
  assumes "length v \<le> Ngrid cfg + 1" and "1 \<le> Ncomp cfg"
  shows "computeFirstDerivatives trap cfg pf d q_eq q v p y = Inl OutOfRange"
proof (cases "computeFirstDerivatives trap cfg pf d q_eq q v p y")
  case (Inl e)
  then show ?thesis using computeFirstDerivatives_Inl [OF Inl] by simp
next
  case (Inr d')
  then obtain d2 where "cfd_last trap cfg pf q_eq q v p y d2 = Inr d'"
    unfolding computeFirstDerivatives_def by (auto simp: bindE_Inr_iff)
  from cfd_last_trap_Inr [OF this assms(2)] assms(1) show ?thesis by simp
qed

lemma sized_Breakthrough: "sized cfg (Breakthrough cfg)"
  by (simp add: sized_def Breakthrough_def)

text \<open>
  C9 (bounds of computeFirstDerivatives). On the vectors the constructor allocates and
  with at least one component, a bounds-checked run of computeFirstDerivatives faults at
  either call site of computeStep: the last-gridpoint block reads \<open>v[Ngrid + 1]\<close> while
  the velocity vectors hold the indices \<open>0..Ngrid\<close>. The claim that every access stays
  within bounds does not hold of the code.
\<close>

theorem computeFirstDerivatives_out_of_range:
  assumes "sized cfg s" and "1 \<le> Ncomp cfg"
  shows "derivatives_stage1 trap cfg s = Inl OutOfRange
       \<and> derivatives_new trap cfg s = Inl OutOfRange"
proof -
  have "length (V s) \<le> Ngrid cfg + 1" and "length (Vnew s) \<le> Ngrid cfg + 1"
    using assms(1) by (simp_all add: sized_def)
  then show ?thesis
    using assms(2)
    by (simp add: derivatives_stage1_def derivatives_new_def computeFirstDerivatives_trap)
qed

theorem computeFirstDerivatives_out_of_range_witness:
  "sized carrier_only (Breakthrough carrier_only) \<and> 1 \<le> Ncomp carrier_only
   \<and> derivatives_stage1 trap carrier_only (Breakthrough carrier_only) = Inl OutOfRange
   \<and> derivatives_new trap carrier_only (Breakthrough carrier_only) = Inl OutOfRange"
proof -
  have n: "1 \<le> Ncomp carrier_only" by (simp add: Ncomp_def carrier_only_def)
  show ?thesis
    using computeFirstDerivatives_out_of_range [OF sized_Breakthrough n] n sized_Breakthrough
    by simp
qed


section \<open>computeFirstDerivatives: what it writes\<close>

lemma foldE_upt_invariant:
  assumes "foldE f [m..<n] s = Inr s'" and "I m s"
    and "\<And>k a b. m \<le> k \<Longrightarrow> k < n \<Longrightarrow> I k a \<Longrightarrow> f k a = Inr b \<Longrightarrow> I (Suc k) b"
    and "m \<le> n"
  shows "I n s'"
  using assms(4,1,3)
proof (induction n arbitrary: s')
  case 0
  then show ?case using assms(2) by simp
next
  case (Suc n)
  show ?case
  proof (cases "m = Suc n")
    case True
    then show ?thesis using Suc.prems(2) assms(2) by simp
  next
    case False
    with Suc.prems(1) have mn: "m \<le> n" by simp
    then have "[m..<Suc n] = [m..<n] @ [n]" by simp
    with Suc.prems(2) obtain a where a: "foldE f [m..<n] s = Inr a" and b: "f n a = Inr s'"
      by (auto simp: foldE_append bindE_Inr_iff)
    have "I n a"
      by (rule Suc.IH [OF mn a]) (use Suc.prems(3) in auto)
    then show ?thesis using Suc.prems(3) [of n a s'] mn b by simp
  qed
qed

lemma cfd_first_lens: "cfd_first pol cfg pf q_eq q v p j d = Inr d' \<Longrightarrow> lens d' = lens d"
  by (cases d, cases d') (auto simp: lens_def dest!: cfd_first_writes)

lemma cfd_middle_body_lens:
  "cfd_middle_body pol cfg pf q_eq q v p y i sm j d = Inr d' \<Longrightarrow> lens d' = lens d"
  by (cases d, cases d') (auto simp: lens_def dest!: cfd_middle_body_writes)

lemma cfd_last_body_lens:
  "cfd_last_body pol cfg pf q_eq q v p y sm j d = Inr d' \<Longrightarrow> lens d' = lens d"
  by (cases d, cases d') (auto simp: lens_def dest!: cfd_last_body_writes)

lemma foldE_lens:
  assumes "foldE f xs d = Inr d'" and "\<And>x a b. f x a = Inr b \<Longrightarrow> lens b = lens a"
  shows "lens d' = lens d"
  by (rule foldE_invariant [OF assms(1), where I = "\<lambda>a. lens a = lens d"])
    (simp_all add: assms(2))

lemma cfd_middle_lens:
  "cfd_middle pol cfg pf q_eq q v p y i d = Inr d' \<Longrightarrow> lens d' = lens d"
  unfolding cfd_middle_def
  by (auto simp: bindE_Inr_iff elim!: foldE_lens dest: cfd_middle_body_lens)

lemma cfd_last_lens:
  "cfd_last pol cfg pf q_eq q v p y d = Inr d' \<Longrightarrow> lens d' = lens d"
  unfolding cfd_last_def
  by (auto simp: bindE_Inr_iff elim!: foldE_lens dest: cfd_last_body_lens)

lemma computeFirstDerivatives_lens:
  assumes "computeFirstDerivatives pol cfg pf d q_eq q v p y = Inr d'"
  shows "lens d' = lens d"
proof -
  from assms obtain d1 d2 where
    1: "foldE (cfd_first pol cfg pf q_eq q v p) [0..<Ncomp cfg] d = Inr d1" and
    2: "foldE (cfd_middle pol cfg pf q_eq q v p y) [1..<Ngrid cfg] d1 = Inr d2" and
    3: "cfd_last pol cfg pf q_eq q v p y d2 = Inr d'"
    unfolding computeFirstDerivatives_def by (auto simp: bindE_Inr_iff)
  have "lens d1 = lens d" using 1 by (rule foldE_lens) (rule cfd_first_lens)
  moreover have "lens d2 = lens d1" using 2 by (rule foldE_lens) (rule cfd_middle_lens)
  moreover have "lens d' = lens d2" using 3 by (rule cfd_last_lens)
  ultimately show ?thesis by simp
qed


text \<open>Invariants of the three blocks: a property of the derivative vectors that the
  writes of the later blocks leave alone.\<close>

lemma foldE_keeps:
  assumes "foldE f xs d = Inr d'" and "K d"
    and "\<And>x a b. x \<in> set xs \<Longrightarrow> K a \<Longrightarrow> f x a = Inr b \<Longrightarrow> K b"
  shows "K d'"
  using assms by (rule foldE_invariant)

lemma inlet_row_below: 
  fixes i c j :: nat
  shows "1 \<le> i \<Longrightarrow> c \<le> i * c + j"
  by (cases i) simp_all

lemma cfd_first_loop_dydt:
  assumes "foldE (cfd_first pol cfg pf q_eq q v p) [0..<Ncomp cfg] d = Inr d'"
  shows "inlet_dydt_zero cfg d'"
proof -
  have "case d' of (dq, dp, dy) \<Rightarrow> \<forall>k<Ncomp cfg. dy ! k = 0"
  proof (rule foldE_upt_invariant [OF assms,
        where I = "\<lambda>n d. case d of (dq, dp, dy) \<Rightarrow> \<forall>k<n. dy ! k = 0"])
    show "case d of (dq, dp, dy) \<Rightarrow> \<forall>k<0. dy ! k = 0" by (cases d) simp
  next
    fix j a b
    assume inv: "case a of (dq, dp, dy) \<Rightarrow> \<forall>k<j. dy ! k = 0"
      and step: "cfd_first pol cfg pf q_eq q v p j a = Inr b"
    obtain dq dp dy where a: "a = (dq, dp, dy)" by (cases a)
    obtain dq' dp' dy' where b: "b = (dq', dp', dy')" by (cases b)
    from cfd_first_writes [OF step [unfolded a b]]
    have "dy' = dy[j := 0]" and "j < length dy" by auto
    then show "case b of (dq, dp, dy) \<Rightarrow> \<forall>k<Suc j. dy ! k = 0"
      using inv by (auto simp: a b nth_list_update less_Suc_eq)
  qed simp
  then show ?thesis by (simp add: inlet_dydt_zero_def)
qed

lemma cfd_middle_body_keeps_dydt:
  assumes "cfd_middle_body pol cfg pf q_eq q v p y i sm j d = Inr d'"
    and "inlet_dydt_zero cfg d" and "1 \<le> i"
  shows "inlet_dydt_zero cfg d'"
proof -
  obtain dq dp dy where a: "d = (dq, dp, dy)" by (cases d)
  obtain dq' dp' dy' where b: "d' = (dq', dp', dy')" by (cases d')
  from cfd_middle_body_writes [OF assms(1) [unfolded a b]]
  obtain c where "dy' = dy[i * Ncomp cfg + j := c]" by auto
  then show ?thesis
    using assms(2) inlet_row_below [OF assms(3), of "Ncomp cfg" j]
    by (auto simp: a b inlet_dydt_zero_def nth_list_update)
qed

lemma cfd_middle_keeps_dydt:
  assumes "cfd_middle pol cfg pf q_eq q v p y i d = Inr d'"
    and "inlet_dydt_zero cfg d" and "1 \<le> i"
  shows "inlet_dydt_zero cfg d'"
proof -
  from assms(1) obtain sm where
    "foldE (cfd_middle_body pol cfg pf q_eq q v p y i sm) [0..<Ncomp cfg] d = Inr d'"
    unfolding cfd_middle_def by (auto simp: bindE_Inr_iff)
  then show ?thesis
    using assms(2) by (rule foldE_keeps) (rule cfd_middle_body_keeps_dydt [OF _ _ assms(3)])
qed

lemma cfd_last_body_keeps_dydt:
  assumes "cfd_last_body pol cfg pf q_eq q v p y sm j d = Inr d'"
    and "inlet_dydt_zero cfg d" and "1 \<le> Ngrid cfg"
  shows "inlet_dydt_zero cfg d'"
proof -
  obtain dq dp dy where a: "d = (dq, dp, dy)" by (cases d)
  obtain dq' dp' dy' where b: "d' = (dq', dp', dy')" by (cases d')
  from cfd_last_body_writes [OF assms(1) [unfolded a b]]
  obtain c where "dy' = dy[Ngrid cfg * Ncomp cfg + j := c]" by auto
  then show ?thesis
    using assms(2) inlet_row_below [OF assms(3), of "Ncomp cfg" j]
    by (auto simp: a b inlet_dydt_zero_def nth_list_update)
qed

lemma cfd_last_keeps_dydt:
  assumes "cfd_last pol cfg pf q_eq q v p y d = Inr d'"
    and "inlet_dydt_zero cfg d" and "1 \<le> Ngrid cfg"
  shows "inlet_dydt_zero cfg d'"
proof -
  from assms(1) obtain sm where
    "foldE (cfd_last_body pol cfg pf q_eq q v p y sm) [0..<Ncomp cfg] d = Inr d'"
    unfolding cfd_last_def by (auto simp: bindE_Inr_iff)
  then show ?thesis
    using assms(2) by (rule foldE_keeps) (rule cfd_last_body_keeps_dydt [OF _ _ assms(3)])
qed

lemma computeFirstDerivatives_inlet_dydt:
  assumes "computeFirstDerivatives pol cfg pf d q_eq q v p y = Inr d'" and "1 \<le> Ngrid cfg"
  shows "inlet_dydt_zero cfg d'"
proof -
  from assms(1) obtain d1 d2 where
    1: "foldE (cfd_first pol cfg pf q_eq q v p) [0..<Ncomp cfg] d = Inr d1" and
    2: "foldE (cfd_middle pol cfg pf q_eq q v p y) [1..<Ngrid cfg] d1 = Inr d2" and
    3: "cfd_last pol cfg pf q_eq q v p y d2 = Inr d'"
    unfolding computeFirstDerivatives_def by (auto simp: bindE_Inr_iff)
  have "inlet_dydt_zero cfg d1" using 1 by (rule cfd_first_loop_dydt)
  with 2 have "inlet_dydt_zero cfg d2"
    by (rule foldE_keeps) (auto intro: cfd_middle_keeps_dydt)
  with 3 show ?thesis using assms(2) by (rule cfd_last_keeps_dydt)
qed


lemma upt_snoc: "0 < n \<Longrightarrow> [0..<n] = [0..<n - 1] @ [n - 1]"
  by (cases n) simp_all

lemma cfd_first_loop_dpdt:
  assumes run: "foldE (cfd_first pol cfg pf q_eq q v p) [0..<Ncomp cfg] d = Inr d'"
    and n: "1 \<le> Ncomp cfg"
    and len: "2 \<le> length v" "2 \<le> length p" "Ncomp cfg \<le> length pf"
      "Ncomp cfg \<le> length q_eq" "Ncomp cfg \<le> length q"
  shows "dpdt0_is (- v ! 0 * (p ! 1 - p ! 0) * idx cfg - p ! 0 * (v ! 1 - v ! 0) * idx cfg
            - pf ! (Ncomp cfg - 1) * (q_eq ! (Ncomp cfg - 1) - q ! (Ncomp cfg - 1))) d'"
proof -
  have "[0..<Ncomp cfg] = [0..<Ncomp cfg - 1] @ [Ncomp cfg - 1]"
    using n by (simp add: upt_snoc)
  with run obtain d0 where
    last: "cfd_first pol cfg pf q_eq q v p (Ncomp cfg - 1) d0 = Inr d'"
    by (auto simp: foldE_append bindE_Inr_iff)
  obtain dq dp dy where a: "d0 = (dq, dp, dy)" by (cases d0)
  obtain dq' dp' dy' where b: "d' = (dq', dp', dy')" by (cases d')
  have r: "rd pol v 0 = Inr (v ! 0)" "rd pol v 1 = Inr (v ! 1)"
    "rd pol p 0 = Inr (p ! 0)" "rd pol p 1 = Inr (p ! 1)"
    "rd pol pf (Ncomp cfg - 1) = Inr (pf ! (Ncomp cfg - 1))"
    "rd pol q_eq (Ncomp cfg - 1) = Inr (q_eq ! (Ncomp cfg - 1))"
    "rd pol q (Ncomp cfg - 1) = Inr (q ! (Ncomp cfg - 1))"
    using n len by (auto simp: rd_def)
  from last show ?thesis
    unfolding cfd_first_def a b dpdt0_is_def
    by (auto simp: bindE_Inr_iff wr_Inr_iff r [unfolded One_nat_def])
qed

lemma cfd_middle_keeps_dpdt0:
  assumes "cfd_middle pol cfg pf q_eq q v p y i d = Inr d'" and "dpdt0_is c d" and "1 \<le> i"
  shows "dpdt0_is c d'"
proof -
  from assms(1) obtain sm where
    "foldE (cfd_middle_body pol cfg pf q_eq q v p y i sm) [0..<Ncomp cfg] d = Inr d'"
    unfolding cfd_middle_def by (auto simp: bindE_Inr_iff)
  then show ?thesis using assms(2)
  proof (rule foldE_keeps)
    fix j a b
    assume k: "dpdt0_is c a" and step: "cfd_middle_body pol cfg pf q_eq q v p y i sm j a = Inr b"
    obtain dq dp dy where a: "a = (dq, dp, dy)" by (cases a)
    obtain dq' dp' dy' where b: "b = (dq', dp', dy')" by (cases b)
    from cfd_middle_body_writes [OF step [unfolded a b]]
    obtain x where "dp' = dp[i := x]" by auto
    then show "dpdt0_is c b" using k assms(3) by (simp add: a b dpdt0_is_def)
  qed
qed

lemma cfd_last_keeps_dpdt0:
  assumes "cfd_last pol cfg pf q_eq q v p y d = Inr d'" and "dpdt0_is c d"
    and "1 \<le> Ngrid cfg"
  shows "dpdt0_is c d'"
proof -
  from assms(1) obtain sm where
    "foldE (cfd_last_body pol cfg pf q_eq q v p y sm) [0..<Ncomp cfg] d = Inr d'"
    unfolding cfd_last_def by (auto simp: bindE_Inr_iff)
  then show ?thesis using assms(2)
  proof (rule foldE_keeps)
    fix j a b
    assume k: "dpdt0_is c a" and step: "cfd_last_body pol cfg pf q_eq q v p y sm j a = Inr b"
    obtain dq dp dy where a: "a = (dq, dp, dy)" by (cases a)
    obtain dq' dp' dy' where b: "b = (dq', dp', dy')" by (cases b)
    from cfd_last_body_writes [OF step [unfolded a b]]
    obtain x where "dp' = dp[Ngrid cfg := x]" by auto
    then show "dpdt0_is c b" using k assms(3) by (simp add: a b dpdt0_is_def)
  qed
qed

lemma computeFirstDerivatives_inlet_dpdt:
  assumes run: "computeFirstDerivatives pol cfg pf d q_eq q v p y = Inr d'"
    and n: "1 \<le> Ncomp cfg" and g: "1 \<le> Ngrid cfg"
    and len: "2 \<le> length v" "2 \<le> length p" "Ncomp cfg \<le> length pf"
      "Ncomp cfg \<le> length q_eq" "Ncomp cfg \<le> length q"
  shows "dpdt0_is (- v ! 0 * (p ! 1 - p ! 0) * idx cfg - p ! 0 * (v ! 1 - v ! 0) * idx cfg
            - pf ! (Ncomp cfg - 1) * (q_eq ! (Ncomp cfg - 1) - q ! (Ncomp cfg - 1))) d'"
proof -
  from run obtain d1 d2 where
    1: "foldE (cfd_first pol cfg pf q_eq q v p) [0..<Ncomp cfg] d = Inr d1" and
    2: "foldE (cfd_middle pol cfg pf q_eq q v p y) [1..<Ngrid cfg] d1 = Inr d2" and
    3: "cfd_last pol cfg pf q_eq q v p y d2 = Inr d'"
    unfolding computeFirstDerivatives_def by (auto simp: bindE_Inr_iff)
  note a = cfd_first_loop_dpdt [OF 1 n len]
  from 2 a have "dpdt0_is (- v ! 0 * (p ! 1 - p ! 0) * idx cfg - p ! 0 * (v ! 1 - v ! 0) * idx cfg
            - pf ! (Ncomp cfg - 1) * (q_eq ! (Ncomp cfg - 1) - q ! (Ncomp cfg - 1))) d2"
    by (rule foldE_keeps) (auto intro: cfd_middle_keeps_dpdt0)
  with 3 show ?thesis using g by (rule cfd_last_keeps_dpdt0)
qed


text \<open>Success: with the constructor's sizes, the read of \<open>v[Ngrid + 1]\<close> is the only
  access outside an allocation.\<close>

lemma cfd_first_succeeds:
  assumes sz: "cfd_sizes cfg pf d q_eq q v p y" and j: "j < Ncomp cfg" and g: "1 \<le> Ngrid cfg"
  shows "\<exists>d'. cfd_first pol cfg pf q_eq q v p j d = Inr d'"
proof -
  obtain dq dp dy where d: "d = (dq, dp, dy)" by (cases d)
  have c: "j < (Ngrid cfg + 1) * Ncomp cfg"
    using cell_in_range [of 0 "Ngrid cfg" j "Ncomp cfg"] j by simp
  have "j < length q_eq" "j < length q" "j < length dq" "j < length dy" "j < length pf"
    "0 < length v" "1 < length v" "0 < length p" "1 < length p" "0 < length dp"
    using sz c j g by (auto simp: cfd_sizes_def lens_def d)
  then show ?thesis
    unfolding cfd_first_def d by (simp add: rd_def wr_def)
qed

lemma cfd_sum_middle_succeeds:
  assumes sz: "cfd_sizes cfg pf d q_eq q v p y" and j: "j < Ncomp cfg" and i: "i \<le> Ngrid cfg"
  shows "\<exists>r. cfd_sum_middle pol cfg pf q_eq q y i j sm = Inr r"
proof -
  have c: "i * Ncomp cfg + j < (Ngrid cfg + 1) * Ncomp cfg"
    using cell_in_range [OF i j] .
  have "i * Ncomp cfg + j < length q_eq" "i * Ncomp cfg + j < length q"
    "i * Ncomp cfg + j < length y" "j < length pf"
    using sz c j by (simp_all add: cfd_sizes_def)
  then show ?thesis
    unfolding cfd_sum_middle_def by (simp add: rd_def)
qed

lemma cfd_middle_body_succeeds:
  assumes sz: "cfd_sizes cfg pf d q_eq q v p y" and j: "j < Ncomp cfg"
    and i: "1 \<le> i" "i < Ngrid cfg"
  shows "\<exists>d'. cfd_middle_body pol cfg pf q_eq q v p y i sm j d = Inr d'"
proof -
  obtain dq dp dy where d: "d = (dq, dp, dy)" by (cases d)
  have c: "i * Ncomp cfg + j < (Ngrid cfg + 1) * Ncomp cfg"
    "(i + 1) * Ncomp cfg + j < (Ngrid cfg + 1) * Ncomp cfg"
    "(i - 1) * Ncomp cfg + j < (Ngrid cfg + 1) * Ncomp cfg"
    using cell_in_range [of i "Ngrid cfg" j "Ncomp cfg"]
      cell_in_range [of "i + 1" "Ngrid cfg" j "Ncomp cfg"]
      cell_in_range [of "i - 1" "Ngrid cfg" j "Ncomp cfg"] i j by simp_all
  have "i * Ncomp cfg + j < length q_eq" "i * Ncomp cfg + j < length q"
    "i * Ncomp cfg + j < length y" "(i + 1) * Ncomp cfg + j < length y"
    "(i - 1) * Ncomp cfg + j < length y" "j < length pf"
    "i * Ncomp cfg + j < length dq" "i * Ncomp cfg + j < length dy" "i < length dp"
    "i < length v" "i + 1 < length v" "i < length p" "i + 1 < length p" "i - 1 < length p"
    using sz c i j by (auto simp: cfd_sizes_def lens_def d)
  then show ?thesis
    unfolding cfd_middle_body_def d by (simp add: rd_def wr_def)
qed

lemma cfd_sum_last_succeeds:
  assumes sz: "cfd_sizes cfg pf d q_eq q v p y" and j: "j < Ncomp cfg"
  shows "\<exists>r. cfd_sum_last pol cfg pf q_eq q j sm = Inr r"
proof -
  have c: "Ngrid cfg * Ncomp cfg + j < (Ngrid cfg + 1) * Ncomp cfg"
    using j by (auto intro!: cell_in_range)
  have "Ngrid cfg * Ncomp cfg + j < length q_eq" "Ngrid cfg * Ncomp cfg + j < length q"
    "j < length pf"
    using sz c j by (simp_all add: cfd_sizes_def)
  then show ?thesis
    unfolding cfd_sum_last_def by (simp add: rd_def)
qed

lemma cfd_last_body_succeeds:
  assumes sz: "cfd_sizes cfg pf d q_eq q v p y" and j: "j < Ncomp cfg"
    and pol: "pol v (Ngrid cfg + 1) = Some g"
  shows "\<exists>d'. cfd_last_body pol cfg pf q_eq q v p y sm j d = Inr d'"
proof -
  obtain dq dp dy where d: "d = (dq, dp, dy)" by (cases d)
  have c: "Ngrid cfg * Ncomp cfg + j < (Ngrid cfg + 1) * Ncomp cfg"
    "(Ngrid cfg - 1) * Ncomp cfg + j < (Ngrid cfg + 1) * Ncomp cfg"
    using cell_in_range [of "Ngrid cfg" "Ngrid cfg" j "Ncomp cfg"]
      cell_in_range [of "Ngrid cfg - 1" "Ngrid cfg" j "Ncomp cfg"] j by simp_all
  have v: "rd pol v (Ngrid cfg + 1) = Inr g"
    using sz pol by (simp add: rd_def cfd_sizes_def)
  have "Ngrid cfg * Ncomp cfg + j < length q_eq" "Ngrid cfg * Ncomp cfg + j < length q"
    "Ngrid cfg * Ncomp cfg + j < length y" "(Ngrid cfg - 1) * Ncomp cfg + j < length y"
    "j < length pf" "Ngrid cfg * Ncomp cfg + j < length dq"
    "Ngrid cfg * Ncomp cfg + j < length dy" "Ngrid cfg < length dp"
    "Ngrid cfg < length v" "Ngrid cfg < length p" "Ngrid cfg - 1 < length p"
    using sz c j by (auto simp: cfd_sizes_def lens_def d)
  then show ?thesis
    unfolding cfd_last_body_def d using v by (simp add: rd_def wr_def)
qed


lemma cfd_sizes_lens:
  "lens d' = lens d \<Longrightarrow> cfd_sizes cfg pf d' q_eq q v p y = cfd_sizes cfg pf d q_eq q v p y"
  by (simp add: cfd_sizes_def)

lemma cfd_middle_succeeds:
  assumes sz: "cfd_sizes cfg pf d q_eq q v p y" and i: "1 \<le> i" "i < Ngrid cfg"
  shows "\<exists>d'. cfd_middle pol cfg pf q_eq q v p y i d = Inr d'
           \<and> cfd_sizes cfg pf d' q_eq q v p y"
proof -
  have "\<exists>sm. foldE (cfd_sum_middle pol cfg pf q_eq q y i) [0..<Ncomp cfg] 0 = Inr sm \<and> True"
  proof (rule foldE_total [where I = "\<lambda>a. True"])
    fix j a
    assume "j \<in> set [0..<Ncomp cfg]"
    then have "j < Ncomp cfg" by simp
    from cfd_sum_middle_succeeds [OF sz this, of i pol a] i
    show "\<exists>b. cfd_sum_middle pol cfg pf q_eq q y i j a = Inr b \<and> True" by simp
  qed simp
  then obtain sm where
    sm: "foldE (cfd_sum_middle pol cfg pf q_eq q y i) [0..<Ncomp cfg] 0 = Inr sm" by blast
  have p: "rd pol p i = Inr (p ! i)"
    using sz i by (simp add: rd_def cfd_sizes_def)
  have "\<exists>d'. foldE (cfd_middle_body pol cfg pf q_eq q v p y i (sm / p ! i)) [0..<Ncomp cfg] d
            = Inr d' \<and> cfd_sizes cfg pf d' q_eq q v p y"
  proof (rule foldE_total [where I = "\<lambda>a. cfd_sizes cfg pf a q_eq q v p y"])
    show "cfd_sizes cfg pf d q_eq q v p y" by (rule sz)
  next
    fix j a
    assume j: "j \<in> set [0..<Ncomp cfg]" and a: "cfd_sizes cfg pf a q_eq q v p y"
    from cfd_middle_body_succeeds [OF a _ i, of j pol "sm / p ! i"] j
    obtain b where b: "cfd_middle_body pol cfg pf q_eq q v p y i (sm / p ! i) j a = Inr b"
      by auto
    from cfd_sizes_lens [OF cfd_middle_body_lens [OF b]] a have "cfd_sizes cfg pf b q_eq q v p y"
      by simp
    with b show "\<exists>b. cfd_middle_body pol cfg pf q_eq q v p y i (sm / p ! i) j a = Inr b
        \<and> cfd_sizes cfg pf b q_eq q v p y" by blast
  qed
  then show ?thesis
    unfolding cfd_middle_def by (simp add: sm p)
qed

lemma cfd_last_succeeds:
  assumes sz: "cfd_sizes cfg pf d q_eq q v p y" and pol: "pol v (Ngrid cfg + 1) = Some g"
  shows "\<exists>d'. cfd_last pol cfg pf q_eq q v p y d = Inr d'"
proof -
  have "\<exists>sm. foldE (cfd_sum_last pol cfg pf q_eq q) [0..<Ncomp cfg] 0 = Inr sm \<and> True"
  proof (rule foldE_total [where I = "\<lambda>a. True"])
    fix j a
    assume "j \<in> set [0..<Ncomp cfg]"
    then have "j < Ncomp cfg" by simp
    from cfd_sum_last_succeeds [OF sz this, of pol a]
    show "\<exists>b. cfd_sum_last pol cfg pf q_eq q j a = Inr b \<and> True" by simp
  qed simp
  then obtain sm where
    sm: "foldE (cfd_sum_last pol cfg pf q_eq q) [0..<Ncomp cfg] 0 = Inr sm" by blast
  have p: "rd pol p (Ngrid cfg) = Inr (p ! Ngrid cfg)"
    using sz by (simp add: rd_def cfd_sizes_def)
  have "\<exists>d'. foldE (cfd_last_body pol cfg pf q_eq q v p y (sm / p ! Ngrid cfg))
            [0..<Ncomp cfg] d = Inr d' \<and> cfd_sizes cfg pf d' q_eq q v p y"
  proof (rule foldE_total [where I = "\<lambda>a. cfd_sizes cfg pf a q_eq q v p y"])
    show "cfd_sizes cfg pf d q_eq q v p y" by (rule sz)
  next
    fix j a
    assume j: "j \<in> set [0..<Ncomp cfg]" and a: "cfd_sizes cfg pf a q_eq q v p y"
    from j have "j < Ncomp cfg" by simp
    from cfd_last_body_succeeds [where pol = pol and v = v and g = g, OF a this pol]
    obtain b where
      b: "cfd_last_body pol cfg pf q_eq q v p y (sm / p ! Ngrid cfg) j a = Inr b"
      by blast
    from cfd_sizes_lens [OF cfd_last_body_lens [OF b]] a have "cfd_sizes cfg pf b q_eq q v p y"
      by simp
    with b show "\<exists>b. cfd_last_body pol cfg pf q_eq q v p y (sm / p ! Ngrid cfg) j a = Inr b
        \<and> cfd_sizes cfg pf b q_eq q v p y" by blast
  qed
  then show ?thesis
    unfolding cfd_last_def by (auto simp: sm p)
qed

lemma computeFirstDerivatives_succeeds:
  assumes sz: "cfd_sizes cfg pf d q_eq q v p y" and g: "1 \<le> Ngrid cfg"
    and pol: "pol v (Ngrid cfg + 1) = Some x"
  shows "\<exists>d'. computeFirstDerivatives pol cfg pf d q_eq q v p y = Inr d'"
proof -
  have "\<exists>d1. foldE (cfd_first pol cfg pf q_eq q v p) [0..<Ncomp cfg] d = Inr d1
          \<and> cfd_sizes cfg pf d1 q_eq q v p y"
  proof (rule foldE_total [where I = "\<lambda>a. cfd_sizes cfg pf a q_eq q v p y"])
    show "cfd_sizes cfg pf d q_eq q v p y" by (rule sz)
  next
    fix j a
    assume j: "j \<in> set [0..<Ncomp cfg]" and a: "cfd_sizes cfg pf a q_eq q v p y"
    from cfd_first_succeeds [OF a _ g, of j pol] j
    obtain b where b: "cfd_first pol cfg pf q_eq q v p j a = Inr b" by auto
    from cfd_sizes_lens [OF cfd_first_lens [OF b]] a have "cfd_sizes cfg pf b q_eq q v p y"
      by simp
    with b show "\<exists>b. cfd_first pol cfg pf q_eq q v p j a = Inr b
        \<and> cfd_sizes cfg pf b q_eq q v p y" by blast
  qed
  then obtain d1 where
    1: "foldE (cfd_first pol cfg pf q_eq q v p) [0..<Ncomp cfg] d = Inr d1" and
    s1: "cfd_sizes cfg pf d1 q_eq q v p y" by blast
  have "\<exists>d2. foldE (cfd_middle pol cfg pf q_eq q v p y) [1..<Ngrid cfg] d1 = Inr d2
          \<and> cfd_sizes cfg pf d2 q_eq q v p y"
  proof (rule foldE_total [where I = "\<lambda>a. cfd_sizes cfg pf a q_eq q v p y"])
    show "cfd_sizes cfg pf d1 q_eq q v p y" by (rule s1)
  next
    fix i a
    assume "i \<in> set [1..<Ngrid cfg]" and a: "cfd_sizes cfg pf a q_eq q v p y"
    then have "1 \<le> i" "i < Ngrid cfg" by simp_all
    from cfd_middle_succeeds [OF a this]
    show "\<exists>b. cfd_middle pol cfg pf q_eq q v p y i a = Inr b
        \<and> cfd_sizes cfg pf b q_eq q v p y" .
  qed
  then obtain d2 where
    2: "foldE (cfd_middle pol cfg pf q_eq q v p y) [1..<Ngrid cfg] d1 = Inr d2" and
    s2: "cfd_sizes cfg pf d2 q_eq q v p y" by blast
  from cfd_last_succeeds [where pol = pol and v = v and g = x, OF s2 pol] show ?thesis
    unfolding computeFirstDerivatives_def by (simp add: 1 2 [unfolded One_nat_def])
qed


section \<open>The loop nests of the three stages\<close>

lemma rk1_done_start: "rk1_done cfg s 0 0 s"
  unfolding rk1_done_def
  by (rule exI [of _ "Ptnew s"], rule exI [of _ "Qnew s"], rule exI [of _ "Yinew s"],
      rule exI [of _ "Pnew s"]) simp

lemma rk1_cell_done:
  assumes inv: "rk1_done cfg s (Suc i) (i * Ncomp cfg + j) t"
    and j: "j < Ncomp cfg" and i: "i \<le> Ngrid cfg" and sz: "sized cfg s"
  shows "rk1_done cfg s (Suc i) (Suc (i * Ncomp cfg + j)) (rk1_cell cfg i j t)"
proof -
  let ?k = "i * Ncomp cfg + j"
  from inv obtain pt q y p where
    t: "t = s\<lparr>Ptnew := pt, Qnew := q, Yinew := y, Pnew := p\<rparr>" and
    len: "length pt = length (Ptnew s)" "length q = length (Qnew s)"
         "length y = length (Yinew s)" "length p = length (Pnew s)" and
    pt: "\<forall>i'<Suc i. pt ! i' = Pt s ! i' + dt cfg * Dpdt s ! i'"
        "\<forall>i'\<ge>Suc i. pt ! i' = Ptnew s ! i'" and
    lo: "\<forall>k<?k. q ! k = Q s ! k + dt cfg * Dqdt s ! k \<and>
               y ! k = Yi s ! k + dt cfg * Dydt s ! k \<and>
               p ! k = (Yi s ! k + dt cfg * Dydt s ! k) *
                       (Pt s ! (k div Ncomp cfg) + dt cfg * Dpdt s ! (k div Ncomp cfg))" and
    hi: "\<forall>k\<ge>?k. q ! k = Qnew s ! k \<and> y ! k = Yinew s ! k"
    unfolding rk1_done_def by blast
  have k: "?k < length q" "?k < length y" "?k < length p"
    using cell_in_range [OF i j] sz len by (simp_all add: sized_def)
  have dv: "?k div Ncomp cfg = i" using j by simp
  let ?qv = "Q s ! ?k + dt cfg * Dqdt s ! ?k"
  let ?yv = "Yi s ! ?k + dt cfg * Dydt s ! ?k"
  let ?ptv = "Pt s ! i + dt cfg * Dpdt s ! i"
  have cell: "rk1_cell cfg i j t =
      s\<lparr>Ptnew := pt, Qnew := q[?k := ?qv], Yinew := y[?k := ?yv], Pnew := p[?k := ?yv * ?ptv]\<rparr>"
    using hi pt(1) k unfolding rk1_cell_def Let_def t by simp
  show ?thesis
    unfolding rk1_done_def cell
  proof (intro exI conjI)
    show "s\<lparr>Ptnew := pt, Qnew := q[?k := ?qv], Yinew := y[?k := ?yv], Pnew := p[?k := ?yv * ?ptv]\<rparr>
        = s\<lparr>Ptnew := pt, Qnew := q[?k := ?qv], Yinew := y[?k := ?yv], Pnew := p[?k := ?yv * ?ptv]\<rparr>" ..
    show "\<forall>k<Suc ?k. q[?k := ?qv] ! k = Q s ! k + dt cfg * Dqdt s ! k \<and>
               y[?k := ?yv] ! k = Yi s ! k + dt cfg * Dydt s ! k \<and>
               p[?k := ?yv * ?ptv] ! k = (Yi s ! k + dt cfg * Dydt s ! k) *
                       (Pt s ! (k div Ncomp cfg) + dt cfg * Dpdt s ! (k div Ncomp cfg))"
      using lo k dv by (auto simp: nth_list_update less_Suc_eq)
    show "\<forall>k\<ge>Suc ?k. q[?k := ?qv] ! k = Qnew s ! k \<and> y[?k := ?yv] ! k = Yinew s ! k"
      using hi by (auto simp: nth_list_update)
  qed (use len pt in simp_all)
qed


lemma rk1_node_done:
  assumes inv: "rk1_done cfg s i (i * Ncomp cfg) t"
    and i: "i \<le> Ngrid cfg" and sz: "sized cfg s"
  shows "rk1_done cfg s (Suc i) (Suc i * Ncomp cfg) (rk1_node cfg i t)"
proof -
  let ?n = "i * Ncomp cfg"
  from inv obtain pt q y p where
    t: "t = s\<lparr>Ptnew := pt, Qnew := q, Yinew := y, Pnew := p\<rparr>" and
    len: "length pt = length (Ptnew s)" "length q = length (Qnew s)"
         "length y = length (Yinew s)" "length p = length (Pnew s)" and
    pt: "\<forall>i'<i. pt ! i' = Pt s ! i' + dt cfg * Dpdt s ! i'"
        "\<forall>i'\<ge>i. pt ! i' = Ptnew s ! i'" and
    lo: "\<forall>k<?n. q ! k = Q s ! k + dt cfg * Dqdt s ! k \<and>
               y ! k = Yi s ! k + dt cfg * Dydt s ! k \<and>
               p ! k = (Yi s ! k + dt cfg * Dydt s ! k) *
                       (Pt s ! (k div Ncomp cfg) + dt cfg * Dpdt s ! (k div Ncomp cfg))" and
    hi: "\<forall>k\<ge>?n. q ! k = Qnew s ! k \<and> y ! k = Yinew s ! k"
    unfolding rk1_done_def by blast
  let ?ptv = "Pt s ! i + dt cfg * Dpdt s ! i"
  let ?t1 = "t\<lparr>Ptnew := (Ptnew t)[i := Pt t ! i + dt cfg * Dpdt t ! i]\<rparr>"
  have ilen: "i < length pt" using i sz len by (simp add: sized_def)
  have t1: "?t1 = s\<lparr>Ptnew := pt[i := ?ptv], Qnew := q, Yinew := y, Pnew := p\<rparr>"
    using pt(2) unfolding t by simp
  have start: "rk1_done cfg s (Suc i) (i * Ncomp cfg + 0) ?t1"
    unfolding t1 rk1_done_def
  proof (intro exI conjI)
    show "s\<lparr>Ptnew := pt[i := ?ptv], Qnew := q, Yinew := y, Pnew := p\<rparr>
        = s\<lparr>Ptnew := pt[i := ?ptv], Qnew := q, Yinew := y, Pnew := p\<rparr>" ..
    show "\<forall>i'<Suc i. pt[i := ?ptv] ! i' =
        Pt s ! i' + dt cfg * Dpdt s ! i'"
      using pt(1) ilen by (auto simp: nth_list_update less_Suc_eq)
    show "\<forall>i'\<ge>Suc i. pt[i := ?ptv] ! i' = Ptnew s ! i'"
      using pt(2) by (auto simp: nth_list_update)
  qed (use len lo hi in simp_all)
  have "rk1_done cfg s (Suc i) (i * Ncomp cfg + Ncomp cfg)
          (fold (rk1_cell cfg i) [0..<Ncomp cfg] ?t1)"
  proof (rule fold_upt_invariant
      [where I = "\<lambda>j u. rk1_done cfg s (Suc i) (i * Ncomp cfg + j) u"])
    show "rk1_done cfg s (Suc i) (i * Ncomp cfg + 0) ?t1" by (rule start)
  next
    fix j u
    assume "j < Ncomp cfg" and "rk1_done cfg s (Suc i) (i * Ncomp cfg + j) u"
    from rk1_cell_done [OF this(2,1) i sz]
    show "rk1_done cfg s (Suc i) (i * Ncomp cfg + Suc j) (rk1_cell cfg i j u)"
      by simp
  qed simp
  then show ?thesis by (simp add: rk1_node_def add.commute)
qed

lemma rk1_update_done:
  assumes sz: "sized cfg s"
  shows "rk1_done cfg s (Ngrid cfg + 1) ((Ngrid cfg + 1) * Ncomp cfg)
           (rk1_update cfg s)"
  unfolding rk1_update_def
proof (rule fold_upt_invariant [where I = "\<lambda>n u. rk1_done cfg s n (n * Ncomp cfg) u"])
  show "rk1_done cfg s 0 (0 * Ncomp cfg) s" by (simp add: rk1_done_start)
next
  fix i u
  assume "i < Ngrid cfg + 1" and "rk1_done cfg s i (i * Ncomp cfg) u"
  then show "rk1_done cfg s (Suc i) (Suc i * Ncomp cfg) (rk1_node cfg i u)"
    using sz by (intro rk1_node_done) simp_all
qed simp

lemma ssp_done_start: "ssp_done cfg a b c s 0 0 s"
  unfolding ssp_done_def
  by (rule exI [of _ "Ptnew s"], rule exI [of _ "Qnew s"], rule exI [of _ "Yinew s"],
      rule exI [of _ "Pnew s"]) simp

lemma ssp_cell_done:
  assumes inv: "ssp_done cfg a b c s (Suc i) (i * Ncomp cfg + j) t"
    and j: "j < Ncomp cfg" and i: "i \<le> Ngrid cfg" and sz: "sized cfg s"
  shows "ssp_done cfg a b c s (Suc i) (Suc (i * Ncomp cfg + j)) (ssp_cell cfg a b c i j t)"
proof -
  let ?k = "i * Ncomp cfg + j"
  from inv obtain pt q y p where
    t: "t = s\<lparr>Ptnew := pt, Qnew := q, Yinew := y, Pnew := p\<rparr>" and
    len: "length pt = length (Ptnew s)" "length q = length (Qnew s)"
         "length y = length (Yinew s)" "length p = length (Pnew s)" and
    pt: "\<forall>i'<Suc i. pt ! i' = a * Pt s ! i' + b * Ptnew s ! i' + c * dt cfg * Dpdtnew s ! i'"
        "\<forall>i'\<ge>Suc i. pt ! i' = Ptnew s ! i'" and
    lo: "\<forall>k<?k. q ! k = a * Q s ! k + b * Qnew s ! k + c * dt cfg * Dqdtnew s ! k \<and>
               y ! k = a * Yi s ! k + b * Yinew s ! k + c * dt cfg * Dydtnew s ! k \<and>
               p ! k = (a * Yi s ! k + b * Yinew s ! k + c * dt cfg * Dydtnew s ! k) *
                       (a * Pt s ! (k div Ncomp cfg) + b * Ptnew s ! (k div Ncomp cfg)
                          + c * dt cfg * Dpdtnew s ! (k div Ncomp cfg))" and
    hi: "\<forall>k\<ge>?k. q ! k = Qnew s ! k \<and> y ! k = Yinew s ! k"
    unfolding ssp_done_def by blast
  have k: "?k < length q" "?k < length y" "?k < length p"
    using cell_in_range [OF i j] sz len by (simp_all add: sized_def)
  have dv: "?k div Ncomp cfg = i" using j by simp
  let ?qv = "a * Q s ! ?k + b * Qnew s ! ?k + c * dt cfg * Dqdtnew s ! ?k"
  let ?yv = "a * Yi s ! ?k + b * Yinew s ! ?k + c * dt cfg * Dydtnew s ! ?k"
  let ?ptv = "a * Pt s ! i + b * Ptnew s ! i + c * dt cfg * Dpdtnew s ! i"
  have cell: "ssp_cell cfg a b c i j t =
      s\<lparr>Ptnew := pt, Qnew := q[?k := ?qv], Yinew := y[?k := ?yv], Pnew := p[?k := ?yv * ?ptv]\<rparr>"
    using hi pt(1) k unfolding ssp_cell_def Let_def t by simp
  show ?thesis
    unfolding ssp_done_def cell
  proof (intro exI conjI)
    show "s\<lparr>Ptnew := pt, Qnew := q[?k := ?qv], Yinew := y[?k := ?yv], Pnew := p[?k := ?yv * ?ptv]\<rparr>
        = s\<lparr>Ptnew := pt, Qnew := q[?k := ?qv], Yinew := y[?k := ?yv], Pnew := p[?k := ?yv * ?ptv]\<rparr>" ..
    show "\<forall>k<Suc ?k. q[?k := ?qv] ! k = a * Q s ! k + b * Qnew s ! k + c * dt cfg * Dqdtnew s ! k \<and>
               y[?k := ?yv] ! k = a * Yi s ! k + b * Yinew s ! k + c * dt cfg * Dydtnew s ! k \<and>
               p[?k := ?yv * ?ptv] ! k = (a * Yi s ! k + b * Yinew s ! k + c * dt cfg * Dydtnew s ! k) *
                       (a * Pt s ! (k div Ncomp cfg) + b * Ptnew s ! (k div Ncomp cfg)
                          + c * dt cfg * Dpdtnew s ! (k div Ncomp cfg))"
      using lo k dv by (auto simp: nth_list_update less_Suc_eq)
    show "\<forall>k\<ge>Suc ?k. q[?k := ?qv] ! k = Qnew s ! k \<and> y[?k := ?yv] ! k = Yinew s ! k"
      using hi by (auto simp: nth_list_update)
  qed (use len pt in simp_all)
qed


lemma ssp_node_done:
  assumes inv: "ssp_done cfg a b c s i (i * Ncomp cfg) t"
    and i: "i \<le> Ngrid cfg" and sz: "sized cfg s"
  shows "ssp_done cfg a b c s (Suc i) (Suc i * Ncomp cfg) (ssp_node cfg a b c i t)"
proof -
  let ?n = "i * Ncomp cfg"
  from inv obtain pt q y p where
    t: "t = s\<lparr>Ptnew := pt, Qnew := q, Yinew := y, Pnew := p\<rparr>" and
    len: "length pt = length (Ptnew s)" "length q = length (Qnew s)"
         "length y = length (Yinew s)" "length p = length (Pnew s)" and
    pt: "\<forall>i'<i. pt ! i' = a * Pt s ! i' + b * Ptnew s ! i' + c * dt cfg * Dpdtnew s ! i'"
        "\<forall>i'\<ge>i. pt ! i' = Ptnew s ! i'" and
    lo: "\<forall>k<?n. q ! k = a * Q s ! k + b * Qnew s ! k + c * dt cfg * Dqdtnew s ! k \<and>
               y ! k = a * Yi s ! k + b * Yinew s ! k + c * dt cfg * Dydtnew s ! k \<and>
               p ! k = (a * Yi s ! k + b * Yinew s ! k + c * dt cfg * Dydtnew s ! k) *
                       (a * Pt s ! (k div Ncomp cfg) + b * Ptnew s ! (k div Ncomp cfg)
                          + c * dt cfg * Dpdtnew s ! (k div Ncomp cfg))" and
    hi: "\<forall>k\<ge>?n. q ! k = Qnew s ! k \<and> y ! k = Yinew s ! k"
    unfolding ssp_done_def by blast
  let ?ptv = "a * Pt s ! i + b * Ptnew s ! i + c * dt cfg * Dpdtnew s ! i"
  let ?t1 = "t\<lparr>Ptnew := (Ptnew t)[i := a * Pt t ! i + b * Ptnew t ! i + c * dt cfg * Dpdtnew t ! i]\<rparr>"
  have ilen: "i < length pt" using i sz len by (simp add: sized_def)
  have t1: "?t1 = s\<lparr>Ptnew := pt[i := ?ptv], Qnew := q, Yinew := y, Pnew := p\<rparr>"
    using pt(2) unfolding t by simp
  have start: "ssp_done cfg a b c s (Suc i) (i * Ncomp cfg + 0) ?t1"
    unfolding t1 ssp_done_def
  proof (intro exI conjI)
    show "s\<lparr>Ptnew := pt[i := ?ptv], Qnew := q, Yinew := y, Pnew := p\<rparr>
        = s\<lparr>Ptnew := pt[i := ?ptv], Qnew := q, Yinew := y, Pnew := p\<rparr>" ..
    show "\<forall>i'<Suc i. pt[i := ?ptv] ! i' =
        a * Pt s ! i' + b * Ptnew s ! i' + c * dt cfg * Dpdtnew s ! i'"
      using pt(1) ilen by (auto simp: nth_list_update less_Suc_eq)
    show "\<forall>i'\<ge>Suc i. pt[i := ?ptv] ! i' = Ptnew s ! i'"
      using pt(2) by (auto simp: nth_list_update)
  qed (use len lo hi in simp_all)
  have "ssp_done cfg a b c s (Suc i) (i * Ncomp cfg + Ncomp cfg)
          (fold (ssp_cell cfg a b c i) [0..<Ncomp cfg] ?t1)"
  proof (rule fold_upt_invariant
      [where I = "\<lambda>j u. ssp_done cfg a b c s (Suc i) (i * Ncomp cfg + j) u"])
    show "ssp_done cfg a b c s (Suc i) (i * Ncomp cfg + 0) ?t1" by (rule start)
  next
    fix j u
    assume "j < Ncomp cfg" and "ssp_done cfg a b c s (Suc i) (i * Ncomp cfg + j) u"
    from ssp_cell_done [OF this(2,1) i sz]
    show "ssp_done cfg a b c s (Suc i) (i * Ncomp cfg + Suc j) (ssp_cell cfg a b c i j u)"
      by simp
  qed simp
  then show ?thesis by (simp add: ssp_node_def add.commute)
qed

lemma ssp_update_done:
  assumes sz: "sized cfg s"
  shows "ssp_done cfg a b c s (Ngrid cfg + 1) ((Ngrid cfg + 1) * Ncomp cfg)
           (ssp_update cfg a b c s)"
  unfolding ssp_update_def
proof (rule fold_upt_invariant [where I = "\<lambda>n u. ssp_done cfg a b c s n (n * Ncomp cfg) u"])
  show "ssp_done cfg a b c s 0 (0 * Ncomp cfg) s" by (simp add: ssp_done_start)
next
  fix i u
  assume "i < Ngrid cfg + 1" and "ssp_done cfg a b c s i (i * Ncomp cfg) u"
  then show "ssp_done cfg a b c s (Suc i) (Suc i * Ncomp cfg) (ssp_node cfg a b c i u)"
    using sz by (intro ssp_node_done) simp_all
qed simp


section \<open>The stages of computeStep\<close>

lemma derivatives_stage1_effect:
  assumes "derivatives_stage1 pol cfg s = Inr d"
  shows "\<exists>dq dp dy. d = s\<lparr>Dqdt := dq, Dpdt := dp, Dydt := dy\<rparr>
           \<and> computeFirstDerivatives pol cfg (prefactor s) (Dqdt s, Dpdt s, Dydt s)
                 (Qeq s) (Q s) (V s) (P s) (Yi s) = Inr (dq, dp, dy)
           \<and> length dq = length (Dqdt s) \<and> length dp = length (Dpdt s)
           \<and> length dy = length (Dydt s)"
proof -
  from assms obtain dq dp dy where
    run: "computeFirstDerivatives pol cfg (prefactor s) (Dqdt s, Dpdt s, Dydt s)
            (Qeq s) (Q s) (V s) (P s) (Yi s) = Inr (dq, dp, dy)"
    and d: "d = s\<lparr>Dqdt := dq, Dpdt := dp, Dydt := dy\<rparr>"
    unfolding derivatives_stage1_def by (auto simp: bindE_Inr_iff)
  from computeFirstDerivatives_lens [OF run] have
    "length dq = length (Dqdt s)" "length dp = length (Dpdt s)" "length dy = length (Dydt s)"
    by (simp_all add: lens_def)
  with run d show ?thesis by blast
qed

lemma derivatives_new_effect:
  assumes "derivatives_new pol cfg s = Inr d"
  shows "\<exists>dq dp dy. d = s\<lparr>Dqdtnew := dq, Dpdtnew := dp, Dydtnew := dy\<rparr>
           \<and> computeFirstDerivatives pol cfg (prefactor s) (Dqdtnew s, Dpdtnew s, Dydtnew s)
                 (Qeqnew s) (Qnew s) (Vnew s) (Ptnew s) (Yinew s) = Inr (dq, dp, dy)
           \<and> length dq = length (Dqdtnew s) \<and> length dp = length (Dpdtnew s)
           \<and> length dy = length (Dydtnew s)"
proof -
  from assms obtain dq dp dy where
    run: "computeFirstDerivatives pol cfg (prefactor s) (Dqdtnew s, Dpdtnew s, Dydtnew s)
            (Qeqnew s) (Qnew s) (Vnew s) (Ptnew s) (Yinew s) = Inr (dq, dp, dy)"
    and d: "d = s\<lparr>Dqdtnew := dq, Dpdtnew := dp, Dydtnew := dy\<rparr>"
    unfolding derivatives_new_def by (auto simp: bindE_Inr_iff)
  from computeFirstDerivatives_lens [OF run] have
    "length dq = length (Dqdtnew s)" "length dp = length (Dpdtnew s)"
    "length dy = length (Dydtnew s)"
    by (simp_all add: lens_def)
  with run d show ?thesis by blast
qed

lemma oracle_frame_refl: "oracle_frame s s"
  unfolding oracle_frame_def
  by (rule exI [of _ "iastPerformance s"], rule exI [of _ "Xi s"], rule exI [of _ "Ni s"],
      rule exI [of _ "cachedP0 s"], rule exI [of _ "cachedPsi s"],
      rule exI [of _ "Qeqnew s"]) simp

lemma predictMixture_at_Inr:
  assumes "predictMixture_at mix cfg i pt s = Inr t"
  shows "\<exists>out.
      mix (Yi_i cfg (Yi s) i) pt
        (block (cachedP0 s) (i * Ncomp cfg * maxIsothermTerms cfg)
           (Ncomp cfg * maxIsothermTerms cfg))
        (block (cachedPsi s) (i * maxIsothermTerms cfg) (maxIsothermTerms cfg)) = Some out \<and>
      t = s\<lparr>iastPerformance := pair_add (iastPerformance s) (out_perf out),
            Xi := out_Xi out, Ni := out_Ni out,
            cachedP0 := put_block (cachedP0 s) (i * Ncomp cfg * maxIsothermTerms cfg) (out_P0 out),
            cachedPsi := put_block (cachedPsi s) (i * maxIsothermTerms cfg) (out_Psi out)\<rparr>"
  using assms unfolding predictMixture_at_def by (auto split: option.splits)

lemma predictMixture_at_effect:
  assumes "predictMixture_at mix cfg i pt s = Inr t"
  shows "\<exists>perf xi ni c1 c2.
        t = s\<lparr>iastPerformance := perf, Xi := xi, Ni := ni, cachedP0 := c1, cachedPsi := c2\<rparr>"
  using predictMixture_at_Inr [OF assms] by blast

lemma oracle_frame_Qeqnew:
  assumes "oracle_frame s u"
  shows "oracle_frame s (u\<lparr>Qeqnew := (Qeqnew u)[k := x]\<rparr>)"
proof -
  from assms obtain perf xi ni c1 c2 qe where
    u: "u = s\<lparr>iastPerformance := perf, Xi := xi, Ni := ni, Qeqnew := qe,
              cachedP0 := c1, cachedPsi := c2\<rparr>" and len: "length qe = length (Qeqnew s)"
    unfolding oracle_frame_def by blast
  have "u\<lparr>Qeqnew := (Qeqnew u)[k := x]\<rparr> =
      s\<lparr>iastPerformance := perf, Xi := xi, Ni := ni, Qeqnew := qe[k := x],
        cachedP0 := c1, cachedPsi := c2\<rparr>"
    by (simp add: u)
  moreover have "length (qe[k := x]) = length (Qeqnew s)" using len by simp
  ultimately show ?thesis unfolding oracle_frame_def by blast
qed

lemma cel_node_frame:
  assumes "cel_node mix cfg i a = Inr b" and "oracle_frame s a"
  shows "oracle_frame s b"
proof -
  from assms(1) obtain a1 where
    a1: "predictMixture_at mix cfg i (Pt a ! i) a = Inr a1" and
    b: "b = fold (\<lambda>j u. u\<lparr>Qeqnew := (Qeqnew u)[i * Ncomp cfg + j := Ni u ! j]\<rparr>)
             [0..<Ncomp cfg] a1"
    unfolding cel_node_def by (auto simp: bindE_Inr_iff)
  from assms(2) obtain perf xi ni c1 c2 qe where
    a: "a = s\<lparr>iastPerformance := perf, Xi := xi, Ni := ni, Qeqnew := qe,
              cachedP0 := c1, cachedPsi := c2\<rparr>" and len: "length qe = length (Qeqnew s)"
    unfolding oracle_frame_def by blast
  from predictMixture_at_effect [OF a1] obtain perf' xi' ni' c1' c2' where
    "a1 = a\<lparr>iastPerformance := perf', Xi := xi', Ni := ni', cachedP0 := c1', cachedPsi := c2'\<rparr>"
    by blast
  then have "a1 = s\<lparr>iastPerformance := perf', Xi := xi', Ni := ni', Qeqnew := qe,
              cachedP0 := c1', cachedPsi := c2'\<rparr>"
    by (simp add: a)
  with len have "oracle_frame s a1" unfolding oracle_frame_def by blast
  then show ?thesis
    unfolding b by (rule fold_invariant) (rule oracle_frame_Qeqnew)
qed

lemma computeEquilibriumLoadings_effect:
  assumes "computeEquilibriumLoadings mix cfg s = Inr t"
  shows "oracle_frame s t \<and> \<not> Pt s ! 0 + dptdx cfg * L cfg < 0"
proof -
  from assms obtain t1 where
    loop: "foldE (cel_node mix cfg) [0..<Ngrid cfg + 1] s = Inr t1" and
    chk: "(if Pt t1 ! 0 + dptdx cfg * L cfg < 0 then Inl PressureGradientTooLarge else Inr t1)
            = Inr t"
    unfolding computeEquilibriumLoadings_def by (auto simp: bindE_Inr_iff)
  have fr: "oracle_frame s t1"
    using loop oracle_frame_refl by (rule foldE_invariant) (rule cel_node_frame)
  then have "Pt t1 = Pt s" unfolding oracle_frame_def by auto
  with chk fr show ?thesis by (auto split: if_splits)
qed

lemma computeVelocity_effect:
  "\<exists>x. computeVelocity cfg T_g s = s\<lparr>Vnew := x\<rparr> \<and> length x = length (Vnew s)"
proof -
  let ?f = "\<lambda>i a. a\<lparr>Vnew := (Vnew a)[i := explicit_velocity cfg T_g (Pt a) i]\<rparr>"
  let ?s1 = "s\<lparr>Vnew := (Vnew s)[0 := v_in cfg]\<rparr>"
  have "\<exists>x. fold ?f [1..<Ngrid cfg] ?s1 = s\<lparr>Vnew := x\<rparr> \<and> length x = length (Vnew s)"
  proof (rule fold_invariant
      [where I = "\<lambda>a. \<exists>x. a = s\<lparr>Vnew := x\<rparr> \<and> length x = length (Vnew s)"])
    show "\<exists>x. ?s1 = s\<lparr>Vnew := x\<rparr> \<and> length x = length (Vnew s)" by force
  next
    fix i a assume "\<exists>x. a = s\<lparr>Vnew := x\<rparr> \<and> length x = length (Vnew s)"
    then obtain x where "a = s\<lparr>Vnew := x\<rparr>" "length x = length (Vnew s)" by blast
    then show "\<exists>x. ?f i a = s\<lparr>Vnew := x\<rparr> \<and> length x = length (Vnew s)" by force
  qed
  then obtain x where
    x: "fold ?f [1..<Ngrid cfg] ?s1 = s\<lparr>Vnew := x\<rparr>" "length x = length (Vnew s)" by blast
  show ?thesis
    unfolding computeVelocity_def Let_def x using x(2) by force
qed


lemma computeVelocity_values:
  assumes len: "length (Vnew s) = Ngrid cfg + 1" and g: "1 \<le> Ngrid cfg"
  shows "Vnew (computeVelocity cfg T_g s) ! 0 = v_in cfg"
    and "\<forall>i. 1 \<le> i \<and> i \<le> Ngrid cfg \<longrightarrow>
           Vnew (computeVelocity cfg T_g s) ! i = explicit_velocity cfg T_g (Pt s) i"
    and "Pt (computeVelocity cfg T_g s) = Pt s"
proof -
  let ?f = "\<lambda>i a. a\<lparr>Vnew := (Vnew a)[i := explicit_velocity cfg T_g (Pt a) i]\<rparr>"
  let ?s1 = "s\<lparr>Vnew := (Vnew s)[0 := v_in cfg]\<rparr>"
  let ?I = "\<lambda>n a. \<exists>x. a = s\<lparr>Vnew := x\<rparr> \<and> length x = Ngrid cfg + 1 \<and> x ! 0 = v_in cfg
              \<and> (\<forall>i. 1 \<le> i \<and> i < n \<longrightarrow> x ! i = explicit_velocity cfg T_g (Pt s) i)"
  have "?I (Ngrid cfg) (fold ?f [1..<Ngrid cfg] ?s1)"
  proof (rule fold_upt_invariant [where I = ?I])
    show "?I 1 ?s1" using len by force
  next
    fix k a
    assume k: "1 \<le> k" "k < Ngrid cfg" and "?I k a"
    then obtain x where a: "a = s\<lparr>Vnew := x\<rparr>" and x: "length x = Ngrid cfg + 1"
      "x ! 0 = v_in cfg" "\<forall>i. 1 \<le> i \<and> i < k \<longrightarrow> x ! i = explicit_velocity cfg T_g (Pt s) i"
      by blast
    have "?f k a = s\<lparr>Vnew := x[k := explicit_velocity cfg T_g (Pt s) k]\<rparr>"
      by (simp add: a)
    moreover have "length (x[k := explicit_velocity cfg T_g (Pt s) k]) = Ngrid cfg + 1"
      using x(1) by simp
    moreover have "x[k := explicit_velocity cfg T_g (Pt s) k] ! 0 = v_in cfg"
      using x(2) k by simp
    moreover have "\<forall>i. 1 \<le> i \<and> i < Suc k \<longrightarrow>
        x[k := explicit_velocity cfg T_g (Pt s) k] ! i = explicit_velocity cfg T_g (Pt s) i"
      using x(1,3) k by (auto simp: nth_list_update less_Suc_eq)
    ultimately show "?I (Suc k) (?f k a)" by blast
  qed (use g in simp)
  then obtain x where s2: "fold ?f [1..<Ngrid cfg] ?s1 = s\<lparr>Vnew := x\<rparr>" and
    x: "length x = Ngrid cfg + 1" "x ! 0 = v_in cfg"
    "\<forall>i. 1 \<le> i \<and> i < Ngrid cfg \<longrightarrow> x ! i = explicit_velocity cfg T_g (Pt s) i"
    by blast
  have r: "computeVelocity cfg T_g s =
      s\<lparr>Vnew := x[Ngrid cfg := explicit_velocity cfg T_g (Pt s) (Ngrid cfg)]\<rparr>"
    unfolding computeVelocity_def Let_def s2 by simp
  show "Vnew (computeVelocity cfg T_g s) ! 0 = v_in cfg"
    using x g by (simp add: r)
  show "\<forall>i. 1 \<le> i \<and> i \<le> Ngrid cfg \<longrightarrow>
           Vnew (computeVelocity cfg T_g s) ! i = explicit_velocity cfg T_g (Pt s) i"
    using x by (auto simp: r nth_list_update le_less)
  show "Pt (computeVelocity cfg T_g s) = Pt s" by (simp add: r)
qed

lemma sized_update_new:
  assumes "sized cfg s" "length pt = length (Ptnew s)" "length q = length (Qnew s)"
    "length y = length (Yinew s)" "length p = length (Pnew s)"
  shows "sized cfg (s\<lparr>Ptnew := pt, Qnew := q, Yinew := y, Pnew := p\<rparr>)"
  using assms by (simp add: sized_def)

lemma stage1_effect:
  assumes run: "stage1 pol mix cfg s = Inr s1" and sz: "sized cfg s"
  shows "sized cfg s1" and "committed_same s s1"
    and "computeFirstDerivatives pol cfg (prefactor s) (Dqdt s, Dpdt s, Dydt s)
           (Qeq s) (Q s) (V s) (P s) (Yi s) = Inr (Dqdt s1, Dpdt s1, Dydt s1)"
    and "\<forall>i\<le>Ngrid cfg. Ptnew s1 ! i = Pt s ! i + dt cfg * Dpdt s1 ! i"
    and "\<forall>k<(Ngrid cfg + 1) * Ncomp cfg.
           Qnew s1 ! k = Q s ! k + dt cfg * Dqdt s1 ! k \<and>
           Yinew s1 ! k = Yi s ! k + dt cfg * Dydt s1 ! k \<and>
           Pnew s1 ! k = Yinew s1 ! k * Ptnew s1 ! (k div Ncomp cfg)"
    and "\<not> Pt s ! 0 + dptdx cfg * L cfg < 0"
    and "\<exists>u e. computeEquilibriumLoadings mix cfg u = Inr e \<and> Yi u = Yi s \<and> Pt u = Pt s
           \<and> Qeqnew s1 = Qeqnew e \<and> Pt e = Pt s \<and> s1 = computeVelocity cfg (T cfg) e"
proof -
  from run obtain d e where
    d: "derivatives_stage1 pol cfg s = Inr d" and
    e: "computeEquilibriumLoadings mix cfg (rk1_update cfg d) = Inr e" and
    s1: "s1 = computeVelocity cfg (T cfg) e"
    unfolding stage1_def by (auto simp: bindE_Inr_iff)
  from derivatives_stage1_effect [OF d] obtain dq dp dy where
    dd: "d = s\<lparr>Dqdt := dq, Dpdt := dp, Dydt := dy\<rparr>" and
    cfd: "computeFirstDerivatives pol cfg (prefactor s) (Dqdt s, Dpdt s, Dydt s)
           (Qeq s) (Q s) (V s) (P s) (Yi s) = Inr (dq, dp, dy)" and
    dl: "length dq = length (Dqdt s)" "length dp = length (Dpdt s)"
        "length dy = length (Dydt s)"
    by blast
  have szd: "sized cfg d" using sz dl by (simp add: dd sized_def)
  from rk1_update_done [OF szd] obtain pt q y p where
    u: "rk1_update cfg d = d\<lparr>Ptnew := pt, Qnew := q, Yinew := y, Pnew := p\<rparr>" and
    ul: "length pt = length (Ptnew d)" "length q = length (Qnew d)"
        "length y = length (Yinew d)" "length p = length (Pnew d)" and
    upt: "\<forall>i<Ngrid cfg + 1. pt ! i = Pt d ! i + dt cfg * Dpdt d ! i" and
    uc: "\<forall>k<(Ngrid cfg + 1) * Ncomp cfg.
           q ! k = Q d ! k + dt cfg * Dqdt d ! k \<and>
           y ! k = Yi d ! k + dt cfg * Dydt d ! k \<and>
           p ! k = (Yi d ! k + dt cfg * Dydt d ! k) *
                   (Pt d ! (k div Ncomp cfg) + dt cfg * Dpdt d ! (k div Ncomp cfg))"
    unfolding rk1_done_def by blast
  from computeEquilibriumLoadings_effect [OF e] obtain perf xi ni c1 c2 qe where
    ee: "e = (rk1_update cfg d)\<lparr>iastPerformance := perf, Xi := xi, Ni := ni, Qeqnew := qe,
               cachedP0 := c1, cachedPsi := c2\<rparr>" and
    ql: "length qe = length (Qeqnew (rk1_update cfg d))" and
    chk: "\<not> Pt (rk1_update cfg d) ! 0 + dptdx cfg * L cfg < 0"
    unfolding oracle_frame_def by blast
  from computeVelocity_effect [of cfg "T cfg" e] obtain x where
    v: "computeVelocity cfg (T cfg) e = e\<lparr>Vnew := x\<rparr>" and xl: "length x = length (Vnew e)"
    by blast
  have u': "rk1_update cfg d =
      s\<lparr>Dqdt := dq, Dpdt := dp, Dydt := dy, Ptnew := pt, Qnew := q, Yinew := y, Pnew := p\<rparr>"
    unfolding u unfolding dd by simp
  have e': "e = s\<lparr>Dqdt := dq, Dpdt := dp, Dydt := dy, Ptnew := pt, Qnew := q, Yinew := y,
      Pnew := p, iastPerformance := perf, Xi := xi, Ni := ni, Qeqnew := qe,
      cachedP0 := c1, cachedPsi := c2\<rparr>"
    unfolding ee unfolding u' by simp
  have s1': "s1 = s\<lparr>Dqdt := dq, Dpdt := dp, Dydt := dy, Ptnew := pt, Qnew := q, Yinew := y,
      Pnew := p, iastPerformance := perf, Xi := xi, Ni := ni, Qeqnew := qe,
      cachedP0 := c1, cachedPsi := c2, Vnew := x\<rparr>"
    unfolding s1 unfolding v unfolding e' by simp
  have ul': "length pt = length (Ptnew s)" "length q = length (Qnew s)"
    "length y = length (Yinew s)" "length p = length (Pnew s)"
    using ul by (simp_all add: dd)
  have ql': "length qe = length (Qeqnew s)" using ql unfolding u' by simp
  have xl': "length x = length (Vnew s)" using xl unfolding e' by simp
  show "sized cfg s1"
    using sz dl ul' ql' xl' by (simp add: s1' sized_def)
  show "committed_same s s1" by (simp add: s1' committed_same_def)
  show "computeFirstDerivatives pol cfg (prefactor s) (Dqdt s, Dpdt s, Dydt s)
           (Qeq s) (Q s) (V s) (P s) (Yi s) = Inr (Dqdt s1, Dpdt s1, Dydt s1)"
    using cfd by (simp add: s1')
  show "\<forall>i\<le>Ngrid cfg. Ptnew s1 ! i = Pt s ! i + dt cfg * Dpdt s1 ! i"
    using upt by (simp add: s1' dd)
  show "\<forall>k<(Ngrid cfg + 1) * Ncomp cfg.
           Qnew s1 ! k = Q s ! k + dt cfg * Dqdt s1 ! k \<and>
           Yinew s1 ! k = Yi s ! k + dt cfg * Dydt s1 ! k \<and>
           Pnew s1 ! k = Yinew s1 ! k * Ptnew s1 ! (k div Ncomp cfg)"
  proof (intro allI impI)
    fix k assume k: "k < (Ngrid cfg + 1) * Ncomp cfg"
    then have "k div Ncomp cfg < Ngrid cfg + 1" by (rule less_mult_imp_div_less)
    with upt have "pt ! (k div Ncomp cfg) =
        Pt d ! (k div Ncomp cfg) + dt cfg * Dpdt d ! (k div Ncomp cfg)" by blast
    with uc k show "Qnew s1 ! k = Q s ! k + dt cfg * Dqdt s1 ! k \<and>
           Yinew s1 ! k = Yi s ! k + dt cfg * Dydt s1 ! k \<and>
           Pnew s1 ! k = Yinew s1 ! k * Ptnew s1 ! (k div Ncomp cfg)"
      by (simp add: s1' dd)
  qed
  show "\<not> Pt s ! 0 + dptdx cfg * L cfg < 0"
    using chk unfolding u' by simp
  show "\<exists>u e. computeEquilibriumLoadings mix cfg u = Inr e \<and> Yi u = Yi s \<and> Pt u = Pt s
           \<and> Qeqnew s1 = Qeqnew e \<and> Pt e = Pt s \<and> s1 = computeVelocity cfg (T cfg) e"
  proof (intro exI conjI)
    show "computeEquilibriumLoadings mix cfg (rk1_update cfg d) = Inr e" by (rule e)
    show "s1 = computeVelocity cfg (T cfg) e" by (rule s1)
    show "Yi (rk1_update cfg d) = Yi s" "Pt (rk1_update cfg d) = Pt s"
      unfolding u' by simp_all
    show "Pt e = Pt s" unfolding e' by simp
    show "Qeqnew s1 = Qeqnew e" unfolding s1' e' by simp
  qed
qed


lemma ssp_stage_effect:
  assumes run: "ssp_stage pol mix cfg a b c s = Inr s2" and sz: "sized cfg s"
  shows "sized cfg s2" and "committed_same s s2"
    and "computeFirstDerivatives pol cfg (prefactor s) (Dqdtnew s, Dpdtnew s, Dydtnew s)
           (Qeqnew s) (Qnew s) (Vnew s) (Ptnew s) (Yinew s)
           = Inr (Dqdtnew s2, Dpdtnew s2, Dydtnew s2)"
    and "\<forall>i\<le>Ngrid cfg.
           Ptnew s2 ! i = a * Pt s ! i + b * Ptnew s ! i + c * dt cfg * Dpdtnew s2 ! i"
    and "\<forall>k<(Ngrid cfg + 1) * Ncomp cfg.
           Qnew s2 ! k = a * Q s ! k + b * Qnew s ! k + c * dt cfg * Dqdtnew s2 ! k \<and>
           Yinew s2 ! k = a * Yi s ! k + b * Yinew s ! k + c * dt cfg * Dydtnew s2 ! k \<and>
           Pnew s2 ! k = Yinew s2 ! k * Ptnew s2 ! (k div Ncomp cfg)"
    and "\<not> Pt s ! 0 + dptdx cfg * L cfg < 0"
    and "\<exists>u e. computeEquilibriumLoadings mix cfg u = Inr e \<and> Yi u = Yi s \<and> Pt u = Pt s
           \<and> Qeqnew s2 = Qeqnew e \<and> Pt e = Pt s \<and> s2 = computeVelocity cfg (T cfg) e"
proof -
  from run obtain d e where
    d: "derivatives_new pol cfg s = Inr d" and
    e: "computeEquilibriumLoadings mix cfg (ssp_update cfg a b c d) = Inr e" and
    s2: "s2 = computeVelocity cfg (T cfg) e"
    unfolding ssp_stage_def by (auto simp: bindE_Inr_iff)
  from derivatives_new_effect [OF d] obtain dq dp dy where
    dd: "d = s\<lparr>Dqdtnew := dq, Dpdtnew := dp, Dydtnew := dy\<rparr>" and
    cfd: "computeFirstDerivatives pol cfg (prefactor s) (Dqdtnew s, Dpdtnew s, Dydtnew s)
           (Qeqnew s) (Qnew s) (Vnew s) (Ptnew s) (Yinew s) = Inr (dq, dp, dy)" and
    dl: "length dq = length (Dqdtnew s)" "length dp = length (Dpdtnew s)"
        "length dy = length (Dydtnew s)"
    by blast
  have szd: "sized cfg d" using sz dl by (simp add: dd sized_def)
  from ssp_update_done [OF szd, of a b c] obtain pt q y p where
    u: "ssp_update cfg a b c d = d\<lparr>Ptnew := pt, Qnew := q, Yinew := y, Pnew := p\<rparr>" and
    ul: "length pt = length (Ptnew d)" "length q = length (Qnew d)"
        "length y = length (Yinew d)" "length p = length (Pnew d)" and
    upt: "\<forall>i<Ngrid cfg + 1.
           pt ! i = a * Pt d ! i + b * Ptnew d ! i + c * dt cfg * Dpdtnew d ! i" and
    uc: "\<forall>k<(Ngrid cfg + 1) * Ncomp cfg.
           q ! k = a * Q d ! k + b * Qnew d ! k + c * dt cfg * Dqdtnew d ! k \<and>
           y ! k = a * Yi d ! k + b * Yinew d ! k + c * dt cfg * Dydtnew d ! k \<and>
           p ! k = (a * Yi d ! k + b * Yinew d ! k + c * dt cfg * Dydtnew d ! k) *
                   (a * Pt d ! (k div Ncomp cfg) + b * Ptnew d ! (k div Ncomp cfg)
                      + c * dt cfg * Dpdtnew d ! (k div Ncomp cfg))"
    unfolding ssp_done_def by blast
  from computeEquilibriumLoadings_effect [OF e] obtain perf xi ni c1 c2 qe where
    ee: "e = (ssp_update cfg a b c d)\<lparr>iastPerformance := perf, Xi := xi, Ni := ni,
               Qeqnew := qe, cachedP0 := c1, cachedPsi := c2\<rparr>" and
    ql: "length qe = length (Qeqnew (ssp_update cfg a b c d))" and
    chk: "\<not> Pt (ssp_update cfg a b c d) ! 0 + dptdx cfg * L cfg < 0"
    unfolding oracle_frame_def by blast
  from computeVelocity_effect [of cfg "T cfg" e] obtain x where
    v: "computeVelocity cfg (T cfg) e = e\<lparr>Vnew := x\<rparr>" and xl: "length x = length (Vnew e)"
    by blast
  have u': "ssp_update cfg a b c d =
      s\<lparr>Dqdtnew := dq, Dpdtnew := dp, Dydtnew := dy, Ptnew := pt, Qnew := q, Yinew := y,
        Pnew := p\<rparr>"
    unfolding u unfolding dd by simp
  have e': "e = s\<lparr>Dqdtnew := dq, Dpdtnew := dp, Dydtnew := dy, Ptnew := pt, Qnew := q,
      Yinew := y, Pnew := p, iastPerformance := perf, Xi := xi, Ni := ni, Qeqnew := qe,
      cachedP0 := c1, cachedPsi := c2\<rparr>"
    unfolding ee unfolding u' by simp
  have s2': "s2 = s\<lparr>Dqdtnew := dq, Dpdtnew := dp, Dydtnew := dy, Ptnew := pt, Qnew := q,
      Yinew := y, Pnew := p, iastPerformance := perf, Xi := xi, Ni := ni, Qeqnew := qe,
      cachedP0 := c1, cachedPsi := c2, Vnew := x\<rparr>"
    unfolding s2 unfolding v unfolding e' by simp
  have ul': "length pt = length (Ptnew s)" "length q = length (Qnew s)"
    "length y = length (Yinew s)" "length p = length (Pnew s)"
    using ul by (simp_all add: dd)
  have ql': "length qe = length (Qeqnew s)" using ql unfolding u' by simp
  have xl': "length x = length (Vnew s)" using xl unfolding e' by simp
  show "sized cfg s2"
    using sz dl ul' ql' xl' by (simp add: s2' sized_def)
  show "committed_same s s2" by (simp add: s2' committed_same_def)
  show "computeFirstDerivatives pol cfg (prefactor s) (Dqdtnew s, Dpdtnew s, Dydtnew s)
           (Qeqnew s) (Qnew s) (Vnew s) (Ptnew s) (Yinew s)
           = Inr (Dqdtnew s2, Dpdtnew s2, Dydtnew s2)"
    using cfd by (simp add: s2')
  show "\<forall>i\<le>Ngrid cfg.
           Ptnew s2 ! i = a * Pt s ! i + b * Ptnew s ! i + c * dt cfg * Dpdtnew s2 ! i"
    using upt by (simp add: s2' dd)
  show "\<forall>k<(Ngrid cfg + 1) * Ncomp cfg.
           Qnew s2 ! k = a * Q s ! k + b * Qnew s ! k + c * dt cfg * Dqdtnew s2 ! k \<and>
           Yinew s2 ! k = a * Yi s ! k + b * Yinew s ! k + c * dt cfg * Dydtnew s2 ! k \<and>
           Pnew s2 ! k = Yinew s2 ! k * Ptnew s2 ! (k div Ncomp cfg)"
  proof (intro allI impI)
    fix k assume k: "k < (Ngrid cfg + 1) * Ncomp cfg"
    then have "k div Ncomp cfg < Ngrid cfg + 1" by (rule less_mult_imp_div_less)
    with upt have "pt ! (k div Ncomp cfg) =
        a * Pt d ! (k div Ncomp cfg) + b * Ptnew d ! (k div Ncomp cfg)
          + c * dt cfg * Dpdtnew d ! (k div Ncomp cfg)" by blast
    with uc k show "Qnew s2 ! k = a * Q s ! k + b * Qnew s ! k + c * dt cfg * Dqdtnew s2 ! k \<and>
           Yinew s2 ! k = a * Yi s ! k + b * Yinew s ! k + c * dt cfg * Dydtnew s2 ! k \<and>
           Pnew s2 ! k = Yinew s2 ! k * Ptnew s2 ! (k div Ncomp cfg)"
      by (simp add: s2' dd)
  qed
  show "\<not> Pt s ! 0 + dptdx cfg * L cfg < 0"
    using chk unfolding u' by simp
  show "\<exists>u e. computeEquilibriumLoadings mix cfg u = Inr e \<and> Yi u = Yi s \<and> Pt u = Pt s
           \<and> Qeqnew s2 = Qeqnew e \<and> Pt e = Pt s \<and> s2 = computeVelocity cfg (T cfg) e"
  proof (intro exI conjI)
    show "computeEquilibriumLoadings mix cfg (ssp_update cfg a b c d) = Inr e" by (rule e)
    show "s2 = computeVelocity cfg (T cfg) e" by (rule s2)
    show "Yi (ssp_update cfg a b c d) = Yi s" "Pt (ssp_update cfg a b c d) = Pt s"
      unfolding u' by simp_all
    show "Pt e = Pt s" unfolding e' by simp
    show "Qeqnew s2 = Qeqnew e" unfolding s2' e' by simp
  qed
qed

lemma committed_same_trans:
  "committed_same s t \<Longrightarrow> committed_same t u \<Longrightarrow> committed_same s u"
  by (simp add: committed_same_def)

lemma std_copy_same_length: "length src = length dst \<Longrightarrow> std_copy src dst = Inr src"
  by (simp add: std_copy_def)

lemma commit_sized:
  assumes "sized cfg s"
  shows "commit s = Inr (s\<lparr>Q := Qnew s, Pt := Ptnew s, P := Pnew s, Qeq := Qeqnew s,
           V := Vnew s, Yi := Yinew s\<rparr>)"
  using assms unfolding commit_def by (simp add: sized_def std_copy_same_length)


lemma autoStepsCheck_effect:
  "\<exists>n b. autoStepsCheck cfg step s = s\<lparr>Nsteps := n, autoSteps := b\<rparr>"
proof -
  have "s = s\<lparr>Nsteps := Nsteps s, autoSteps := autoSteps s\<rparr>" by simp
  moreover have "autoStepsCheck cfg step s = s \<or>
      autoStepsCheck cfg step s = s\<lparr>Nsteps := nat \<lfloor>1.1 * real step\<rfloor>, autoSteps := False\<rparr>"
    by (simp add: autoStepsCheck_def)
  ultimately show ?thesis by metis
qed

lemma autoStepsCheck_sized: "sized cfg s \<Longrightarrow> sized cfg (autoStepsCheck cfg step s)"
  by (simp add: autoStepsCheck_def sized_def)

lemma pulseBoundary_effect:
  assumes len: "Ncomp cfg \<le> length (P s)"
  shows "\<exists>p. pulseBoundary cfg t s = s\<lparr>P := p\<rparr> \<and> length p = length (P s)
           \<and> (\<forall>k\<ge>Ncomp cfg. p ! k = P s ! k)
           \<and> (pulse cfg \<and> tpulse cfg < t \<longrightarrow>
                (\<forall>j<Ncomp cfg. p ! j = (if j = carrierGasComponent cfg then p_total cfg else 0)))
           \<and> (\<not> (pulse cfg \<and> tpulse cfg < t) \<longrightarrow> p = P s)"
proof (cases "pulse cfg \<and> tpulse cfg < t")
  case False
  then have "pulseBoundary cfg t s = s\<lparr>P := P s\<rparr>"
    by (auto simp: pulseBoundary_def)
  with False show ?thesis by (intro exI [of _ "P s"]) auto
next
  case True
  let ?f = "\<lambda>j a. if j = carrierGasComponent cfg
                    then a\<lparr>P := (P a)[0 * Ncomp cfg + j := p_total cfg]\<rparr>
                    else a\<lparr>P := (P a)[0 * Ncomp cfg + j := 0]\<rparr>"
  let ?I = "\<lambda>n a. \<exists>p. a = s\<lparr>P := p\<rparr> \<and> length p = length (P s)
              \<and> (\<forall>k\<ge>n. p ! k = P s ! k)
              \<and> (\<forall>j<n. p ! j = (if j = carrierGasComponent cfg then p_total cfg else 0))"
  have "?I (Ncomp cfg) (fold ?f [0..<Ncomp cfg] s)"
  proof (rule fold_upt_invariant [where I = ?I])
    show "?I 0 s" by (intro exI [of _ "P s"]) simp
  next
    fix k a
    assume k: "k < Ncomp cfg" and "?I k a"
    then obtain p where a: "a = s\<lparr>P := p\<rparr>" and p: "length p = length (P s)"
      "\<forall>k'\<ge>k. p ! k' = P s ! k'"
      "\<forall>j<k. p ! j = (if j = carrierGasComponent cfg then p_total cfg else 0)"
      by blast
    let ?x = "if k = carrierGasComponent cfg then p_total cfg else 0"
    have "?f k a = s\<lparr>P := p[k := ?x]\<rparr>" by (simp add: a)
    moreover have "length (p[k := ?x]) = length (P s)" using p(1) by simp
    moreover have "\<forall>k'\<ge>Suc k. p[k := ?x] ! k' = P s ! k'" using p(2) by simp
    moreover have "\<forall>j<Suc k. p[k := ?x] ! j
        = (if j = carrierGasComponent cfg then p_total cfg else 0)"
      using p(1,3) k len by (auto simp: nth_list_update less_Suc_eq)
    ultimately show "?I (Suc k) (?f k a)" by blast
  qed simp
  moreover have "pulseBoundary cfg t s = fold ?f [0..<Ncomp cfg] s"
    using True by (simp add: pulseBoundary_def)
  ultimately show ?thesis using True by auto
qed

lemma computeStep_Inr:
  assumes run: "computeStep pol mix cfg step s = Inr s'" and sz: "sized cfg s"
  shows "\<exists>s1 s2 s3.
      stage1 pol mix cfg (autoStepsCheck cfg step s) = Inr s1 \<and>
      stage2 pol mix cfg s1 = Inr s2 \<and> stage3 pol mix cfg s2 = Inr s3 \<and>
      sized cfg s1 \<and> sized cfg s2 \<and> sized cfg s3 \<and>
      advance pol mix cfg step s =
        Inr (s3\<lparr>Q := Qnew s3, Pt := Ptnew s3, P := Pnew s3, Qeq := Qeqnew s3,
                 V := Vnew s3, Yi := Yinew s3\<rparr>) \<and>
      s' = pulseBoundary cfg (real step * dt cfg)
             (s3\<lparr>Q := Qnew s3, Pt := Ptnew s3, P := Pnew s3, Qeq := Qeqnew s3,
                 V := Vnew s3, Yi := Yinew s3\<rparr>)"
proof -
  from run obtain s4 where adv: "advance pol mix cfg step s = Inr s4" and
    s': "s' = pulseBoundary cfg (real step * dt cfg) s4"
    unfolding computeStep_def Let_def by (auto simp: bindE_Inr_iff)
  from adv obtain s1 s2 s3 where
    1: "stage1 pol mix cfg (autoStepsCheck cfg step s) = Inr s1" and
    2: "stage2 pol mix cfg s1 = Inr s2" and 3: "stage3 pol mix cfg s2 = Inr s3" and
    4: "commit s3 = Inr s4"
    unfolding advance_def by (auto simp: bindE_Inr_iff)
  have z1: "sized cfg s1" using 1 autoStepsCheck_sized [OF sz] by (rule stage1_effect(1))
  have z2: "sized cfg s2" using 2 z1 unfolding stage2_def by (rule ssp_stage_effect(1))
  have z3: "sized cfg s3" using 3 z2 unfolding stage3_def by (rule ssp_stage_effect(1))
  from 4 commit_sized [OF z3] have
    s4: "s4 = s3\<lparr>Q := Qnew s3, Pt := Ptnew s3, P := Pnew s3, Qeq := Qeqnew s3,
                 V := Vnew s3, Yi := Yinew s3\<rparr>" by simp
  show ?thesis using 1 2 3 z1 z2 z3 adv s' unfolding s4 by blast
qed


text \<open>When the step completes.\<close>

lemma cfd_sizes_stage1:
  assumes "sized cfg s" and "1 \<le> Ncomp cfg"
  shows "cfd_sizes cfg (prefactor s) (Dqdt s, Dpdt s, Dydt s) (Qeq s) (Q s) (V s) (P s) (Yi s)"
proof -
  have "Ngrid cfg + 1 \<le> (Ngrid cfg + 1) * Ncomp cfg"
    using assms(2) by (cases "Ncomp cfg") simp_all
  then show ?thesis using assms(1) by (simp add: cfd_sizes_def sized_def lens_def)
qed

lemma cfd_sizes_new:
  assumes "sized cfg s" and "1 \<le> Ncomp cfg"
  shows "cfd_sizes cfg (prefactor s) (Dqdtnew s, Dpdtnew s, Dydtnew s)
           (Qeqnew s) (Qnew s) (Vnew s) (Ptnew s) (Yinew s)"
proof -
  have "Ngrid cfg + 1 \<le> (Ngrid cfg + 1) * Ncomp cfg"
    using assms(2) by (cases "Ncomp cfg") simp_all
  then show ?thesis using assms(1) by (simp add: cfd_sizes_def sized_def lens_def)
qed

lemma derivatives_stage1_succeeds:
  assumes "sized cfg s" and "1 \<le> Ncomp cfg" and "1 \<le> Ngrid cfg"
    and "pol (V s) (Ngrid cfg + 1) = Some x"
  shows "\<exists>d. derivatives_stage1 pol cfg s = Inr d"
proof -
  from computeFirstDerivatives_succeeds
    [where pol = pol and v = "V s" and x = x, OF cfd_sizes_stage1 [OF assms(1,2)] assms(3,4)]
  obtain d where "computeFirstDerivatives pol cfg (prefactor s) (Dqdt s, Dpdt s, Dydt s)
      (Qeq s) (Q s) (V s) (P s) (Yi s) = Inr d" by blast
  then show ?thesis by (cases d) (simp add: derivatives_stage1_def)
qed

lemma derivatives_new_succeeds:
  assumes "sized cfg s" and "1 \<le> Ncomp cfg" and "1 \<le> Ngrid cfg"
    and "pol (Vnew s) (Ngrid cfg + 1) = Some x"
  shows "\<exists>d. derivatives_new pol cfg s = Inr d"
proof -
  from computeFirstDerivatives_succeeds
    [where pol = pol and v = "Vnew s" and x = x, OF cfd_sizes_new [OF assms(1,2)] assms(3,4)]
  obtain d where "computeFirstDerivatives pol cfg (prefactor s) (Dqdtnew s, Dpdtnew s, Dydtnew s)
      (Qeqnew s) (Qnew s) (Vnew s) (Ptnew s) (Yinew s) = Inr d" by blast
  then show ?thesis by (cases d) (simp add: derivatives_new_def)
qed

lemma cel_node_succeeds:
  assumes "\<And>y pt c1 c2. mix y pt c1 c2 \<noteq> None"
  shows "\<exists>b. cel_node mix cfg i a = Inr b"
proof -
  obtain out where "mix (Yi_i cfg (Yi a) i) (Pt a ! i)
      (block (cachedP0 a) (i * Ncomp cfg * maxIsothermTerms cfg)
         (Ncomp cfg * maxIsothermTerms cfg))
      (block (cachedPsi a) (i * maxIsothermTerms cfg) (maxIsothermTerms cfg)) = Some out"
    using assms by fastforce
  then show ?thesis by (simp add: cel_node_def predictMixture_at_def)
qed

lemma computeEquilibriumLoadings_succeeds:
  assumes mix: "\<And>y pt c1 c2. mix y pt c1 c2 \<noteq> None"
    and chk: "\<not> Pt s ! 0 + dptdx cfg * L cfg < 0"
  shows "\<exists>t. computeEquilibriumLoadings mix cfg s = Inr t"
proof -
  have "\<exists>t. foldE (cel_node mix cfg) [0..<Ngrid cfg + 1] s = Inr t \<and> True"
    by (rule foldE_total [where I = "\<lambda>a. True"]) (use cel_node_succeeds [OF mix] in auto)
  then obtain t where t: "foldE (cel_node mix cfg) [0..<Ngrid cfg + 1] s = Inr t" by blast
  have "oracle_frame s t"
    using t oracle_frame_refl by (rule foldE_invariant) (rule cel_node_frame)
  then have "Pt t = Pt s" unfolding oracle_frame_def by auto
  with chk t show ?thesis by (simp add: computeEquilibriumLoadings_def)
qed

lemma stage1_succeeds:
  assumes sz: "sized cfg s" and n: "1 \<le> Ncomp cfg" and g: "1 \<le> Ngrid cfg"
    and pol: "\<And>v. \<exists>x. pol v (Ngrid cfg + 1) = Some x"
    and mix: "\<And>y pt c1 c2. mix y pt c1 c2 \<noteq> None"
    and chk: "\<not> Pt s ! 0 + dptdx cfg * L cfg < 0"
  shows "\<exists>s1. stage1 pol mix cfg s = Inr s1"
proof -
  from pol obtain x where "pol (V s) (Ngrid cfg + 1) = Some x" by blast
  from derivatives_stage1_succeeds [where pol = pol and x = x, OF sz n g this] obtain d where
    d: "derivatives_stage1 pol cfg s = Inr d" by blast
  from derivatives_stage1_effect [OF d] have "Pt d = Pt s" by auto
  moreover have "sized cfg d" using derivatives_stage1_effect [OF d] sz
    by (auto simp: sized_def)
  ultimately have "Pt (rk1_update cfg d) = Pt s"
    using rk1_update_done [of cfg d] unfolding rk1_done_def by auto
  with chk have "\<not> Pt (rk1_update cfg d) ! 0 + dptdx cfg * L cfg < 0" by simp
  from computeEquilibriumLoadings_succeeds [where mix = mix, OF mix this] d
  show ?thesis by (auto simp: stage1_def)
qed

lemma ssp_stage_succeeds:
  assumes sz: "sized cfg s" and n: "1 \<le> Ncomp cfg" and g: "1 \<le> Ngrid cfg"
    and pol: "\<And>v. \<exists>x. pol v (Ngrid cfg + 1) = Some x"
    and mix: "\<And>y pt c1 c2. mix y pt c1 c2 \<noteq> None"
    and chk: "\<not> Pt s ! 0 + dptdx cfg * L cfg < 0"
  shows "\<exists>s1. ssp_stage pol mix cfg a b c s = Inr s1"
proof -
  from pol obtain x where "pol (Vnew s) (Ngrid cfg + 1) = Some x" by blast
  from derivatives_new_succeeds [where pol = pol and x = x, OF sz n g this] obtain d where
    d: "derivatives_new pol cfg s = Inr d" by blast
  from derivatives_new_effect [OF d] have "Pt d = Pt s" by auto
  moreover have "sized cfg d" using derivatives_new_effect [OF d] sz
    by (auto simp: sized_def)
  ultimately have "Pt (ssp_update cfg a b c d) = Pt s"
    using ssp_update_done [of cfg d a b c] unfolding ssp_done_def by auto
  with chk have "\<not> Pt (ssp_update cfg a b c d) ! 0 + dptdx cfg * L cfg < 0" by simp
  from computeEquilibriumLoadings_succeeds [where mix = mix, OF mix this] d
  show ?thesis by (auto simp: ssp_stage_def)
qed

lemma computeStep_succeeds:
  assumes sz: "sized cfg s" and n: "1 \<le> Ncomp cfg" and g: "1 \<le> Ngrid cfg"
    and pol: "\<And>v. \<exists>x. pol v (Ngrid cfg + 1) = Some x"
    and mix: "\<And>y pt c1 c2. mix y pt c1 c2 \<noteq> None"
    and chk: "\<not> Pt s ! 0 + dptdx cfg * L cfg < 0"
  shows "\<exists>s'. computeStep pol mix cfg step s = Inr s'"
proof -
  let ?s0 = "autoStepsCheck cfg step s"
  have z0: "sized cfg ?s0" using sz by (rule autoStepsCheck_sized)
  have p0: "Pt ?s0 = Pt s" using autoStepsCheck_effect [of cfg step s] by auto
  from stage1_succeeds [where pol = pol and mix = mix, OF z0 n g pol mix] chk p0 obtain s1 where
    1: "stage1 pol mix cfg ?s0 = Inr s1" by auto
  note e1 = stage1_effect [OF 1 z0]
  have p1: "Pt s1 = Pt s" using e1(2) p0 by (simp add: committed_same_def)
  from ssp_stage_succeeds [where pol = pol and mix = mix, OF e1(1) n g pol mix] chk p1
  obtain s2 where
    2: "ssp_stage pol mix cfg 0.75 0.25 0.25 s1 = Inr s2" by metis
  note e2 = ssp_stage_effect [OF 2 e1(1)]
  have p2: "Pt s2 = Pt s" using e2(2) p1 by (simp add: committed_same_def)
  from ssp_stage_succeeds [where pol = pol and mix = mix, OF e2(1) n g pol mix] chk p2
  obtain s3 where
    3: "ssp_stage pol mix cfg (1 / 3) (2 / 3) (2 / 3) s2 = Inr s3" by metis
  note e3 = ssp_stage_effect [OF 3 e2(1)]
  show ?thesis
    unfolding computeStep_def advance_def stage2_def stage3_def Let_def
    using 1 2 3 commit_sized [OF e3(1)] by simp
qed


lemma derivatives_stage1_Inl: "derivatives_stage1 pol cfg s = Inl e \<Longrightarrow> e = OutOfRange"
  unfolding derivatives_stage1_def
  by (auto simp: bindE_Inl_iff split: prod.splits dest: computeFirstDerivatives_Inl)

lemma derivatives_new_Inl: "derivatives_new pol cfg s = Inl e \<Longrightarrow> e = OutOfRange"
  unfolding derivatives_new_def
  by (auto simp: bindE_Inl_iff split: prod.splits dest: computeFirstDerivatives_Inl)

lemma cel_node_Inl: "cel_node mix cfg i a = Inl e \<Longrightarrow> e = MixturePredictionFailed"
  unfolding cel_node_def predictMixture_at_def
  by (auto simp: bindE_Inl_iff split: option.splits)

lemma computeEquilibriumLoadings_Inl:
  assumes "computeEquilibriumLoadings mix cfg s = Inl e"
  shows "e = MixturePredictionFailed
       \<or> (e = PressureGradientTooLarge \<and> Pt s ! 0 + dptdx cfg * L cfg < 0)"
proof (cases "foldE (cel_node mix cfg) [0..<Ngrid cfg + 1] s")
  case (Inl e')
  with assms have "e' = e" by (simp add: computeEquilibriumLoadings_def)
  with Inl show ?thesis by (auto dest!: foldE_Inl cel_node_Inl)
next
  case (Inr t)
  have "oracle_frame s t"
    using Inr oracle_frame_refl by (rule foldE_invariant) (rule cel_node_frame)
  then have "Pt t = Pt s" unfolding oracle_frame_def by auto
  with assms Inr show ?thesis
    by (auto simp: computeEquilibriumLoadings_def split: if_splits)
qed

lemma computeEquilibriumLoadings_throws:
  assumes mix: "\<And>y pt c1 c2. mix y pt c1 c2 \<noteq> None"
    and chk: "Pt s ! 0 + dptdx cfg * L cfg < 0"
  shows "computeEquilibriumLoadings mix cfg s = Inl PressureGradientTooLarge"
proof -
  have "\<exists>t. foldE (cel_node mix cfg) [0..<Ngrid cfg + 1] s = Inr t \<and> True"
    by (rule foldE_total [where I = "\<lambda>a. True"])
      (use cel_node_succeeds [where mix = mix, OF mix] in auto)
  then obtain t where t: "foldE (cel_node mix cfg) [0..<Ngrid cfg + 1] s = Inr t" by blast
  have "oracle_frame s t"
    using t oracle_frame_refl by (rule foldE_invariant) (rule cel_node_frame)
  then have "Pt t = Pt s" unfolding oracle_frame_def by auto
  with chk t show ?thesis by (simp add: computeEquilibriumLoadings_def)
qed

lemma rk1_update_Pt: "sized cfg s \<Longrightarrow> Pt (rk1_update cfg s) = Pt s"
  using rk1_update_done [of cfg s] unfolding rk1_done_def by auto

lemma ssp_update_Pt: "sized cfg s \<Longrightarrow> Pt (ssp_update cfg a b c s) = Pt s"
  using ssp_update_done [of cfg s a b c] unfolding ssp_done_def by auto

lemma derivatives_stage1_keeps:
  assumes "derivatives_stage1 pol cfg s = Inr d" and "sized cfg s"
  shows "sized cfg d" and "Pt d = Pt s"
  using derivatives_stage1_effect [OF assms(1)] assms(2) by (auto simp: sized_def)

lemma derivatives_new_keeps:
  assumes "derivatives_new pol cfg s = Inr d" and "sized cfg s"
  shows "sized cfg d" and "Pt d = Pt s"
  using derivatives_new_effect [OF assms(1)] assms(2) by (auto simp: sized_def)

lemma stage1_Inl:
  assumes "stage1 pol mix cfg s = Inl e" and "sized cfg s"
  shows "e = OutOfRange \<or> e = MixturePredictionFailed
       \<or> (e = PressureGradientTooLarge \<and> Pt s ! 0 + dptdx cfg * L cfg < 0)"
proof (cases "derivatives_stage1 pol cfg s")
  case (Inl e')
  with assms(1) have "e' = e" by (simp add: stage1_def)
  with Inl show ?thesis by (auto dest: derivatives_stage1_Inl)
next
  case (Inr d)
  with assms(1) have "computeEquilibriumLoadings mix cfg (rk1_update cfg d) = Inl e"
    by (auto simp: stage1_def bindE_Inl_iff)
  from computeEquilibriumLoadings_Inl [OF this] derivatives_stage1_keeps [OF Inr assms(2)]
  show ?thesis by (auto simp: rk1_update_Pt)
qed

lemma ssp_stage_Inl:
  assumes "ssp_stage pol mix cfg a b c s = Inl e" and "sized cfg s"
  shows "e = OutOfRange \<or> e = MixturePredictionFailed
       \<or> (e = PressureGradientTooLarge \<and> Pt s ! 0 + dptdx cfg * L cfg < 0)"
proof (cases "derivatives_new pol cfg s")
  case (Inl e')
  with assms(1) have "e' = e" by (simp add: ssp_stage_def)
  with Inl show ?thesis by (auto dest: derivatives_new_Inl)
next
  case (Inr d)
  with assms(1) have "computeEquilibriumLoadings mix cfg (ssp_update cfg a b c d) = Inl e"
    by (auto simp: ssp_stage_def bindE_Inl_iff)
  from computeEquilibriumLoadings_Inl [OF this] derivatives_new_keeps [OF Inr assms(2)]
  show ?thesis by (auto simp: ssp_update_Pt)
qed

lemma autoStepsCheck_Pt: "Pt (autoStepsCheck cfg step s) = Pt s"
  by (simp add: autoStepsCheck_def)

lemma computeStep_Inl:
  assumes run: "computeStep pol mix cfg step s = Inl e" and sz: "sized cfg s"
  shows "e = OutOfRange \<or> e = MixturePredictionFailed
       \<or> (e = PressureGradientTooLarge \<and> Pt s ! 0 + dptdx cfg * L cfg < 0)"
proof -
  let ?s0 = "autoStepsCheck cfg step s"
  have z0: "sized cfg ?s0" using sz by (rule autoStepsCheck_sized)
  from run have adv: "advance pol mix cfg step s = Inl e"
    unfolding computeStep_def Let_def by (auto simp: bindE_Inl_iff)
  show ?thesis
  proof (cases "stage1 pol mix cfg ?s0")
    case (Inl e')
    with adv have "e' = e" by (simp add: advance_def)
    with stage1_Inl [OF Inl z0] show ?thesis by (simp add: autoStepsCheck_Pt)
  next
    case s1: (Inr s1)
    note e1 = stage1_effect [OF s1 z0]
    have p1: "Pt s1 = Pt s" using e1(2) by (simp add: committed_same_def autoStepsCheck_Pt)
    show ?thesis
    proof (cases "stage2 pol mix cfg s1")
      case (Inl e')
      with adv s1 have "e' = e" by (simp add: advance_def)
      with ssp_stage_Inl [OF Inl [unfolded stage2_def] e1(1)] show ?thesis by (simp add: p1)
    next
      case s2: (Inr s2)
      note e2 = ssp_stage_effect [OF s2 [unfolded stage2_def] e1(1)]
      have p2: "Pt s2 = Pt s" using e2(2) p1 by (simp add: committed_same_def)
      show ?thesis
      proof (cases "stage3 pol mix cfg s2")
        case (Inl e')
        with adv s1 s2 have "e' = e" by (simp add: advance_def)
        with ssp_stage_Inl [OF Inl [unfolded stage3_def] e2(1)] show ?thesis by (simp add: p2)
      next
        case s3: (Inr s3)
        note e3 = ssp_stage_effect [OF s3 [unfolded stage3_def] e2(1)]
        from adv s1 s2 s3 commit_sized [OF e3(1)] show ?thesis by (simp add: advance_def)
      qed
    qed
  qed
qed

lemma computeStep_throws:
  assumes sz: "sized cfg s" and n: "1 \<le> Ncomp cfg" and g: "1 \<le> Ngrid cfg"
    and pol: "\<And>v. \<exists>x. pol v (Ngrid cfg + 1) = Some x"
    and mix: "\<And>y pt c1 c2. mix y pt c1 c2 \<noteq> None"
    and chk: "Pt s ! 0 + dptdx cfg * L cfg < 0"
  shows "computeStep pol mix cfg step s = Inl PressureGradientTooLarge"
proof -
  let ?s0 = "autoStepsCheck cfg step s"
  have z0: "sized cfg ?s0" using sz by (rule autoStepsCheck_sized)
  from pol obtain x where "pol (V ?s0) (Ngrid cfg + 1) = Some x" by blast
  from derivatives_stage1_succeeds [where pol = pol and x = x, OF z0 n g this] obtain d where
    d: "derivatives_stage1 pol cfg ?s0 = Inr d" by blast
  from derivatives_stage1_keeps [OF d z0] have "Pt (rk1_update cfg d) = Pt s"
    by (simp add: rk1_update_Pt autoStepsCheck_Pt)
  with chk have "Pt (rk1_update cfg d) ! 0 + dptdx cfg * L cfg < 0" by simp
  from computeEquilibriumLoadings_throws [where mix = mix, OF mix this] d
  show ?thesis
    by (simp add: computeStep_def advance_def stage1_def)
qed










section \<open>The loops of initialize\<close>

text \<open>A loop that rewrites the cells \<open>b, b+1, ..\<close> of one vector, each from its own old value.\<close>

lemma fold_row:
  fixes g :: "nat \<Rightarrow> 'a \<Rightarrow> 'a"
  assumes "b + n \<le> length xs"
  shows "length (fold (\<lambda>j ys. ys[b + j := g j (ys ! (b + j))]) [0..<n] xs) = length xs
       \<and> (\<forall>k. fold (\<lambda>j ys. ys[b + j := g j (ys ! (b + j))]) [0..<n] xs ! k
              = (if b \<le> k \<and> k < b + n then g (k - b) (xs ! k) else xs ! k))"
  using assms
proof (induction n)
  case 0
  show ?case by auto
next
  case (Suc n)
  let ?ys = "fold (\<lambda>j ys. ys[b + j := g j (ys ! (b + j))]) [0..<n] xs"
  from Suc have ih: "length ?ys = length xs"
    "\<And>k. ?ys ! k = (if b \<le> k \<and> k < b + n then g (k - b) (xs ! k) else xs ! k)"
    by simp_all
  have bn: "b + n < length ?ys" using Suc.prems ih(1) by simp
  have "fold (\<lambda>j ys. ys[b + j := g j (ys ! (b + j))]) [0..<Suc n] xs
      = ?ys[b + n := g n (?ys ! (b + n))]" by simp
  moreover have "?ys ! (b + n) = xs ! (b + n)" by (simp add: ih(2))
  ultimately show ?case
    using bn ih by (auto simp: nth_list_update)
qed

lemma fold_Yi_field:
  assumes "\<And>j a y. h j (a\<lparr>Yi := y\<rparr>) = h j a"
  shows "fold (\<lambda>j a. a\<lparr>Yi := h j a (Yi a)\<rparr>) js s = s\<lparr>Yi := fold (\<lambda>j. h j s) js (Yi s)\<rparr>"
proof (induction js arbitrary: s)
  case Nil
  show ?case by simp
next
  case (Cons j js)
  have "(\<lambda>j'. h j' (s\<lparr>Yi := h j s (Yi s)\<rparr>)) = (\<lambda>j'. h j' s)"
    by (rule ext) (rule assms)
  then show ?case by (simp add: Cons)
qed

lemma fold_Qeq_field:
  assumes "\<And>j a y. h j (a\<lparr>Qeq := y\<rparr>) = h j a"
  shows "fold (\<lambda>j a. a\<lparr>Qeq := h j a (Qeq a)\<rparr>) js s = s\<lparr>Qeq := fold (\<lambda>j. h j s) js (Qeq s)\<rparr>"
proof (induction js arbitrary: s)
  case Nil
  show ?case by simp
next
  case (Cons j js)
  have "(\<lambda>j'. h j' (s\<lparr>Qeq := h j s (Qeq s)\<rparr>)) = (\<lambda>j'. h j' s)"
    by (rule ext) (rule assms)
  then show ?case by (simp add: Cons)
qed

lemma init_clip_loop:
  assumes "i * Ncomp cfg + n \<le> length (Yi a)"
  shows "\<exists>y. fold (init_clip cfg i) [0..<n] (a, 0)
            = (a\<lparr>Yi := y\<rparr>, \<Sum>j<n. clipped cfg (P a) i j)
         \<and> length y = length (Yi a)
         \<and> (\<forall>j<n. y ! (i * Ncomp cfg + j) = clipped cfg (P a) i j)
         \<and> (\<forall>k. k < i * Ncomp cfg \<or> i * Ncomp cfg + n \<le> k \<longrightarrow> y ! k = Yi a ! k)"
  using assms
proof (induction n)
  case 0
  show ?case by (intro exI [of _ "Yi a"]) simp
next
  case (Suc n)
  then obtain y where
    f: "fold (init_clip cfg i) [0..<n] (a, 0) = (a\<lparr>Yi := y\<rparr>, \<Sum>j<n. clipped cfg (P a) i j)" and
    y: "length y = length (Yi a)" "\<forall>j<n. y ! (i * Ncomp cfg + j) = clipped cfg (P a) i j"
       "\<forall>k. k < i * Ncomp cfg \<or> i * Ncomp cfg + n \<le> k \<longrightarrow> y ! k = Yi a ! k"
    by auto
  let ?k = "i * Ncomp cfg + n"
  let ?y = "y[?k := clipped cfg (P a) i n]"
  have k: "?k < length y" using Suc.prems y(1) by simp
  have "fold (init_clip cfg i) [0..<Suc n] (a, 0)
      = (a\<lparr>Yi := ?y\<rparr>, (\<Sum>j<Suc n. clipped cfg (P a) i j))"
    using k by (simp add: f init_clip_def clipped_def Let_def)
  moreover have "length ?y = length (Yi a)" using y(1) by simp
  moreover have "\<forall>j<Suc n. ?y ! (i * Ncomp cfg + j) = clipped cfg (P a) i j"
    using y(2) k by (auto simp: nth_list_update less_Suc_eq)
  moreover have "\<forall>k. k < i * Ncomp cfg \<or> i * Ncomp cfg + Suc n \<le> k \<longrightarrow> ?y ! k = Yi a ! k"
    using y(3) by (auto simp: nth_list_update)
  ultimately show ?case by blast
qed


lemma Yi_i_eq: "Yi_i cfg y i = map (\<lambda>j. y ! (i * Ncomp cfg + j)) [0..<Ncomp cfg]"
proof -
  let ?n = "Ncomp cfg"
  have r: "length (fold (\<lambda>j a. a[0 + j := (\<lambda>j _. y ! (i * ?n + j)) j (a ! (0 + j))])
              [0..<?n] (replicate ?n 0)) = length (replicate ?n (0::real))
      \<and> (\<forall>k. fold (\<lambda>j a. a[0 + j := (\<lambda>j _. y ! (i * ?n + j)) j (a ! (0 + j))])
              [0..<?n] (replicate ?n 0) ! k
            = (if 0 \<le> k \<and> k < 0 + ?n then (\<lambda>j _. y ! (i * ?n + j)) (k - 0) (replicate ?n 0 ! k)
               else replicate ?n 0 ! k))"
    by (rule fold_row) simp
  show ?thesis
    unfolding Yi_i_def
    by (rule nth_equalityI) (use r in simp_all)
qed

lemma Yi_i_cong:
  assumes "\<forall>j<Ncomp cfg. y' ! (i * Ncomp cfg + j) = y ! (i * Ncomp cfg + j)"
  shows "Yi_i cfg y' i = Yi_i cfg y i"
  using assms by (simp add: Yi_i_eq)

lemma init_normalise_loop:
  assumes "i * Ncomp cfg + Ncomp cfg \<le> length (Yi a)"
  shows "\<exists>y. fold (init_normalise cfg i sm) [0..<Ncomp cfg] a = a\<lparr>Yi := y\<rparr>
         \<and> length y = length (Yi a)
         \<and> (\<forall>j<Ncomp cfg. y ! (i * Ncomp cfg + j) = Yi a ! (i * Ncomp cfg + j) / sm)
         \<and> (\<forall>k. k < i * Ncomp cfg \<or> i * Ncomp cfg + Ncomp cfg \<le> k \<longrightarrow> y ! k = Yi a ! k)"
proof -
  let ?b = "i * Ncomp cfg"
  let ?h = "\<lambda>j ys. ys[?b + j := (\<lambda>j v. v / sm) j (ys ! (?b + j))]"
  have "fold (init_normalise cfg i sm) [0..<Ncomp cfg] a
      = fold (\<lambda>j a. a\<lparr>Yi := (\<lambda>j a. ?h j) j a (Yi a)\<rparr>) [0..<Ncomp cfg] a"
    by (simp add: init_normalise_def [abs_def])
  also have "\<dots> = a\<lparr>Yi := fold ?h [0..<Ncomp cfg] (Yi a)\<rparr>"
    by (rule fold_Yi_field) simp
  finally have e: "fold (init_normalise cfg i sm) [0..<Ncomp cfg] a
      = a\<lparr>Yi := fold ?h [0..<Ncomp cfg] (Yi a)\<rparr>" .
  note r = fold_row [OF assms, where g = "\<lambda>j v. v / sm"]
  show ?thesis
    by (rule exI [of _ "fold ?h [0..<Ncomp cfg] (Yi a)"]) (use e r in auto)
qed

lemma init_Qeq_loop:
  assumes "i * Ncomp cfg + Ncomp cfg \<le> length (Qeq a)"
  shows "\<exists>qe. fold (\<lambda>j a. a\<lparr>Qeq := (Qeq a)[i * Ncomp cfg + j := Ni a ! j]\<rparr>) [0..<Ncomp cfg] a
            = a\<lparr>Qeq := qe\<rparr>
         \<and> length qe = length (Qeq a)
         \<and> (\<forall>j<Ncomp cfg. qe ! (i * Ncomp cfg + j) = Ni a ! j)
         \<and> (\<forall>k. k < i * Ncomp cfg \<or> i * Ncomp cfg + Ncomp cfg \<le> k \<longrightarrow> qe ! k = Qeq a ! k)"
proof -
  let ?b = "i * Ncomp cfg"
  let ?h = "\<lambda>j ys. ys[?b + j := (\<lambda>j v. Ni a ! j) j (ys ! (?b + j))]"
  have e: "fold (\<lambda>j a. a\<lparr>Qeq := (Qeq a)[?b + j := Ni a ! j]\<rparr>) [0..<Ncomp cfg] a
      = a\<lparr>Qeq := fold ?h [0..<Ncomp cfg] (Qeq a)\<rparr>"
    using fold_Qeq_field [where h = "\<lambda>j a ys. ys[?b + j := Ni a ! j]", of "[0..<Ncomp cfg]" a]
    by simp
  note r = fold_row [OF assms, where g = "\<lambda>j v. Ni a ! j"]
  show ?thesis
    by (rule exI [of _ "fold ?h [0..<Ncomp cfg] (Qeq a)"]) (use e r in auto)
qed

text \<open>One pass of the node loop of initialize.\<close>

lemma init_node_effect:
  assumes run: "init_node mix cfg i a = Inr b"
    and len: "i * Ncomp cfg + Ncomp cfg \<le> length (Yi a)"
             "i * Ncomp cfg + Ncomp cfg \<le> length (Qeq a)"
  shows "\<exists>out y qe c1 c2.
      b = a\<lparr>iastPerformance := pair_add (iastPerformance a) (out_perf out),
            Yi := y, Xi := out_Xi out, Ni := out_Ni out, Qeq := qe,
            cachedP0 := c1, cachedPsi := c2\<rparr>
      \<and> (\<exists>b1 b2. mix (Yi_i cfg y i) (pt_init cfg ! i) b1 b2 = Some out)
      \<and> length y = length (Yi a) \<and> length qe = length (Qeq a)
      \<and> (\<forall>j<Ncomp cfg. y ! (i * Ncomp cfg + j)
            = clipped cfg (P a) i j / (\<Sum>j'<Ncomp cfg. clipped cfg (P a) i j'))
      \<and> (\<forall>k. k < i * Ncomp cfg \<or> i * Ncomp cfg + Ncomp cfg \<le> k \<longrightarrow> y ! k = Yi a ! k)
      \<and> (\<forall>j<Ncomp cfg. qe ! (i * Ncomp cfg + j) = out_Ni out ! j)
      \<and> (\<forall>k. k < i * Ncomp cfg \<or> i * Ncomp cfg + Ncomp cfg \<le> k \<longrightarrow> qe ! k = Qeq a ! k)"
proof -
  let ?sm = "\<Sum>j<Ncomp cfg. clipped cfg (P a) i j"
  from init_clip_loop [OF len(1)] obtain y1 where
    c: "fold (init_clip cfg i) [0..<Ncomp cfg] (a, 0) = (a\<lparr>Yi := y1\<rparr>, ?sm)" and
    y1: "length y1 = length (Yi a)"
        "\<forall>j<Ncomp cfg. y1 ! (i * Ncomp cfg + j) = clipped cfg (P a) i j"
        "\<forall>k. k < i * Ncomp cfg \<or> i * Ncomp cfg + Ncomp cfg \<le> k \<longrightarrow> y1 ! k = Yi a ! k"
    by blast
  have "i * Ncomp cfg + Ncomp cfg \<le> length (Yi (a\<lparr>Yi := y1\<rparr>))" using len(1) y1(1) by simp
  from init_normalise_loop [OF this, of ?sm] obtain y where
    nm: "fold (init_normalise cfg i ?sm) [0..<Ncomp cfg] (a\<lparr>Yi := y1\<rparr>) = a\<lparr>Yi := y\<rparr>" and
    y: "length y = length y1"
       "\<forall>j<Ncomp cfg. y ! (i * Ncomp cfg + j) = y1 ! (i * Ncomp cfg + j) / ?sm"
       "\<forall>k. k < i * Ncomp cfg \<or> i * Ncomp cfg + Ncomp cfg \<le> k \<longrightarrow> y ! k = y1 ! k"
    by auto
  from run have "bindE (predictMixture_at mix cfg i (pt_init cfg ! i) (a\<lparr>Yi := y\<rparr>))
      (\<lambda>s3. Inr (fold (\<lambda>j a. a\<lparr>Qeq := (Qeq a)[i * Ncomp cfg + j := Ni a ! j]\<rparr>)
                    [0..<Ncomp cfg] s3)) = Inr b"
    unfolding init_node_def c by (simp add: nm)
  then obtain a3 where
    pm: "predictMixture_at mix cfg i (pt_init cfg ! i) (a\<lparr>Yi := y\<rparr>) = Inr a3" and
    b: "b = fold (\<lambda>j a. a\<lparr>Qeq := (Qeq a)[i * Ncomp cfg + j := Ni a ! j]\<rparr>) [0..<Ncomp cfg] a3"
    by (auto simp: bindE_Inr_iff)
  define b1 where "b1 = block (cachedP0 a) (i * Ncomp cfg * maxIsothermTerms cfg)
      (Ncomp cfg * maxIsothermTerms cfg)"
  define b2 where "b2 = block (cachedPsi a) (i * maxIsothermTerms cfg) (maxIsothermTerms cfg)"
  from predictMixture_at_Inr [OF pm] obtain out where
    mx: "mix (Yi_i cfg y i) (pt_init cfg ! i) b1 b2 = Some out" and
    a3': "a3 = a\<lparr>iastPerformance := pair_add (iastPerformance a) (out_perf out),
              Yi := y, Xi := out_Xi out, Ni := out_Ni out,
              cachedP0 := put_block (cachedP0 a) (i * Ncomp cfg * maxIsothermTerms cfg)
                            (out_P0 out),
              cachedPsi := put_block (cachedPsi a) (i * maxIsothermTerms cfg) (out_Psi out)\<rparr>"
    unfolding b1_def b2_def by auto
  define c1 where "c1 = put_block (cachedP0 a) (i * Ncomp cfg * maxIsothermTerms cfg)
      (out_P0 out)"
  define c2 where "c2 = put_block (cachedPsi a) (i * maxIsothermTerms cfg) (out_Psi out)"
  have a3: "a3 = a\<lparr>iastPerformance := pair_add (iastPerformance a) (out_perf out),
              Yi := y, Xi := out_Xi out, Ni := out_Ni out, cachedP0 := c1, cachedPsi := c2\<rparr>"
    unfolding c1_def c2_def by (rule a3')
  have "i * Ncomp cfg + Ncomp cfg \<le> length (Qeq a3)" using len(2) by (simp add: a3)
  from init_Qeq_loop [OF this] obtain qe where
    q: "b = a3\<lparr>Qeq := qe\<rparr>" "length qe = length (Qeq a3)"
       "\<forall>j<Ncomp cfg. qe ! (i * Ncomp cfg + j) = Ni a3 ! j"
       "\<forall>k. k < i * Ncomp cfg \<or> i * Ncomp cfg + Ncomp cfg \<le> k \<longrightarrow> qe ! k = Qeq a3 ! k"
    unfolding b by blast
  have "b = a\<lparr>iastPerformance := pair_add (iastPerformance a) (out_perf out),
            Yi := y, Xi := out_Xi out, Ni := out_Ni out, Qeq := qe,
            cachedP0 := c1, cachedPsi := c2\<rparr>"
    unfolding q(1) a3 by simp
  moreover have "\<forall>j<Ncomp cfg. y ! (i * Ncomp cfg + j) = clipped cfg (P a) i j / ?sm"
    using y(2) y1(2) by simp
  moreover have "\<forall>k. k < i * Ncomp cfg \<or> i * Ncomp cfg + Ncomp cfg \<le> k \<longrightarrow> y ! k = Yi a ! k"
    using y(3) y1(3) by simp
  moreover have "length y = length (Yi a)" using y(1) y1(1) by simp
  moreover have "length qe = length (Qeq a)" using q(2) by (simp add: a3)
  moreover have "\<forall>j<Ncomp cfg. qe ! (i * Ncomp cfg + j) = out_Ni out ! j"
    using q(3) by (simp add: a3)
  moreover have "\<forall>k. k < i * Ncomp cfg \<or> i * Ncomp cfg + Ncomp cfg \<le> k \<longrightarrow> qe ! k = Qeq a ! k"
    using q(4) by (simp add: a3)
  ultimately show ?thesis using mx by blast
qed


lemma init_nodes_done_start: "init_nodes_done mix cfg a0 0 a0"
  unfolding init_nodes_done_def
  by (rule exI [of _ "[]"], rule exI [of _ "Yi a0"], rule exI [of _ "Qeq a0"],
      rule exI [of _ "Xi a0"], rule exI [of _ "Ni a0"], rule exI [of _ "cachedP0 a0"],
      rule exI [of _ "cachedPsi a0"]) simp

lemma row_below:
  fixes i n c j :: nat
  assumes "i < n" and "j < c"
  shows "i * c + j < n * c"
proof -
  have "i * c + j < (i + 1) * c" using assms(2) by (simp add: algebra_simps)
  also have "\<dots> \<le> n * c" using assms(1) by (intro mult_le_mono1) simp
  finally show ?thesis .
qed

lemma init_node_step:
  assumes inv: "init_nodes_done mix cfg a0 n a" and run: "init_node mix cfg n a = Inr b"
    and len: "n * Ncomp cfg + Ncomp cfg \<le> length (Yi a0)"
             "n * Ncomp cfg + Ncomp cfg \<le> length (Qeq a0)"
  shows "init_nodes_done mix cfg a0 (Suc n) b"
proof -
  let ?C = "Ncomp cfg"
  from inv obtain outs y qe xi ni c1 c2 where
    a: "a = a0\<lparr>iastPerformance := fold (\<lambda>out p. pair_add p (out_perf out)) outs
                                    (iastPerformance a0),
               Yi := y, Xi := xi, Ni := ni, Qeq := qe, cachedP0 := c1, cachedPsi := c2\<rparr>" and
    l: "length outs = n" "length y = length (Yi a0)" "length qe = length (Qeq a0)" and
    old: "\<forall>i<n. (\<exists>b1 b2. mix (Yi_i cfg y i) (pt_init cfg ! i) b1 b2 = Some (outs ! i)) \<and>
           (\<forall>j<?C. y ! (i * ?C + j)
                = clipped cfg (P a0) i j / (\<Sum>j'<?C. clipped cfg (P a0) i j') \<and>
              qe ! (i * ?C + j) = out_Ni (outs ! i) ! j)"
    unfolding init_nodes_done_def by blast
  have la: "n * ?C + ?C \<le> length (Yi a)" "n * ?C + ?C \<le> length (Qeq a)"
    using len l by (simp_all add: a)
  from init_node_effect [OF run la] obtain out y' qe' c1' c2' where
    b: "b = a\<lparr>iastPerformance := pair_add (iastPerformance a) (out_perf out),
            Yi := y', Xi := out_Xi out, Ni := out_Ni out, Qeq := qe',
            cachedP0 := c1', cachedPsi := c2'\<rparr>" and
    mx: "\<exists>b1 b2. mix (Yi_i cfg y' n) (pt_init cfg ! n) b1 b2 = Some out" and
    l': "length y' = length (Yi a)" "length qe' = length (Qeq a)" and
    row: "\<forall>j<?C. y' ! (n * ?C + j)
            = clipped cfg (P a) n j / (\<Sum>j'<?C. clipped cfg (P a) n j')"
         "\<forall>j<?C. qe' ! (n * ?C + j) = out_Ni out ! j" and
    rest: "\<forall>k. k < n * ?C \<or> n * ?C + ?C \<le> k \<longrightarrow> y' ! k = Yi a ! k"
          "\<forall>k. k < n * ?C \<or> n * ?C + ?C \<le> k \<longrightarrow> qe' ! k = Qeq a ! k"
    by blast
  have pa: "P a = P a0" "Yi a = y" "Qeq a = qe" by (simp_all add: a)
  have keep: "y' ! (i * ?C + j) = y ! (i * ?C + j)" "qe' ! (i * ?C + j) = qe ! (i * ?C + j)"
    if "i < n" "j < ?C" for i j
    using rest row_below [OF that] by (simp_all add: pa)
  have b': "b = a0\<lparr>iastPerformance := fold (\<lambda>out p. pair_add p (out_perf out)) (outs @ [out])
                                    (iastPerformance a0),
               Yi := y', Xi := out_Xi out, Ni := out_Ni out, Qeq := qe',
               cachedP0 := c1', cachedPsi := c2'\<rparr>"
    unfolding b unfolding a by simp
  have new: "(\<exists>b1 b2. mix (Yi_i cfg y' i) (pt_init cfg ! i) b1 b2 = Some ((outs @ [out]) ! i)) \<and>
           (\<forall>j<?C. y' ! (i * ?C + j)
                = clipped cfg (P a0) i j / (\<Sum>j'<?C. clipped cfg (P a0) i j') \<and>
              qe' ! (i * ?C + j) = out_Ni ((outs @ [out]) ! i) ! j)" if i: "i < Suc n" for i
  proof (cases "i = n")
    case True
    then show ?thesis using mx row l(1) by (simp add: pa nth_append)
  next
    case False
    with i have lt: "i < n" by simp
    then have "Yi_i cfg y' i = Yi_i cfg y i" by (intro Yi_i_cong) (simp add: keep)
    with old lt keep [OF lt] l(1) show ?thesis by (simp add: nth_append)
  qed
  show ?thesis
    unfolding init_nodes_done_def
    by (rule exI [of _ "outs @ [out]"], rule exI [of _ y'], rule exI [of _ qe'],
        rule exI [of _ "out_Xi out"], rule exI [of _ "out_Ni out"], rule exI [of _ c1'],
        rule exI [of _ c2']) (use b' new l l' in \<open>simp add: pa\<close>)
qed

lemma init_node_loop:
  assumes run: "foldE (init_node mix cfg) [0..<Ngrid cfg + 1] a0 = Inr a"
    and len: "length (Yi a0) = (Ngrid cfg + 1) * Ncomp cfg"
             "length (Qeq a0) = (Ngrid cfg + 1) * Ncomp cfg"
  shows "init_nodes_done mix cfg a0 (Ngrid cfg + 1) a"
proof (rule foldE_upt_invariant [OF run, where I = "init_nodes_done mix cfg a0"])
  show "init_nodes_done mix cfg a0 0 a0" by (rule init_nodes_done_start)
next
  fix n u v
  assume n: "n < Ngrid cfg + 1" and inv: "init_nodes_done mix cfg a0 n u"
    and step: "init_node mix cfg n u = Inr v"
  have "n * Ncomp cfg + Ncomp cfg \<le> (Ngrid cfg + 1) * Ncomp cfg"
    using mult_le_mono1 [of "Suc n" "Ngrid cfg + 1" "Ncomp cfg"] n by simp
  then show "init_nodes_done mix cfg a0 (Suc n) v"
    using inv step len by (intro init_node_step) simp_all
qed simp

lemma init_prefactor_effect:
  "\<exists>pf. init_prefactor cfg s = s\<lparr>prefactor := pf\<rparr> \<and> length pf = length (prefactor s)"
  unfolding init_prefactor_def
proof (rule fold_invariant
    [where I = "\<lambda>a. \<exists>pf. a = s\<lparr>prefactor := pf\<rparr> \<and> length pf = length (prefactor s)"])
  show "\<exists>pf. s = s\<lparr>prefactor := pf\<rparr> \<and> length pf = length (prefactor s)"
    by (rule exI [of _ "prefactor s"]) simp
next
  fix j a
  assume "\<exists>pf. a = s\<lparr>prefactor := pf\<rparr> \<and> length pf = length (prefactor s)"
  then obtain pf where "a = s\<lparr>prefactor := pf\<rparr>" "length pf = length (prefactor s)" by blast
  then show "\<exists>pf. a\<lparr>prefactor := (prefactor a)
              [j := R * T cfg * ((1 - epsilon cfg) / epsilon cfg) * rho_p cfg
                      * Kl (components cfg ! j)]\<rparr> = s\<lparr>prefactor := pf\<rparr>
         \<and> length pf = length (prefactor s)"
    by force
qed

lemma init_velocity_effect:
  "\<exists>v. init_velocity cfg s = s\<lparr>V := v\<rparr> \<and> length v = length (V s)"
  unfolding init_velocity_def
proof (rule fold_invariant
    [where I = "\<lambda>a. \<exists>v. a = s\<lparr>V := v\<rparr> \<and> length v = length (V s)"])
  show "\<exists>v. s = s\<lparr>V := v\<rparr> \<and> length v = length (V s)"
    by (rule exI [of _ "V s"]) simp
next
  fix i a
  assume "\<exists>v. a = s\<lparr>V := v\<rparr> \<and> length v = length (V s)"
  then obtain v where "a = s\<lparr>V := v\<rparr>" "length v = length (V s)" by blast
  then show "\<exists>v. a\<lparr>V := (V a)[i := v_in cfg * p_total cfg / pt_init cfg ! i]\<rparr> = s\<lparr>V := v\<rparr>
         \<and> length v = length (V s)"
    by force
qed

lemma cell_eq_iff:
  fixes i i' j j' c :: nat
  assumes "j < c" and "j' < c"
  shows "i * c + j = i' * c + j' \<longleftrightarrow> i = i' \<and> j = j'"
proof
  assume e: "i * c + j = i' * c + j'"
  have "(i * c + j) div c = i" "(i' * c + j') div c = i'"
       "(i * c + j) mod c = j" "(i' * c + j') mod c = j'"
    using assms by simp_all
  with e show "i = i' \<and> j = j'" by metis
qed simp

lemma init_carrier_effect:
  assumes car: "carrierGasComponent cfg < Ncomp cfg"
    and len: "length (P s) = (Ngrid cfg + 1) * Ncomp cfg"
  shows "\<exists>p. init_carrier cfg s = s\<lparr>P := p\<rparr> \<and> length p = length (P s)
           \<and> (\<forall>i\<le>Ngrid cfg. \<forall>j<Ncomp cfg. p ! (i * Ncomp cfg + j)
                 = (if 1 \<le> i \<and> j = carrierGasComponent cfg then pt_init cfg ! i
                    else P s ! (i * Ncomp cfg + j)))"
proof -
  let ?C = "Ncomp cfg" and ?c = "carrierGasComponent cfg"
  let ?I = "\<lambda>n a. \<exists>p. a = s\<lparr>P := p\<rparr> \<and> length p = length (P s)
           \<and> (\<forall>i\<le>Ngrid cfg. \<forall>j<?C. p ! (i * ?C + j)
                 = (if 1 \<le> i \<and> i < n \<and> j = ?c then pt_init cfg ! i else P s ! (i * ?C + j)))"
  have "?I (Ngrid cfg + 1)
      (fold (\<lambda>i a. a\<lparr>P := (P a)[i * ?C + ?c := pt_init cfg ! i]\<rparr>) [1..<Ngrid cfg + 1] s)"
  proof (rule fold_upt_invariant [where I = ?I])
    show "?I 1 s" by (rule exI [of _ "P s"]) auto
  next
    fix n a
    assume n: "1 \<le> n" "n < Ngrid cfg + 1" and "?I n a"
    then obtain p where a: "a = s\<lparr>P := p\<rparr>" and p: "length p = length (P s)"
      "\<forall>i\<le>Ngrid cfg. \<forall>j<?C. p ! (i * ?C + j)
          = (if 1 \<le> i \<and> i < n \<and> j = ?c then pt_init cfg ! i else P s ! (i * ?C + j))"
      by blast
    let ?p = "p[n * ?C + ?c := pt_init cfg ! n]"
    have k: "n * ?C + ?c < length p"
      using cell_in_range [of n "Ngrid cfg" ?c ?C] n car p(1) len by simp
    have "a\<lparr>P := (P a)[n * ?C + ?c := pt_init cfg ! n]\<rparr> = s\<lparr>P := ?p\<rparr>" by (simp add: a)
    moreover have "length ?p = length (P s)" using p(1) by simp
    moreover have "\<forall>i\<le>Ngrid cfg. \<forall>j<?C. ?p ! (i * ?C + j)
          = (if 1 \<le> i \<and> i < Suc n \<and> j = ?c then pt_init cfg ! i else P s ! (i * ?C + j))"
    proof (intro allI impI)
      fix i j assume ij: "i \<le> Ngrid cfg" "j < ?C"
      show "?p ! (i * ?C + j)
          = (if 1 \<le> i \<and> i < Suc n \<and> j = ?c then pt_init cfg ! i else P s ! (i * ?C + j))"
      proof (cases "i = n \<and> j = ?c")
        case True
        then show ?thesis using k n by simp
      next
        case False
        then have "i * ?C + j \<noteq> n * ?C + ?c" using cell_eq_iff [OF ij(2) car] by simp
        then have "?p ! (i * ?C + j) = p ! (i * ?C + j)" by simp
        with p(2) ij False show ?thesis by (auto simp: less_Suc_eq)
      qed
    qed
    ultimately show "?I (Suc n) (a\<lparr>P := (P a)[n * ?C + ?c := pt_init cfg ! n]\<rparr>)" by blast
  qed simp
  then show ?thesis unfolding init_carrier_def by auto
qed

lemma fold_P_field:
  assumes "\<And>j a y. h j (a\<lparr>P := y\<rparr>) = h j a"
  shows "fold (\<lambda>j a. a\<lparr>P := h j a (P a)\<rparr>) js s = s\<lparr>P := fold (\<lambda>j. h j s) js (P s)\<rparr>"
proof (induction js arbitrary: s)
  case Nil
  show ?case by simp
next
  case (Cons j js)
  have "(\<lambda>j'. h j' (s\<lparr>P := h j s (P s)\<rparr>)) = (\<lambda>j'. h j' s)"
    by (rule ext) (rule assms)
  then show ?case by (simp add: Cons)
qed

lemma init_inlet_effect:
  assumes len: "Ncomp cfg \<le> length (P s)"
  shows "\<exists>p. init_inlet cfg s = s\<lparr>P := p\<rparr> \<and> length p = length (P s)
           \<and> (\<forall>j<Ncomp cfg. p ! j = p_total cfg * Yi0 (components cfg ! j))
           \<and> (\<forall>k\<ge>Ncomp cfg. p ! k = P s ! k)"
proof -
  let ?h = "\<lambda>j ys. ys[0 + j := (\<lambda>j v. p_total cfg * Yi0 (components cfg ! j)) j (ys ! (0 + j))]"
  have e: "init_inlet cfg s = s\<lparr>P := fold ?h [0..<Ncomp cfg] (P s)\<rparr>"
    unfolding init_inlet_def
    using fold_P_field [where h = "\<lambda>j a ys. ys[j := p_total cfg * Yi0 (components cfg ! j)]",
        of "[0..<Ncomp cfg]" s]
    by simp
  have "0 + Ncomp cfg \<le> length (P s)" using len by simp
  note r = fold_row [OF this, where g = "\<lambda>j v. p_total cfg * Yi0 (components cfg ! j)"]
  show ?thesis
    by (rule exI [of _ "fold ?h [0..<Ncomp cfg] (P s)"]) (use e r in auto)
qed

lemma fold_accumulate:
  fixes c :: "nat \<Rightarrow> real"
  shows "fold (\<lambda>j ys. ys[i := ys ! i + c j]) [0..<n] ys = ys[i := ys ! i + (\<Sum>j<n. c j)]"
proof (induction n)
  case 0
  show ?case by simp
next
  case (Suc n)
  show ?case
  proof (cases "i < length ys")
    case True
    then show ?thesis using Suc by (simp add: add.assoc)
  next
    case False
    then have "ys[i := x] = ys" for x by (intro list_update_beyond) simp
    then show ?thesis using Suc by simp
  qed
qed

lemma fold_Pt_field:
  assumes "\<And>j a y. h j (a\<lparr>Pt := y\<rparr>) = h j a"
  shows "fold (\<lambda>j a. a\<lparr>Pt := h j a (Pt a)\<rparr>) js s = s\<lparr>Pt := fold (\<lambda>j. h j s) js (Pt s)\<rparr>"
proof (induction js arbitrary: s)
  case Nil
  show ?case by simp
next
  case (Cons j js)
  have "(\<lambda>j'. h j' (s\<lparr>Pt := h j s (Pt s)\<rparr>)) = (\<lambda>j'. h j' s)"
    by (rule ext) (rule assms)
  then show ?case by (simp add: Cons)
qed

lemma init_total_pressure_effect:
  assumes len: "length (Pt s) = Ngrid cfg + 1"
  shows "\<exists>pt. init_total_pressure cfg s = s\<lparr>Pt := pt\<rparr> \<and> length pt = length (Pt s)
           \<and> (\<forall>i\<le>Ngrid cfg. pt ! i = (\<Sum>j<Ncomp cfg. max 0 (P s ! (i * Ncomp cfg + j))))"
proof -
  let ?C = "Ncomp cfg"
  let ?row = "\<lambda>i. \<Sum>j<?C. max 0 (P s ! (i * ?C + j))"
  let ?body = "\<lambda>i a. fold (\<lambda>j b. b\<lparr>Pt := (Pt b)[i := Pt b ! i + max 0 (P b ! (i * ?C + j))]\<rparr>)
              [0..<?C] (a\<lparr>Pt := (Pt a)[i := 0]\<rparr>)"
  let ?I = "\<lambda>n a. \<exists>pt. a = s\<lparr>Pt := pt\<rparr> \<and> length pt = length (Pt s)
              \<and> (\<forall>i<n. pt ! i = ?row i)"
  have body: "?body i (s\<lparr>Pt := pt\<rparr>) = s\<lparr>Pt := pt[i := ?row i]\<rparr>" if "i < length pt" for i pt
  proof -
    let ?a = "s\<lparr>Pt := pt[i := 0]\<rparr>"
    have "?body i (s\<lparr>Pt := pt\<rparr>)
        = fold (\<lambda>j b. b\<lparr>Pt := (Pt b)[i := Pt b ! i + max 0 (P b ! (i * ?C + j))]\<rparr>) [0..<?C] ?a"
      by simp
    also have "\<dots> = ?a\<lparr>Pt := fold (\<lambda>j ys. ys[i := ys ! i + max 0 (P ?a ! (i * ?C + j))])
                           [0..<?C] (Pt ?a)\<rparr>"
      using fold_Pt_field
        [where h = "\<lambda>j a ys. ys[i := ys ! i + max 0 (P a ! (i * ?C + j))]", of "[0..<?C]" ?a]
      by simp
    also have "\<dots> = s\<lparr>Pt := pt[i := ?row i]\<rparr>"
      using that by (simp add: fold_accumulate)
    finally show ?thesis .
  qed
  have "?I (Ngrid cfg + 1) (fold ?body [0..<Ngrid cfg + 1] s)"
  proof (rule fold_upt_invariant [where I = ?I])
    show "?I 0 s" by (rule exI [of _ "Pt s"]) simp
  next
    fix n a
    assume n: "n < Ngrid cfg + 1" and "?I n a"
    then obtain pt where a: "a = s\<lparr>Pt := pt\<rparr>" and pt: "length pt = length (Pt s)"
      "\<forall>i<n. pt ! i = ?row i" by blast
    have k: "n < length pt" using n pt(1) len by simp
    have "?body n a = s\<lparr>Pt := pt[n := ?row n]\<rparr>" unfolding a by (rule body [OF k])
    moreover have "length (pt[n := ?row n]) = length (Pt s)" using pt(1) by simp
    moreover have "\<forall>i<Suc n. pt[n := ?row n] ! i = ?row i"
      using pt(2) k by (auto simp: nth_list_update less_Suc_eq)
    ultimately show "?I (Suc n) (?body n a)" by blast
  qed simp
  then show ?thesis unfolding init_total_pressure_def by (auto simp: less_Suc_eq_le)
qed


lemma computeInitialPressure_outlet:
  assumes "length p = Ngrid cfg + 1"
  shows "length (computeInitialPressure cfg p T_g) = Ngrid cfg + 1"
    and "computeInitialPressure cfg p T_g ! Ngrid cfg = p_total cfg"
proof -
  let ?I = "\<lambda>a. length a = Ngrid cfg + 1 \<and> a ! Ngrid cfg = p_total cfg"
  have "?I (computeInitialPressure cfg p T_g)"
    unfolding computeInitialPressure_def
  proof (rule fold_invariant [where I = ?I])
    show "?I (p[Ngrid cfg := p_total cfg])" using assms by simp
  next
    fix i a
    assume "i \<in> set (rev [1..<Ngrid cfg + 1])" and "?I a"
    then show "?I (a[i - 1 := a ! i - f_p cfg T_g a i * dx cfg])" by auto
  qed
  then show "length (computeInitialPressure cfg p T_g) = Ngrid cfg + 1"
    and "computeInitialPressure cfg p T_g ! Ngrid cfg = p_total cfg" by simp_all
qed

lemma pt_init_outlet:
  "length (pt_init cfg) = Ngrid cfg + 1" "pt_init cfg ! Ngrid cfg = p_total cfg"
  unfolding pt_init_def by (rule computeInitialPressure_outlet; simp)+

lemma initialize_effect:
  assumes run: "initialize mix cfg s = Inr s'" and sz: "sized cfg s"
    and car: "carrierGasComponent cfg < Ncomp cfg"
  shows "sized cfg s'"
    and "\<forall>k<(Ngrid cfg + 1) * Ncomp cfg. Q s' ! k = 0"
    and "\<forall>j<Ncomp cfg. P s' ! (0 * Ncomp cfg + j) = p_total cfg * Yi0 (components cfg ! j)"
    and "\<forall>i. 1 \<le> i \<and> i \<le> Ngrid cfg \<longrightarrow> (\<forall>j<Ncomp cfg. P s' ! (i * Ncomp cfg + j)
           = (if j = carrierGasComponent cfg then pt_init cfg ! i else 0))"
    and "\<exists>outs. length outs = Ngrid cfg + 1
           \<and> iastPerformance s'
               = fold (\<lambda>out p. pair_add p (out_perf out)) outs (iastPerformance s)
           \<and> (\<forall>i\<le>Ngrid cfg.
                 (\<exists>b1 b2. mix (Yi_i cfg (Yi s') i) (pt_init cfg ! i) b1 b2 = Some (outs ! i)) \<and>
                 (\<forall>j<Ncomp cfg.
                    Qeq s' ! (i * Ncomp cfg + j) = out_Ni (outs ! i) ! j \<and>
                    Yi s' ! (i * Ncomp cfg + j)
                      = clipped cfg (P s') i j / (\<Sum>j'<Ncomp cfg. clipped cfg (P s') i j')))"
    and "\<forall>i\<le>Ngrid cfg. Pt s' ! i = (\<Sum>j<Ncomp cfg. max 0 (P s' ! (i * Ncomp cfg + j)))"
proof -
  let ?C = "Ncomp cfg" and ?N = "(Ngrid cfg + 1) * Ncomp cfg"
  have CN: "?C \<le> ?N" by simp
  from init_prefactor_effect [of cfg s] obtain pf where
    a: "init_prefactor cfg s = s\<lparr>prefactor := pf\<rparr>" "length pf = length (prefactor s)" by blast
  let ?b = "s\<lparr>prefactor := pf, P := replicate ?N 0, Q := replicate ?N 0\<rparr>"
  have b: "init_fill (init_prefactor cfg s) = ?b"
    using sz by (simp add: a init_fill_def sized_def)
  from init_velocity_effect [of cfg ?b] obtain v where
    c: "init_velocity cfg ?b = ?b\<lparr>V := v\<rparr>" "length v = length (V s)" by auto
  let ?c = "?b\<lparr>V := v\<rparr>"
  have "length (P ?c) = ?N" by simp
  from init_carrier_effect [OF car this] obtain p1 where
    d: "init_carrier cfg ?c = ?c\<lparr>P := p1\<rparr>" "length p1 = ?N"
       "\<forall>i\<le>Ngrid cfg. \<forall>j<?C. p1 ! (i * ?C + j)
          = (if 1 \<le> i \<and> j = carrierGasComponent cfg then pt_init cfg ! i
             else replicate ?N 0 ! (i * ?C + j))"
    by auto
  let ?d = "?c\<lparr>P := p1\<rparr>"
  have "?C \<le> length (P ?d)" using d(2) CN by simp
  from init_inlet_effect [OF this] obtain p where
    e: "init_inlet cfg ?d = ?d\<lparr>P := p\<rparr>" "length p = ?N"
       "\<forall>j<?C. p ! j = p_total cfg * Yi0 (components cfg ! j)"
       "\<forall>k\<ge>?C. p ! k = p1 ! k"
    using d(2) by auto
  let ?e = "s\<lparr>prefactor := pf, P := p, Q := replicate ?N 0, V := v\<rparr>"
  have start: "init_inlet cfg (init_carrier cfg (init_velocity cfg
      (init_fill (init_prefactor cfg s)))) = ?e"
    unfolding b unfolding c(1) unfolding d(1) unfolding e(1) by simp
  from run obtain f where
    loop: "foldE (init_node mix cfg) [0..<Ngrid cfg + 1] ?e = Inr f" and
    s': "s' = init_total_pressure cfg f"
    unfolding initialize_def start by (auto simp: bindE_Inr_iff)
  have "init_nodes_done mix cfg ?e (Ngrid cfg + 1) f"
    using loop by (rule init_node_loop) (use sz in \<open>simp_all add: sized_def\<close>)
  then obtain outs y qe xi ni c1 c2 where
    f: "f = ?e\<lparr>iastPerformance := fold (\<lambda>out p. pair_add p (out_perf out)) outs
                                    (iastPerformance ?e),
               Yi := y, Xi := xi, Ni := ni, Qeq := qe, cachedP0 := c1, cachedPsi := c2\<rparr>" and
    fl: "length outs = Ngrid cfg + 1" "length y = length (Yi ?e)" "length qe = length (Qeq ?e)" and
    rows: "\<forall>i<Ngrid cfg + 1.
           (\<exists>b1 b2. mix (Yi_i cfg y i) (pt_init cfg ! i) b1 b2 = Some (outs ! i)) \<and>
           (\<forall>j<?C. y ! (i * ?C + j)
                = clipped cfg (P ?e) i j / (\<Sum>j'<?C. clipped cfg (P ?e) i j') \<and>
              qe ! (i * ?C + j) = out_Ni (outs ! i) ! j)"
    unfolding init_nodes_done_def by blast
  have "length (Pt f) = Ngrid cfg + 1" using sz by (simp add: f sized_def)
  from init_total_pressure_effect [OF this] obtain pt where
    g: "s' = f\<lparr>Pt := pt\<rparr>" "length pt = length (Pt f)"
       "\<forall>i\<le>Ngrid cfg. pt ! i = (\<Sum>j<?C. max 0 (P f ! (i * ?C + j)))"
    unfolding s' by blast
  have fin: "s' = s\<lparr>prefactor := pf, P := p, Q := replicate ?N 0, V := v,
      iastPerformance := fold (\<lambda>out p. pair_add p (out_perf out)) outs (iastPerformance s),
      Yi := y, Xi := xi, Ni := ni, Qeq := qe, cachedP0 := c1, cachedPsi := c2, Pt := pt\<rparr>"
    unfolding g(1) unfolding f by simp
  show "sized cfg s'"
    using sz a(2) c(2) e(2) fl g(2) by (simp add: fin sized_def f)
  show "\<forall>k<?N. Q s' ! k = 0" by (simp add: fin)
  show "\<forall>j<?C. P s' ! (0 * ?C + j) = p_total cfg * Yi0 (components cfg ! j)"
    using e(3) by (simp add: fin)
  show "\<forall>i. 1 \<le> i \<and> i \<le> Ngrid cfg \<longrightarrow> (\<forall>j<?C. P s' ! (i * ?C + j)
           = (if j = carrierGasComponent cfg then pt_init cfg ! i else 0))"
  proof (intro allI impI)
    fix i j assume i: "1 \<le> i \<and> i \<le> Ngrid cfg" and j: "j < ?C"
    then have k: "?C \<le> i * ?C + j" "i * ?C + j < ?N"
      using inlet_row_below [of i ?C j] cell_in_range [of i "Ngrid cfg" j ?C] by simp_all
    with e(4) d(3) i j show "P s' ! (i * ?C + j)
           = (if j = carrierGasComponent cfg then pt_init cfg ! i else 0)"
      by (simp add: fin)
  qed
  show "\<exists>outs. length outs = Ngrid cfg + 1
           \<and> iastPerformance s'
               = fold (\<lambda>out p. pair_add p (out_perf out)) outs (iastPerformance s)
           \<and> (\<forall>i\<le>Ngrid cfg.
                 (\<exists>b1 b2. mix (Yi_i cfg (Yi s') i) (pt_init cfg ! i) b1 b2 = Some (outs ! i)) \<and>
                 (\<forall>j<?C.
                    Qeq s' ! (i * ?C + j) = out_Ni (outs ! i) ! j \<and>
                    Yi s' ! (i * ?C + j)
                      = clipped cfg (P s') i j / (\<Sum>j'<?C. clipped cfg (P s') i j')))"
    by (rule exI [of _ outs]) (use fl(1) rows in \<open>simp add: fin less_Suc_eq_le\<close>)
  show "\<forall>i\<le>Ngrid cfg. Pt s' ! i = (\<Sum>j<?C. max 0 (P s' ! (i * ?C + j)))"
    using g(3) by (simp add: fin f)
qed



section \<open>The claims about computeStep\<close>

lemma garbage_answers: "\<exists>x. garbage g v i = Some x"
  by (simp add: garbage_def)

lemma no_uptake_total: "no_uptake y pt c1 c2 \<noteq> None"
  by (simp add: no_uptake_def)

lemma carrier_only_dims: "Ncomp carrier_only = 1" "Ngrid carrier_only = 1"
  by (simp_all add: Ncomp_def carrier_only_def)











lemma pulsed_carrier_dims: "Ncomp pulsed_carrier = 1" "Ngrid pulsed_carrier = 1"
  by (simp_all add: Ncomp_def pulsed_carrier_def carrier_only_def)

lemma steep_dims: "Ncomp steep = 1" "Ngrid steep = 1"
  by (simp_all add: Ncomp_def steep_def carrier_only_def)

lemma sized_negative_outlet: "sized carrier_only negative_outlet"
  by (simp add: negative_outlet_def filled_def sized_def Breakthrough_def carrier_only_dims)

lemma sized_positive_outlet: "sized steep positive_outlet"
  by (simp add: positive_outlet_def filled_def sized_def Breakthrough_def steep_dims)

lemma demo_run:
  assumes "sized cfg s" and "1 \<le> Ncomp cfg" and "1 \<le> Ngrid cfg"
    and "\<not> Pt s ! 0 + dptdx cfg * L cfg < 0"
  shows "\<exists>s'. computeStep (garbage g) no_uptake cfg step s = Inr s'"
  using assms(1-3) garbage_answers no_uptake_total assms(4) by (rule computeStep_succeeds)

lemma demo_throw:
  assumes "sized cfg s" and "1 \<le> Ncomp cfg" and "1 \<le> Ngrid cfg"
    and "Pt s ! 0 + dptdx cfg * L cfg < 0"
  shows "computeStep (garbage g) no_uptake cfg step s = Inl PressureGradientTooLarge"
  using assms(1-3) garbage_answers no_uptake_total assms(4) by (rule computeStep_throws)

text \<open>
  C6 (pulse boundary condition). In a pulse run, a step whose time \<open>step * dt\<close> exceeds
  \<open>tpulse\<close> ends with the inlet row of \<open>P\<close> at pure carrier: \<open>p_total\<close> for the
  carrier component and 0 for every other component. Against the object \<open>sc\<close> left by
  the six copies, only that row differs: \<open>P\<close> at the flat indices from \<open>Ncomp\<close> on,
  \<open>Yi\<close> and every other member are those of \<open>sc\<close>.
\<close>

theorem pulse_overwrites_inlet_row_only:
  assumes "computeStep pol mix cfg step s = Inr s'" and "sized cfg s"
    and "pulse cfg" and "tpulse cfg < real step * dt cfg"
  shows "\<exists>sc. advance pol mix cfg step s = Inr sc
           \<and> (\<forall>j<Ncomp cfg. P s' ! (0 * Ncomp cfg + j)
                  = (if j = carrierGasComponent cfg then p_total cfg else 0))
           \<and> (\<forall>k\<ge>Ncomp cfg. P s' ! k = P sc ! k)
           \<and> length (P s') = length (P sc)
           \<and> Yi s' = Yi sc
           \<and> s' = sc\<lparr>P := P s'\<rparr>"
proof -
  from computeStep_Inr [OF assms(1,2)] obtain s3 where
    z: "sized cfg s3" and
    adv: "advance pol mix cfg step s =
        Inr (s3\<lparr>Q := Qnew s3, Pt := Ptnew s3, P := Pnew s3, Qeq := Qeqnew s3,
                 V := Vnew s3, Yi := Yinew s3\<rparr>)" and
    s': "s' = pulseBoundary cfg (real step * dt cfg)
             (s3\<lparr>Q := Qnew s3, Pt := Ptnew s3, P := Pnew s3, Qeq := Qeqnew s3,
                 V := Vnew s3, Yi := Yinew s3\<rparr>)"
    by blast
  let ?sc = "s3\<lparr>Q := Qnew s3, Pt := Ptnew s3, P := Pnew s3, Qeq := Qeqnew s3,
                 V := Vnew s3, Yi := Yinew s3\<rparr>"
  have "Ncomp cfg \<le> length (P ?sc)" using z by (simp add: sized_def)
  from pulseBoundary_effect [OF this, of "real step * dt cfg"] assms(3,4) obtain p where
    p: "s' = ?sc\<lparr>P := p\<rparr>" "length p = length (P ?sc)" "\<forall>k\<ge>Ncomp cfg. p ! k = P ?sc ! k"
      "\<forall>j<Ncomp cfg. p ! j = (if j = carrierGasComponent cfg then p_total cfg else 0)"
    unfolding s' by blast
  show ?thesis
  proof (intro exI conjI)
    show "advance pol mix cfg step s = Inr ?sc" by (rule adv)
    show "\<forall>j<Ncomp cfg. P s' ! (0 * Ncomp cfg + j)
        = (if j = carrierGasComponent cfg then p_total cfg else 0)"
      using p(4) by (simp add: p(1))
    show "\<forall>k\<ge>Ncomp cfg. P s' ! k = P ?sc ! k" using p(3) by (simp add: p(1))
    show "length (P s') = length (P ?sc)" using p(2) by (simp add: p(1))
    show "Yi s' = Yi ?sc" by (simp add: p(1))
    show "s' = ?sc\<lparr>P := P s'\<rparr>" by (simp add: p(1))
  qed
qed

theorem pulse_overwrites_inlet_row_only_witness:
  "\<exists>s' sc. computeStep (garbage 0) no_uptake pulsed_carrier 1 (filled pulsed_carrier)
             = Inr s'
        \<and> sized pulsed_carrier (filled pulsed_carrier)
        \<and> pulse pulsed_carrier \<and> tpulse pulsed_carrier < real (1::nat) * dt pulsed_carrier
        \<and> advance (garbage 0) no_uptake pulsed_carrier 1 (filled pulsed_carrier) = Inr sc
        \<and> P s' ! 0 = 100000 \<and> Yi s' = Yi sc \<and> s' = sc\<lparr>P := P s'\<rparr>"
proof -
  have n: "1 \<le> Ncomp pulsed_carrier" "1 \<le> Ngrid pulsed_carrier"
    by (simp_all add: pulsed_carrier_dims)
  have z: "sized pulsed_carrier (filled pulsed_carrier)"
    by (simp add: filled_def sized_def Breakthrough_def pulsed_carrier_dims)
  have "Pt (filled pulsed_carrier) = [100000, 100000]"
    by (simp add: filled_def)
  then have chk: "\<not> Pt (filled pulsed_carrier) ! 0
      + dptdx pulsed_carrier * L pulsed_carrier < 0"
    by (simp add: pulsed_carrier_def carrier_only_def)
  from demo_run [OF z n chk]
  obtain s' where run:
    "computeStep (garbage 0) no_uptake pulsed_carrier 1 (filled pulsed_carrier) = Inr s'"
    by blast
  have pu: "pulse pulsed_carrier" "tpulse pulsed_carrier < real (1::nat) * dt pulsed_carrier"
    by (simp_all add: pulsed_carrier_def carrier_only_def)
  from pulse_overwrites_inlet_row_only [OF run z pu] obtain sc where
    sc: "advance (garbage 0) no_uptake pulsed_carrier 1 (filled pulsed_carrier) = Inr sc"
      "\<forall>j<Ncomp pulsed_carrier. P s' ! (0 * Ncomp pulsed_carrier + j)
                  = (if j = carrierGasComponent pulsed_carrier then p_total pulsed_carrier else 0)"
      "Yi s' = Yi sc" "s' = sc\<lparr>P := P s'\<rparr>"
    by blast
  from sc(2) have "P s' ! 0 = 100000"
    by (simp add: pulsed_carrier_dims) (simp add: pulsed_carrier_def carrier_only_def)
  with run sc(1,3,4) pu z show ?thesis by blast
qed

text \<open>
  C8 (pressure check). As stated the claim fails in both directions: the guard reads
  \<open>Pt[0] + dptdx * L\<close>, not the outlet entry \<open>Pt[Ngrid]\<close>. With a zero prescribed
  gradient a step on an object whose outlet pressure is negative runs to completion; with a
  steep prescribed gradient a step on an object whose pressures are all positive throws.
\<close>

theorem outlet_pressure_check_counterexample:
  "Pt negative_outlet ! Ngrid carrier_only < 0
   \<and> \<not> isl (computeStep (garbage 0) no_uptake carrier_only 0 negative_outlet)
   \<and> 0 \<le> Pt positive_outlet ! Ngrid steep
   \<and> computeStep (garbage 0) no_uptake steep 0 positive_outlet = Inl PressureGradientTooLarge"
proof -
  have n: "1 \<le> Ncomp carrier_only" "1 \<le> Ngrid carrier_only"
    by (simp_all add: carrier_only_dims)
  have m: "1 \<le> Ncomp steep" "1 \<le> Ngrid steep"
    by (simp_all add: steep_dims)
  have neg: "Pt negative_outlet = [100000, - 1]" by (simp add: negative_outlet_def filled_def)
  have pos: "Pt positive_outlet = [100000, 100000]" by (simp add: positive_outlet_def filled_def)
  have chk: "\<not> Pt negative_outlet ! 0 + dptdx carrier_only * L carrier_only < 0"
    by (simp add: neg carrier_only_def)
  have thr: "Pt positive_outlet ! 0 + dptdx steep * L steep < 0"
    by (simp add: pos steep_def carrier_only_def)
  from demo_run [OF sized_negative_outlet n chk, of 0 0]
  have "\<not> isl (computeStep (garbage 0) no_uptake carrier_only 0 negative_outlet)" by auto
  moreover note demo_throw [OF sized_positive_outlet m thr, of 0 0]
  ultimately show ?thesis by (simp add: neg pos carrier_only_dims steep_dims)
qed

text \<open>
  C8, amended. The pressure-gradient error is thrown inside computeEquilibriumLoadings,
  which runs after each of the three stages and before the copies. On an object of the
  constructor's sizes the step ends with that error only if \<open>Pt[0] + dptdx * L < 0\<close> for
  the total pressure left by the previous commit, and whenever that sum is negative the
  step does not complete; it ends with that very error when no read past a vector faults
  and the oracle answers.
\<close>

theorem pressure_check_reads_inlet_plus_gradient:
  assumes "sized cfg s"
  shows "(computeStep pol mix cfg step s = Inl PressureGradientTooLarge
            \<longrightarrow> Pt s ! 0 + dptdx cfg * L cfg < 0)
       \<and> (Pt s ! 0 + dptdx cfg * L cfg < 0 \<longrightarrow> isl (computeStep pol mix cfg step s))
       \<and> (Pt s ! 0 + dptdx cfg * L cfg < 0 \<and> 1 \<le> Ncomp cfg \<and> 1 \<le> Ngrid cfg
            \<and> (\<forall>v. \<exists>x. pol v (Ngrid cfg + 1) = Some x)
            \<and> (\<forall>y pt c1 c2. mix y pt c1 c2 \<noteq> None)
            \<longrightarrow> computeStep pol mix cfg step s = Inl PressureGradientTooLarge)"
proof (intro conjI impI)
  assume "computeStep pol mix cfg step s = Inl PressureGradientTooLarge"
  from computeStep_Inl [OF this assms] show "Pt s ! 0 + dptdx cfg * L cfg < 0" by simp
next
  assume neg: "Pt s ! 0 + dptdx cfg * L cfg < 0"
  show "isl (computeStep pol mix cfg step s)"
  proof (cases "computeStep pol mix cfg step s")
    case (Inl e)
    then show ?thesis by simp
  next
    case (Inr s')
    from computeStep_Inr [OF Inr assms] obtain s1 where
      "stage1 pol mix cfg (autoStepsCheck cfg step s) = Inr s1" by blast
    from stage1_effect(6) [OF this autoStepsCheck_sized [OF assms]] neg
    show ?thesis by (simp add: autoStepsCheck_Pt)
  qed
next
  assume h: "Pt s ! 0 + dptdx cfg * L cfg < 0 \<and> 1 \<le> Ncomp cfg \<and> 1 \<le> Ngrid cfg
            \<and> (\<forall>v. \<exists>x. pol v (Ngrid cfg + 1) = Some x)
            \<and> (\<forall>y pt c1 c2. mix y pt c1 c2 \<noteq> None)"
  show "computeStep pol mix cfg step s = Inl PressureGradientTooLarge"
    by (rule computeStep_throws [OF assms]) (use h in auto)
qed

theorem pressure_check_reads_inlet_plus_gradient_witness:
  "sized steep positive_outlet
   \<and> computeStep (garbage 0) no_uptake steep 0 positive_outlet = Inl PressureGradientTooLarge
   \<and> Pt positive_outlet ! 0 + dptdx steep * L steep < 0
   \<and> isl (computeStep (garbage 0) no_uptake steep 0 positive_outlet)
   \<and> 1 \<le> Ncomp steep \<and> 1 \<le> Ngrid steep
   \<and> (\<forall>v. \<exists>x. garbage 0 v (Ngrid steep + 1) = Some x)
   \<and> (\<forall>y pt c1 c2. no_uptake y pt c1 c2 \<noteq> None)"
proof -
  have thr: "Pt positive_outlet ! 0 + dptdx steep * L steep < 0"
    by (simp add: positive_outlet_def filled_def steep_def carrier_only_def)
  have m: "1 \<le> Ncomp steep" "1 \<le> Ngrid steep"
    by (simp_all add: steep_dims)
  have g: "\<forall>v. \<exists>x. garbage 0 v (Ngrid steep + 1) = Some x"
    by (simp add: garbage_def)
  have u: "\<forall>y pt c1 c2. no_uptake y pt c1 c2 \<noteq> None"
    by (simp add: no_uptake_def)
  from pressure_check_reads_inlet_plus_gradient
    [OF sized_positive_outlet, of "garbage 0" no_uptake 0] thr m g u
  have "computeStep (garbage 0) no_uptake steep 0 positive_outlet = Inl PressureGradientTooLarge"
    by blast
  with thr m g u sized_positive_outlet show ?thesis by simp
qed


lemma cell_index:
  fixes i j n c :: nat
  assumes "i \<le> n" and "j < c"
  shows "i * c + j < (n + 1) * c" and "(i * c + j) div c = i" and "1 \<le> i \<Longrightarrow> c \<le> i * c + j"
  using assms cell_in_range [OF assms] inlet_row_below [of i c j] by simp_all

section \<open>The claims about initialize\<close>

lemma computeInitialPressure_loop:
  assumes "k \<le> Ngrid cfg" and "length p0 = Ngrid cfg + 1"
  shows "length (fold (\<lambda>i a. a[i - 1 := a ! i - f_p cfg T_g a i * dx cfg])
                   (rev [Ngrid cfg + 1 - k..<Ngrid cfg + 1]) p0) = Ngrid cfg + 1
       \<and> (\<forall>i. Ngrid cfg - k < i \<and> i \<le> Ngrid cfg \<longrightarrow>
            fold (\<lambda>i a. a[i - 1 := a ! i - f_p cfg T_g a i * dx cfg])
              (rev [Ngrid cfg + 1 - k..<Ngrid cfg + 1]) p0 ! (i - 1)
            = fold (\<lambda>i a. a[i - 1 := a ! i - f_p cfg T_g a i * dx cfg])
                (rev [Ngrid cfg + 1 - k..<Ngrid cfg + 1]) p0 ! i
              - f_p cfg T_g (fold (\<lambda>i a. a[i - 1 := a ! i - f_p cfg T_g a i * dx cfg])
                  (rev [Ngrid cfg + 1 - k..<Ngrid cfg + 1]) p0) i * dx cfg)"
  using assms
proof (induction k)
  case 0
  then show ?case by simp
next
  case (Suc k)
  let ?F = "\<lambda>i a. a[i - 1 := a ! i - f_p cfg T_g a i * dx cfg]"
  let ?a = "fold ?F (rev [Ngrid cfg + 1 - k..<Ngrid cfg + 1]) p0"
  let ?m = "Ngrid cfg - k"
  from Suc.prems have k: "k \<le> Ngrid cfg" "1 \<le> ?m" by simp_all
  have m: "Ngrid cfg + 1 - Suc k = ?m" "Suc ?m = Ngrid cfg + 1 - k"
    using Suc.prems(1) by simp_all
  have "?m < Ngrid cfg + 1" by simp
  then have "[?m..<Ngrid cfg + 1] = ?m # [Suc ?m..<Ngrid cfg + 1]" by (rule upt_conv_Cons)
  then have "[Ngrid cfg + 1 - Suc k..<Ngrid cfg + 1] = ?m # [Ngrid cfg + 1 - k..<Ngrid cfg + 1]"
    unfolding m .
  then have step: "fold ?F (rev [Ngrid cfg + 1 - Suc k..<Ngrid cfg + 1]) p0 = ?F ?m ?a"
    by simp
  from Suc.IH [OF k(1) Suc.prems(2)] have
    len: "length ?a = Ngrid cfg + 1" and
    rel: "\<forall>i. ?m < i \<and> i \<le> Ngrid cfg \<longrightarrow> ?a ! (i - 1) = ?a ! i - f_p cfg T_g ?a i * dx cfg"
    by simp_all
  have "\<forall>i. Ngrid cfg - Suc k < i \<and> i \<le> Ngrid cfg \<longrightarrow>
      ?F ?m ?a ! (i - 1) = ?F ?m ?a ! i - f_p cfg T_g (?F ?m ?a) i * dx cfg"
  proof (intro allI impI)
    fix i assume i: "Ngrid cfg - Suc k < i \<and> i \<le> Ngrid cfg"
    show "?F ?m ?a ! (i - 1) = ?F ?m ?a ! i - f_p cfg T_g (?F ?m ?a) i * dx cfg"
    proof (cases "i = ?m")
      case True
      then show ?thesis using len k by (simp add: f_p_def)
    next
      case False
      with i Suc.prems(1) have "?m < i" by arith
      with rel i show ?thesis using len k by (simp add: f_p_def)
    qed
  qed
  with len show ?case unfolding step by simp
qed

lemma pt_init_recurrence:
  assumes "1 \<le> i" and "i \<le> Ngrid cfg"
  shows "pt_init cfg ! (i - 1) = pt_init cfg ! i - f_p cfg (T cfg) (pt_init cfg) i * dx cfg"
proof -
  have "length ((replicate (Ngrid cfg + 1) 0)[Ngrid cfg := p_total cfg]) = Ngrid cfg + 1"
    by (simp only: length_list_update length_replicate)
  from computeInitialPressure_loop [OF le_refl this, of "T cfg"] assms show ?thesis
    by (simp add: pt_init_def computeInitialPressure_def)
qed






section \<open>The claims about the mole fractions\<close>

lemma f_p_nonpos:
  assumes "0 \<le> v_in cfg" and "0 < epsilon cfg" and "epsilon cfg \<le> 1" and "0 < T_g"
    and "0 \<le> p ! i"
  shows "f_p cfg T_g p i \<le> 0"
proof -
  have l: "0 \<le> laminar_prefactor cfg"
    using assms(1-3) by (simp add: laminar_prefactor_def mu0_def par_diam_def)
  have t: "0 \<le> turbulent_prefactor cfg"
    using assms(1-3) by (simp add: turbulent_prefactor_def M_def par_diam_def R_def)
  have "0 \<le> laminar_prefactor cfg * (T_g / T_mu0) powr (3 / 2) * (T_mu0 + S) / (T_g + S)"
    using l assms(4) by (simp add: T_mu0_def S_def)
  moreover have "0 \<le> turbulent_prefactor cfg * (p ! i / T_g)"
    using t assms(4,5) by simp
  ultimately show ?thesis by (simp add: f_p_def)
qed

lemma pt_init_lower:
  assumes a: "admissible cfg" and k: "k \<le> Ngrid cfg"
  shows "p_total cfg \<le> pt_init cfg ! (Ngrid cfg - k)"
  using k
proof (induction k)
  case 0
  then show ?case by (simp add: pt_init_outlet)
next
  case (Suc k)
  let ?i = "Ngrid cfg - k"
  from Suc.prems have i: "1 \<le> ?i" "?i \<le> Ngrid cfg" "Ngrid cfg - Suc k = ?i - 1" by simp_all
  from Suc have ih: "p_total cfg \<le> pt_init cfg ! ?i" by simp
  from a have p: "0 \<le> v_in cfg" "0 < epsilon cfg" "epsilon cfg \<le> 1" "0 < T cfg"
    "0 < p_total cfg" "0 \<le> dx cfg"
    by (simp_all add: admissible_def dx_def)
  from p(5) ih have "0 \<le> pt_init cfg ! ?i" by simp
  with p(1-4) have "f_p cfg (T cfg) (pt_init cfg) ?i \<le> 0" by (rule f_p_nonpos)
  with p(6) have "f_p cfg (T cfg) (pt_init cfg) ?i * dx cfg \<le> 0"
    by (simp add: mult_nonpos_nonneg)
  with ih pt_init_recurrence [OF i(1,2)] show ?case unfolding i(3) by simp
qed

lemma pt_init_positive:
  assumes "admissible cfg" and "i \<le> Ngrid cfg"
  shows "0 < pt_init cfg ! i"
proof -
  from assms(2) have "Ngrid cfg - i \<le> Ngrid cfg" "Ngrid cfg - (Ngrid cfg - i) = i" by simp_all
  with pt_init_lower [OF assms(1), of "Ngrid cfg - i"] have "p_total cfg \<le> pt_init cfg ! i"
    by simp
  with assms(1) show ?thesis by (simp add: admissible_def)
qed

lemma initialize_closure:
  assumes run: "initialize mix cfg s = Inr s'" and sz: "sized cfg s" and a: "admissible cfg"
    and i: "i \<le> Ngrid cfg"
  shows "(\<Sum>j<Ncomp cfg. Yi s' ! (i * Ncomp cfg + j)) = 1"
proof -
  let ?C = "Ncomp cfg" and ?c = "clipped cfg (P s') i"
  from a have car: "carrierGasComponent cfg < ?C" by (simp add: admissible_def)
  note e = initialize_effect [OF run sz car]
  from e(5) i have y: "\<forall>j<?C. Yi s' ! (i * ?C + j) = ?c j / (\<Sum>j'<?C. ?c j')" by blast
  have pos: "0 < pt_init cfg ! i" using a i by (rule pt_init_positive)
  have nonneg: "0 \<le> ?c j" for j by (simp add: clipped_def)
  have "\<exists>j<?C. 0 < ?c j"
  proof (cases "1 \<le> i")
    case True
    with e(4) i car have "P s' ! (i * ?C + carrierGasComponent cfg) = pt_init cfg ! i" by simp
    with pos have "0 < ?c (carrierGasComponent cfg)" by (simp add: clipped_def)
    with car show ?thesis by blast
  next
    case False
    then have i0: "i = 0" by simp
    from a obtain j where j: "j < ?C" "0 < Yi0 (components cfg ! j)" "0 < p_total cfg"
      by (auto simp: admissible_def)
    with e(3) have "P s' ! (0 * ?C + j) = p_total cfg * Yi0 (components cfg ! j)" by blast
    with j pos have "0 < ?c j" unfolding i0 by (simp add: clipped_def)
    with j(1) show ?thesis by blast
  qed
  then obtain j where "j \<in> {..<?C}" "0 < ?c j" by auto
  then have "0 < (\<Sum>j'<?C. ?c j')"
    by (rule sum_pos2 [OF finite_lessThan]) (rule nonneg)
  moreover have "(\<Sum>j<?C. Yi s' ! (i * ?C + j)) = (\<Sum>j<?C. ?c j / (\<Sum>j'<?C. ?c j'))"
    using y by simp
  ultimately show ?thesis by (simp add: sum_divide_distrib [symmetric])
qed

lemma computeStep_inlet_row:
  assumes run: "computeStep pol mix cfg step s = Inr s'" and sz: "sized cfg s"
    and g: "1 \<le> Ngrid cfg"
  shows "sized cfg s'" and "\<forall>j<Ncomp cfg. Yi s' ! (0 * Ncomp cfg + j) = Yi s ! (0 * Ncomp cfg + j)"
proof -
  let ?s0 = "autoStepsCheck cfg step s"
  from computeStep_Inr [OF run sz] obtain s1 s2 s3 where
    1: "stage1 pol mix cfg ?s0 = Inr s1" and
    2: "stage2 pol mix cfg s1 = Inr s2" and 3: "stage3 pol mix cfg s2 = Inr s3" and
    z: "sized cfg s1" "sized cfg s2" "sized cfg s3" and
    s': "s' = pulseBoundary cfg (real step * dt cfg)
             (s3\<lparr>Q := Qnew s3, Pt := Ptnew s3, P := Pnew s3, Qeq := Qeqnew s3,
                 V := Vnew s3, Yi := Yinew s3\<rparr>)"
    by blast
  let ?sc = "s3\<lparr>Q := Qnew s3, Pt := Ptnew s3, P := Pnew s3, Qeq := Qeqnew s3,
                 V := Vnew s3, Yi := Yinew s3\<rparr>"
  have z0: "sized cfg ?s0" using sz by (rule autoStepsCheck_sized)
  from autoStepsCheck_effect [of cfg step s] obtain n b where
    s0: "?s0 = s\<lparr>Nsteps := n, autoSteps := b\<rparr>" by blast
  note e1 = stage1_effect [OF 1 z0]
  note e2 = ssp_stage_effect [OF 2 [unfolded stage2_def] z(1)]
  note e3 = ssp_stage_effect [OF 3 [unfolded stage3_def] z(2)]
  have c1: "Yi s1 = Yi s" using e1(2) by (simp add: committed_same_def s0)
  have c2: "Yi s2 = Yi s" using e2(2) c1 by (simp add: committed_same_def)
  have "Ncomp cfg \<le> length (P ?sc)" using z(3) by (simp add: sized_def)
  from pulseBoundary_effect [OF this, of "real step * dt cfg"] obtain p where
    p: "s' = ?sc\<lparr>P := p\<rparr>" "length p = length (P ?sc)"
    unfolding s' by blast
  show "sized cfg s'" using z(3) p(2) by (simp add: p(1) sized_def)
  have d1: "\<forall>k<Ncomp cfg. Dydt s1 ! k = 0"
    using computeFirstDerivatives_inlet_dydt [OF e1(3) g] by (simp add: inlet_dydt_zero_def)
  have d2: "\<forall>k<Ncomp cfg. Dydtnew s2 ! k = 0"
    using computeFirstDerivatives_inlet_dydt [OF e2(3) g] by (simp add: inlet_dydt_zero_def)
  have d3: "\<forall>k<Ncomp cfg. Dydtnew s3 ! k = 0"
    using computeFirstDerivatives_inlet_dydt [OF e3(3) g] by (simp add: inlet_dydt_zero_def)
  show "\<forall>j<Ncomp cfg. Yi s' ! (0 * Ncomp cfg + j) = Yi s ! (0 * Ncomp cfg + j)"
  proof (intro allI impI)
    fix j assume j: "j < Ncomp cfg"
    then have k: "j < (Ngrid cfg + 1) * Ncomp cfg" by simp
    from e1(5) k d1 j have "Yinew s1 ! j = Yi s ! j" by (simp add: s0)
    moreover from e2(5) k d2 j
    have "Yinew s2 ! j = 0.75 * Yi s1 ! j + 0.25 * Yinew s1 ! j" by simp
    moreover from e3(5) k d3 j
    have "Yinew s3 ! j = (1 / 3) * Yi s2 ! j + (2 / 3) * Yinew s2 ! j" by simp
    ultimately have "Yinew s3 ! j = Yi s ! j" by (simp add: c1 c2)
    then show "Yi s' ! (0 * Ncomp cfg + j) = Yi s ! (0 * Ncomp cfg + j)"
      by (simp add: p(1))
  qed
qed

lemma reached_sized:
  assumes "reached pol mix cfg n s" and "admissible cfg"
  shows "sized cfg s \<and> (\<Sum>j<Ncomp cfg. Yi s ! (0 * Ncomp cfg + j)) = 1"
  using assms
proof (induction rule: reached.induct)
  case (start s)
  from start(2) have car: "carrierGasComponent cfg < Ncomp cfg" by (simp add: admissible_def)
  from initialize_effect(1) [OF start(1) sized_Breakthrough car]
    initialize_closure [OF start(1) sized_Breakthrough start(2), of 0]
  show ?case by simp
next
  case (step n s s')
  from step.prems have g: "1 \<le> Ngrid cfg" by (simp add: admissible_def)
  from step.IH [OF step.prems] have sz: "sized cfg s"
    and cl: "(\<Sum>j<Ncomp cfg. Yi s ! (0 * Ncomp cfg + j)) = 1" by simp_all
  from computeStep_inlet_row [OF step.hyps(3) sz g] cl show ?case by simp
qed

lemma dispersive_dims:
  "Ncomp dispersive = 2" "Ngrid dispersive = 1" "carrierGasComponent dispersive = 0"
  by (simp_all add: Ncomp_def dispersive_def carrier_only_def)

lemma pt_init_dispersive:
  "pt_init dispersive
     = [100000 - f_p dispersive 323.15 [0, 100000] 1 * dx dispersive, 100000]"
  by (simp add: pt_init_def computeInitialPressure_def dispersive_dims)
    (simp add: dispersive_def carrier_only_def f_p_def)

lemmas dispersive_values = dispersive_def carrier_only_def f_p_def dx_def laminar_prefactor_def
  turbulent_prefactor_def T_mu0_def S_def mu0_def par_diam_def M_def R_def

lemma dispersive_initialize:
  "initialize henry dispersive (Breakthrough dispersive) = Inr dispersive_start"
  by (simp add: initialize_def init_prefactor_def init_fill_def init_velocity_def
      init_carrier_def init_inlet_def init_node_def init_clip_def init_normalise_def
      init_total_pressure_def predictMixture_at_def Yi_i_def block_def put_block_def
      Breakthrough_def pair_add_def Let_def dispersive_dims henry_def pt_init_dispersive
      eval_nat_numeral dispersive_start_def)
    (simp add: dispersive_values)

lemma dispersive_fields:
  "components dispersive = [\<lparr>Yi0 = 0.6, Kl = 0, D = 0\<rparr>, \<lparr>Yi0 = 0.4, Kl = 0.1, D = 0.001\<rparr>]"
  "dt dispersive = 0.01" "dptdx dispersive = 0" "L dispersive = 0.3" "v_in dispersive = 0.1"
  "pulse dispersive = False" "autoNumberOfTimeSteps dispersive = False"
  "maxIsothermTerms dispersive = 1" "numberOfTimeSteps dispersive = 10"
  by (simp_all add: dispersive_def carrier_only_def)

text \<open>Under a uniform total pressure the root computeVelocity takes is zero.\<close>

lemma uniform_velocity:
  assumes "pt ! i = pt ! (i - 1)" and "0 \<le> term_b cfg T_g"
  shows "explicit_velocity cfg T_g pt i = 0"
  using assms by (simp add: explicit_velocity_def discriminant_def term_c_def)

lemma dispersive_velocity:
  "explicit_velocity dispersive (T dispersive) [100000, 100000] (Suc 0) = 0"
  by (rule uniform_velocity) (simp_all add: term_b_def dispersive_values)

lemmas cfd_defs = computeFirstDerivatives_def cfd_first_def cfd_middle_def cfd_last_def
  cfd_sum_last_def cfd_last_body_def rd_def wr_def garbage_def

lemmas henry_defs = computeEquilibriumLoadings_def cel_node_def predictMixture_at_def Yi_i_def
  block_def put_block_def pair_add_def henry_def

text \<open>
  The first step on \<open>dispersive_start\<close>, the word past \<open>V\<close> and \<open>Vnew\<close> reading 0. At
  the outlet node the dispersion term enters the second component only, and the mole
  fractions of the node end at about \<open>0.99978\<close> and \<open>0.00027\<close>.
\<close>

lemma dispersive_step:
  "\<exists>s'. computeStep (garbage 0) henry dispersive 0 dispersive_start = Inr s'
      \<and> 1.00001 < Yi s' ! 2 + Yi s' ! 3 \<and> Yi s' ! 0 + Yi s' ! 1 = 1
      \<and> 0 < Yi s' ! 3 \<and> 0 < Pt s' ! 1 \<and> Pt s' ! 0 < Pt s' ! 1"
  apply (simp add: computeStep_def advance_def autoStepsCheck_def dispersive_start_def
      Breakthrough_def dispersive_dims dispersive_fields eval_nat_numeral)
  apply (simp add: stage1_def derivatives_stage1_def dispersive_dims cfd_defs dispersive_fields
      eval_nat_numeral)
  apply (simp add: rk1_update_def rk1_node_def rk1_cell_def dispersive_dims Let_def
      eval_nat_numeral)
  apply (simp add: henry_defs dispersive_dims dispersive_fields eval_nat_numeral)
  apply (simp add: computeVelocity_def dispersive_dims Let_def dispersive_velocity
      dispersive_fields)
  apply (simp add: stage2_def ssp_stage_def derivatives_new_def dispersive_dims cfd_defs
      dispersive_fields eval_nat_numeral)
  apply (simp add: ssp_update_def ssp_node_def ssp_cell_def dispersive_dims Let_def
      eval_nat_numeral)
  apply (simp add: henry_defs dispersive_dims dispersive_fields eval_nat_numeral)
  apply (simp add: computeVelocity_def dispersive_dims Let_def dispersive_velocity
      dispersive_fields)
  apply (simp add: stage3_def ssp_stage_def derivatives_new_def dispersive_dims cfd_defs
      dispersive_fields eval_nat_numeral)
  apply (simp add: ssp_update_def ssp_node_def ssp_cell_def dispersive_dims Let_def
      eval_nat_numeral)
  apply (simp add: henry_defs dispersive_dims dispersive_fields eval_nat_numeral)
  apply (simp add: computeVelocity_def dispersive_dims Let_def dispersive_velocity
      dispersive_fields)
  apply (simp add: commit_def std_copy_def pulseBoundary_def dispersive_fields)
  apply (simp add: R_def idx_def idx2_def dx_def dispersive_dims dispersive_fields
      pt_init_dispersive)
  apply (simp add: dispersive_values)
  done

text \<open>computeFirstDerivatives on a column of one cell with one component.\<close>

lemma cfd_one_cell:
  assumes "Ncomp cfg = 1" and "Ngrid cfg = 1"
  shows "computeFirstDerivatives (garbage g) cfg [pf] ([a0, a1], [b0, b1], [c0, c1])
           [qe0, qe1] [q0, q1] [v0, v1] [p0, p1] [y0, y1]
       = Inr ([Kl (components cfg ! 0) * (qe0 - q0), Kl (components cfg ! 0) * (qe1 - q1)],
              [- v0 * (p1 - p0) * idx cfg - p0 * (v1 - v0) * idx cfg - pf * (qe0 - q0),
               - p1 * (g - v1) * idx cfg - pf * (qe1 - q1)],
              [0, D (components cfg ! 0) * (- y1 + y0 + (p1 - p0) * (y1 - y0) / p1) * idx2 cfg
                  - v1 * (y1 - y0) * idx cfg + pf * (qe1 - q1) / p1 - (qe1 - q1) / p1])"
  by (simp add: computeFirstDerivatives_def cfd_first_def cfd_middle_def cfd_last_def
      cfd_sum_last_def cfd_last_body_def rd_def wr_def garbage_def assms)

lemma admissible_dispersive: "admissible dispersive"
  by (simp add: admissible_def dispersive_dims eval_nat_numeral)
    (auto simp: dispersive_def carrier_only_def less_Suc_eq)

lemma sized_dispersive_start: "sized dispersive dispersive_start"
  by (simp add: sized_def dispersive_start_def Breakthrough_def dispersive_dims)

lemma dispersive_reached:
  "reached (garbage 0) henry dispersive 0 dispersive_start"
  "\<exists>s'. reached (garbage 0) henry dispersive 1 s' \<and> 1.00001 < Yi s' ! 2 + Yi s' ! 3"
proof -
  show 0: "reached (garbage 0) henry dispersive 0 dispersive_start"
    using dispersive_initialize by (rule reached.start)
  from dispersive_step obtain s' where
    s': "computeStep (garbage 0) henry dispersive 0 dispersive_start = Inr s'"
        "1.00001 < Yi s' ! 2 + Yi s' ! 3" by blast
  have "0 < Nsteps dispersive_start \<or> autoSteps dispersive_start"
    by (simp add: dispersive_start_def Breakthrough_def dispersive_fields)
  with 0 have "reached (garbage 0) henry dispersive (Suc 0) s'"
    using s'(1) by (rule reached.step)
  with s'(2) show "\<exists>s'. reached (garbage 0) henry dispersive 1 s' \<and> 1.00001 < Yi s' ! 2 + Yi s' ! 3"
    by auto
qed

lemma dispersive_row:
  "(\<Sum>j<Ncomp dispersive. y ! (i * Ncomp dispersive + j)) = y ! (i * 2) + y ! (i * 2 + 1)"
  by (simp add: dispersive_dims eval_nat_numeral)

text \<open>
  C3 (mole-fraction closure). The claim fails for the steps. At a node \<open>i \<ge> 1\<close> the
  derivatives \<open>dydt\<close> of a row do not add up to zero: the dispersion term is weighted by
  each component's own \<open>D\<close>, and the same \<open>sum\<close> is added to every component while
  \<open>(q_eq - q) / p\<close> is subtracted. On the one-cell binary column, started by initialize
  and with no uptake of the carrier, the first step leaves the mole fractions of node 1
  adding up to more than \<open>1.00001\<close>.
\<close>

theorem closure_not_preserved_counterexample:
  "\<exists>s. reached (garbage 0) henry dispersive 1 s \<and> admissible dispersive
      \<and> \<not> \<bar>(\<Sum>j<Ncomp dispersive. Yi s ! (1 * Ncomp dispersive + j)) - 1\<bar> < 1 / 10 ^ 8"
proof -
  from dispersive_reached(2) obtain s where
    s: "reached (garbage 0) henry dispersive 1 s" "1.00001 < Yi s ! 2 + Yi s ! 3" by blast
  from s(2) have "\<not> \<bar>(\<Sum>j<Ncomp dispersive. Yi s ! (1 * Ncomp dispersive + j)) - 1\<bar> < 1 / 10 ^ 8"
    using dispersive_row [of "Yi s" 1] by simp
  with s(1) admissible_dispersive show ?thesis by blast
qed

text \<open>
  C3, as the code has it. For an admissible configuration the mole fractions of every node
  add up to 1 when initialize returns, and those of the inlet node still add up to 1
  after every completed step of the run: \<open>dydt\<close> is zero on the inlet row, so the three
  stages leave \<open>Yi[0 * Ncomp + j]\<close> as it was.
\<close>

theorem closure_at_start_and_inlet:
  assumes "reached pol mix cfg n s" and "admissible cfg"
  shows "(n = 0 \<longrightarrow>
           (\<forall>i\<le>Ngrid cfg. \<bar>(\<Sum>j<Ncomp cfg. Yi s ! (i * Ncomp cfg + j)) - 1\<bar> < 1 / 10 ^ 8))
       \<and> \<bar>(\<Sum>j<Ncomp cfg. Yi s ! (0 * Ncomp cfg + j)) - 1\<bar> < 1 / 10 ^ 8"
proof -
  have "\<forall>i\<le>Ngrid cfg. \<bar>(\<Sum>j<Ncomp cfg. Yi s ! (i * Ncomp cfg + j)) - 1\<bar> < 1 / 10 ^ 8"
    if "n = 0"
  proof -
    from assms(1) that have "initialize mix cfg (Breakthrough cfg) = Inr s"
      by (cases rule: reached.cases) simp_all
    from initialize_closure [OF this sized_Breakthrough assms(2)] show ?thesis by simp
  qed
  moreover from reached_sized [OF assms]
  have "\<bar>(\<Sum>j<Ncomp cfg. Yi s ! (0 * Ncomp cfg + j)) - 1\<bar> < 1 / 10 ^ 8" by simp
  ultimately show ?thesis by blast
qed

theorem closure_at_start_and_inlet_witness:
  "\<exists>s. reached (garbage 0) henry dispersive 1 s \<and> admissible dispersive
      \<and> \<bar>(\<Sum>j<Ncomp dispersive. Yi s ! (0 * Ncomp dispersive + j)) - 1\<bar> < 1 / 10 ^ 8
      \<and> reached (garbage 0) henry dispersive 0 dispersive_start
      \<and> \<bar>(\<Sum>j<Ncomp dispersive. Yi dispersive_start ! (0 * Ncomp dispersive + j)) - 1\<bar>
           < 1 / 10 ^ 8
      \<and> \<bar>(\<Sum>j<Ncomp dispersive. Yi dispersive_start ! (1 * Ncomp dispersive + j)) - 1\<bar>
           < 1 / 10 ^ 8"
proof -
  from dispersive_reached(2) obtain s where
    s: "reached (garbage 0) henry dispersive 1 s" by blast
  from closure_at_start_and_inlet [OF s admissible_dispersive]
  have 1: "\<bar>(\<Sum>j<Ncomp dispersive. Yi s ! (0 * Ncomp dispersive + j)) - 1\<bar> < 1 / 10 ^ 8"
    by simp
  from closure_at_start_and_inlet [OF dispersive_reached(1) admissible_dispersive]
  have 0: "\<forall>i\<le>Ngrid dispersive.
      \<bar>(\<Sum>j<Ncomp dispersive. Yi dispersive_start ! (i * Ncomp dispersive + j)) - 1\<bar>
        < 1 / 10 ^ 8"
    by simp
  have g: "0 \<le> Ngrid dispersive" "1 \<le> Ngrid dispersive" by (simp_all add: dispersive_dims)
  from 0 [rule_format, OF g(1)] 0 [rule_format, OF g(2)] s 1 dispersive_reached(1)
    admissible_dispersive
  show ?thesis by blast
qed

section \<open>The remaining claims about computeStep and its callees\<close>

text \<open>
  C5 (inlet pressure derivative). The claim fails: the inlet equation of
  computeFirstDerivatives keeps the convective term \<open>- v[0] * (p[1] - p[0]) * idx\<close>. With
  a uniform velocity and \<open>q = q_eq\<close> the divergence and the sink vanish, and on the
  pressures \<open>[1, 2]\<close> the function still writes \<open>dpdt[0] = - 10 / 3\<close>.
\<close>

theorem inlet_convective_term_counterexample:
  "\<exists>dq dp dy.
     computeFirstDerivatives (garbage 0) carrier_only [0] ([0, 0], [0, 0], [0, 0])
        [0, 0] [0, 0] [1, 1] [1, 2] [1, 1] = Inr (dq, dp, dy)
     \<and> dp ! 0 = - 10 / 3"
  by (simp add: cfd_one_cell carrier_only_dims idx_def dx_def)
    (simp add: carrier_only_def)

text \<open>
  C5, as the code has it. \<open>dpdt[0]\<close> is the sum of the convective term, the
  velocity-divergence term and the sink of the last component (the assignment is repeated
  for every \<open>j\<close>, the last one stays).
\<close>

theorem inlet_dpdt_has_convective_term:
  assumes "computeFirstDerivatives pol cfg pf d q_eq q v p y = Inr (dq', dp', dy')"
    and "1 \<le> Ncomp cfg" and "1 \<le> Ngrid cfg"
    and "2 \<le> length v" and "2 \<le> length p" and "Ncomp cfg \<le> length pf"
    and "Ncomp cfg \<le> length q_eq" and "Ncomp cfg \<le> length q"
  shows "dp' ! 0 = - v ! 0 * (p ! 1 - p ! 0) * idx cfg - p ! 0 * (v ! 1 - v ! 0) * idx cfg
            - pf ! (Ncomp cfg - 1) * (q_eq ! (Ncomp cfg - 1) - q ! (Ncomp cfg - 1))"
  using computeFirstDerivatives_inlet_dpdt [OF assms] by (simp add: dpdt0_is_def)

theorem inlet_dpdt_has_convective_term_witness:
  "computeFirstDerivatives (garbage 0) carrier_only [2] ([0, 0], [0, 0], [0, 0])
        [5, 0] [1, 0] [1, 4] [1, 2] [1, 1]
     = Inr ([0, 0], [- 1 * (2 - 1) * idx carrier_only - 1 * (4 - 1) * idx carrier_only - 2 * (5 - 1),
                     - 2 * (0 - 4) * idx carrier_only], [0, 0])
   \<and> 1 \<le> Ncomp carrier_only \<and> 1 \<le> Ngrid carrier_only
   \<and> [- 1 * (2 - 1) * idx carrier_only - 1 * (4 - 1) * idx carrier_only - 2 * (5 - 1),
       - 2 * (0 - 4) * idx carrier_only] ! 0
      = - [1, 4] ! 0 * ([1, 2] ! 1 - [1, 2] ! 0) * idx carrier_only
        - [1, 2] ! 0 * ([1, 4] ! 1 - [1, 4] ! 0) * idx carrier_only
        - [2] ! (Ncomp carrier_only - 1)
            * ([5, 0] ! (Ncomp carrier_only - 1) - [1, 0] ! (Ncomp carrier_only - 1))"
proof -
  have run: "computeFirstDerivatives (garbage 0) carrier_only [2] ([0, 0], [0, 0], [0, 0])
        [5, 0] [1, 0] [1, 4] [1, 2] [1, 1]
     = Inr ([0, 0], [- 1 * (2 - 1) * idx carrier_only - 1 * (4 - 1) * idx carrier_only - 2 * (5 - 1),
                     - 2 * (0 - 4) * idx carrier_only], [0, 0])"
    by (simp add: cfd_one_cell carrier_only_dims) (simp add: carrier_only_def)
  have n: "1 \<le> Ncomp carrier_only" "1 \<le> Ngrid carrier_only"
    by (simp_all add: carrier_only_dims)
  from inlet_dpdt_has_convective_term [OF run n] run n show ?thesis
    by (simp add: carrier_only_dims)
qed

lemma binary_dims: "Ncomp binary = 2" "Ngrid binary = 1"
  by (simp_all add: Ncomp_def binary_def carrier_only_def)

lemma sized_binary_feed: "sized binary binary_feed"
  by (simp add: sized_def binary_feed_def Breakthrough_def binary_dims)

text \<open>
  C10 (the pressure handed to computeFirstDerivatives). The claim fails at stage 1: the
  call there passes the member \<open>P\<close>, the partial pressures in the flat layout of length
  \<open>(Ngrid + 1) * Ncomp\<close>, where stages 2 and 3 pass \<open>Ptnew\<close>. The stencil's \<open>p[0]\<close> and
  \<open>p[1]\<close> are then \<open>P[0 * Ncomp + 0]\<close> and \<open>P[0 * Ncomp + 1]\<close>, and the inlet entry of
  \<open>Dpdt\<close> after stage 1 is built from them.
\<close>

theorem stage1_hands_partial_pressures:
  assumes "computeStep pol mix cfg step s = Inr s'" and "sized cfg s"
    and "1 \<le> Ncomp cfg" and "1 \<le> Ngrid cfg"
  shows "\<exists>s1. stage1 pol mix cfg (autoStepsCheck cfg step s) = Inr s1
      \<and> computeFirstDerivatives pol cfg (prefactor s) (Dqdt s, Dpdt s, Dydt s)
           (Qeq s) (Q s) (V s) (P s) (Yi s) = Inr (Dqdt s1, Dpdt s1, Dydt s1)
      \<and> length (P s) = (Ngrid cfg + 1) * Ncomp cfg
      \<and> Dpdt s1 ! 0 = - V s ! 0 * (P s ! 1 - P s ! 0) * idx cfg
                        - P s ! 0 * (V s ! 1 - V s ! 0) * idx cfg
                        - prefactor s ! (Ncomp cfg - 1)
                            * (Qeq s ! (Ncomp cfg - 1) - Q s ! (Ncomp cfg - 1))"
proof -
  let ?s0 = "autoStepsCheck cfg step s"
  from computeStep_Inr [OF assms(1,2)] obtain s1 where
    1: "stage1 pol mix cfg ?s0 = Inr s1" by blast
  have z0: "sized cfg ?s0" using assms(2) by (rule autoStepsCheck_sized)
  from autoStepsCheck_effect [of cfg step s] obtain n b where
    s0: "?s0 = s\<lparr>Nsteps := n, autoSteps := b\<rparr>" by blast
  from stage1_effect(3) [OF 1 z0]
  have cfd: "computeFirstDerivatives pol cfg (prefactor s) (Dqdt s, Dpdt s, Dydt s)
           (Qeq s) (Q s) (V s) (P s) (Yi s) = Inr (Dqdt s1, Dpdt s1, Dydt s1)"
    by (simp add: s0)
  have c: "Ncomp cfg \<le> (Ngrid cfg + 1) * Ncomp cfg" by simp
  have "2 * 1 \<le> (Ngrid cfg + 1) * Ncomp cfg"
    using assms(3,4) by (intro mult_le_mono) simp_all
  with assms(2) c have len: "2 \<le> length (V s)" "2 \<le> length (P s)"
    "Ncomp cfg \<le> length (prefactor s)" "Ncomp cfg \<le> length (Qeq s)"
    "Ncomp cfg \<le> length (Q s)" "length (P s) = (Ngrid cfg + 1) * Ncomp cfg"
    using assms(4) by (simp_all add: sized_def)
  from computeFirstDerivatives_inlet_dpdt [OF cfd assms(3,4) len(1-5)]
  have "Dpdt s1 ! 0 = - V s ! 0 * (P s ! 1 - P s ! 0) * idx cfg
                        - P s ! 0 * (V s ! 1 - V s ! 0) * idx cfg
                        - prefactor s ! (Ncomp cfg - 1)
                            * (Qeq s ! (Ncomp cfg - 1) - Q s ! (Ncomp cfg - 1))"
    by (simp add: dpdt0_is_def)
  with 1 cfd len(6) show ?thesis by blast
qed

theorem stage1_hands_partial_pressures_witness:
  "\<exists>s' s1. computeStep (garbage 0) no_uptake binary 0 binary_feed = Inr s'
      \<and> sized binary binary_feed \<and> 1 \<le> Ncomp binary \<and> 1 \<le> Ngrid binary
      \<and> stage1 (garbage 0) no_uptake binary (autoStepsCheck binary 0 binary_feed) = Inr s1
      \<and> length (P binary_feed) = 4 \<and> length (Pt binary_feed) = 2
      \<and> Dpdt s1 ! 0 = 20000 / 3
      \<and> - V binary_feed ! 0 * (Pt binary_feed ! 1 - Pt binary_feed ! 0) * idx binary
          - Pt binary_feed ! 0 * (V binary_feed ! 1 - V binary_feed ! 0) * idx binary
          - prefactor binary_feed ! (Ncomp binary - 1)
              * (Qeq binary_feed ! (Ncomp binary - 1) - Q binary_feed ! (Ncomp binary - 1)) = 0"
proof -
  have n: "1 \<le> Ncomp binary" "1 \<le> Ngrid binary" by (simp_all add: binary_dims)
  have chk: "\<not> Pt binary_feed ! 0 + dptdx binary * L binary < 0"
    by (simp add: binary_feed_def binary_def carrier_only_def)
  from demo_run [OF sized_binary_feed n chk] obtain s' where
    run: "computeStep (garbage 0) no_uptake binary 0 binary_feed = Inr s'" by blast
  from stage1_hands_partial_pressures [OF run sized_binary_feed n] obtain s1 where
    s1: "stage1 (garbage 0) no_uptake binary (autoStepsCheck binary 0 binary_feed) = Inr s1"
      "Dpdt s1 ! 0 = - V binary_feed ! 0 * (P binary_feed ! 1 - P binary_feed ! 0) * idx binary
                        - P binary_feed ! 0 * (V binary_feed ! 1 - V binary_feed ! 0) * idx binary
                        - prefactor binary_feed ! (Ncomp binary - 1)
                            * (Qeq binary_feed ! (Ncomp binary - 1)
                               - Q binary_feed ! (Ncomp binary - 1))"
    by blast
  have v: "Dpdt s1 ! 0 = 20000 / 3"
    unfolding s1(2)
    by (simp add: binary_feed_def Breakthrough_def binary_dims idx_def dx_def)
      (simp add: binary_def carrier_only_def)
  have l: "length (P binary_feed) = 4" "length (Pt binary_feed) = 2"
    by (simp_all add: binary_feed_def)
  have z: "- V binary_feed ! 0 * (Pt binary_feed ! 1 - Pt binary_feed ! 0) * idx binary
          - Pt binary_feed ! 0 * (V binary_feed ! 1 - V binary_feed ! 0) * idx binary
          - prefactor binary_feed ! (Ncomp binary - 1)
              * (Qeq binary_feed ! (Ncomp binary - 1) - Q binary_feed ! (Ncomp binary - 1)) = 0"
    by (simp add: binary_feed_def Breakthrough_def binary_dims)
  from run sized_binary_feed n s1(1) l v z show ?thesis by blast
qed





section \<open>The operators of the three stages\<close>

lemma fold_Qeqnew_field:
  assumes "\<And>j a y. h j (a\<lparr>Qeqnew := y\<rparr>) = h j a"
  shows "fold (\<lambda>j a. a\<lparr>Qeqnew := h j a (Qeqnew a)\<rparr>) js s
       = s\<lparr>Qeqnew := fold (\<lambda>j. h j s) js (Qeqnew s)\<rparr>"
proof (induction js arbitrary: s)
  case Nil
  show ?case by simp
next
  case (Cons j js)
  have "(\<lambda>j'. h j' (s\<lparr>Qeqnew := h j s (Qeqnew s)\<rparr>)) = (\<lambda>j'. h j' s)"
    by (rule ext) (rule assms)
  then show ?case by (simp add: Cons)
qed

lemma cel_Qeqnew_loop:
  assumes "i * Ncomp cfg + Ncomp cfg \<le> length (Qeqnew a)"
  shows "\<exists>qe. fold (\<lambda>j a. a\<lparr>Qeqnew := (Qeqnew a)[i * Ncomp cfg + j := Ni a ! j]\<rparr>)
                 [0..<Ncomp cfg] a = a\<lparr>Qeqnew := qe\<rparr>
         \<and> length qe = length (Qeqnew a)
         \<and> (\<forall>j<Ncomp cfg. qe ! (i * Ncomp cfg + j) = Ni a ! j)
         \<and> (\<forall>k. k < i * Ncomp cfg \<or> i * Ncomp cfg + Ncomp cfg \<le> k \<longrightarrow> qe ! k = Qeqnew a ! k)"
proof -
  let ?b = "i * Ncomp cfg"
  let ?h = "\<lambda>j ys. ys[?b + j := (\<lambda>j v. Ni a ! j) j (ys ! (?b + j))]"
  have e: "fold (\<lambda>j a. a\<lparr>Qeqnew := (Qeqnew a)[?b + j := Ni a ! j]\<rparr>) [0..<Ncomp cfg] a
      = a\<lparr>Qeqnew := fold ?h [0..<Ncomp cfg] (Qeqnew a)\<rparr>"
    using fold_Qeqnew_field [where h = "\<lambda>j a ys. ys[?b + j := Ni a ! j]", of "[0..<Ncomp cfg]" a]
    by simp
  note r = fold_row [OF assms, where g = "\<lambda>j v. Ni a ! j"]
  show ?thesis
    by (rule exI [of _ "fold ?h [0..<Ncomp cfg] (Qeqnew a)"]) (use e r in auto)
qed

text \<open>One pass of the node loop of computeEquilibriumLoadings, started in \<open>s\<close>.\<close>

lemma cel_node_step:
  assumes fr: "oracle_frame s a"
    and old: "\<forall>i<n. \<exists>out b1 b2. mix (Yi_i cfg (Yi s) i) (Pt s ! i) b1 b2 = Some out \<and>
                (\<forall>j<Ncomp cfg. Qeqnew a ! (i * Ncomp cfg + j) = out_Ni out ! j)"
    and run: "cel_node mix cfg n a = Inr b"
    and len: "n * Ncomp cfg + Ncomp cfg \<le> length (Qeqnew s)"
  shows "oracle_frame s b \<and>
         (\<forall>i<Suc n. \<exists>out b1 b2. mix (Yi_i cfg (Yi s) i) (Pt s ! i) b1 b2 = Some out \<and>
                (\<forall>j<Ncomp cfg. Qeqnew b ! (i * Ncomp cfg + j) = out_Ni out ! j))"
proof -
  let ?C = "Ncomp cfg"
  from run obtain a1 where
    a1: "predictMixture_at mix cfg n (Pt a ! n) a = Inr a1" and
    b: "b = fold (\<lambda>j u. u\<lparr>Qeqnew := (Qeqnew u)[n * ?C + j := Ni u ! j]\<rparr>) [0..<?C] a1"
    unfolding cel_node_def by (auto simp: bindE_Inr_iff)
  from fr have sa: "Yi a = Yi s" "Pt a = Pt s" "length (Qeqnew a) = length (Qeqnew s)"
    unfolding oracle_frame_def by auto
  from predictMixture_at_Inr [OF a1] obtain out where
    o: "mix (Yi_i cfg (Yi a) n) (Pt a ! n)
          (block (cachedP0 a) (n * Ncomp cfg * maxIsothermTerms cfg)
             (Ncomp cfg * maxIsothermTerms cfg))
          (block (cachedPsi a) (n * maxIsothermTerms cfg) (maxIsothermTerms cfg)) = Some out"
       "a1 = a\<lparr>iastPerformance := pair_add (iastPerformance a) (out_perf out),
            Xi := out_Xi out, Ni := out_Ni out,
            cachedP0 := put_block (cachedP0 a) (n * Ncomp cfg * maxIsothermTerms cfg) (out_P0 out),
            cachedPsi := put_block (cachedPsi a) (n * maxIsothermTerms cfg) (out_Psi out)\<rparr>"
    by blast
  from o(1) have mx: "\<exists>b1 b2. mix (Yi_i cfg (Yi s) n) (Pt s ! n) b1 b2 = Some out"
    unfolding sa by blast
  have a1': "Ni a1 = out_Ni out" "Qeqnew a1 = Qeqnew a" by (simp_all add: o(2))
  have "n * ?C + ?C \<le> length (Qeqnew a1)" using len by (simp add: a1' sa)
  from cel_Qeqnew_loop [OF this] obtain qe where
    qe: "b = a1\<lparr>Qeqnew := qe\<rparr>" "\<forall>j<?C. qe ! (n * ?C + j) = Ni a1 ! j"
        "\<forall>k. k < n * ?C \<or> n * ?C + ?C \<le> k \<longrightarrow> qe ! k = Qeqnew a1 ! k"
    unfolding b by blast
  have new: "\<exists>out b1 b2. mix (Yi_i cfg (Yi s) i) (Pt s ! i) b1 b2 = Some out \<and>
                (\<forall>j<?C. Qeqnew b ! (i * ?C + j) = out_Ni out ! j)" if i: "i < Suc n" for i
  proof (cases "i = n")
    case True
    with mx qe(2) show ?thesis by (auto simp: qe(1) a1')
  next
    case False
    with i have lt: "i < n" by simp
    have "qe ! (i * ?C + j) = Qeqnew a ! (i * ?C + j)" if "j < ?C" for j
      using qe(3) row_below [OF lt that] by (simp add: a1')
    with old lt show ?thesis by (simp add: qe(1))
  qed
  from run fr have "oracle_frame s b" by (rule cel_node_frame)
  with new show ?thesis by blast
qed

lemma computeEquilibriumLoadings_values:
  assumes run: "computeEquilibriumLoadings mix cfg s = Inr t"
    and len: "length (Qeqnew s) = (Ngrid cfg + 1) * Ncomp cfg"
  shows "\<forall>i\<le>Ngrid cfg. \<exists>out b1 b2. mix (Yi_i cfg (Yi s) i) (Pt s ! i) b1 b2 = Some out \<and>
            (\<forall>j<Ncomp cfg. Qeqnew t ! (i * Ncomp cfg + j) = out_Ni out ! j)"
proof -
  let ?I = "\<lambda>n a. oracle_frame s a \<and>
      (\<forall>i<n. \<exists>out b1 b2. mix (Yi_i cfg (Yi s) i) (Pt s ! i) b1 b2 = Some out \<and>
                (\<forall>j<Ncomp cfg. Qeqnew a ! (i * Ncomp cfg + j) = out_Ni out ! j))"
  from run obtain t1 where
    loop: "foldE (cel_node mix cfg) [0..<Ngrid cfg + 1] s = Inr t1" and
    chk: "(if Pt t1 ! 0 + dptdx cfg * L cfg < 0 then Inl PressureGradientTooLarge else Inr t1)
            = Inr t"
    unfolding computeEquilibriumLoadings_def by (auto simp: bindE_Inr_iff)
  from chk have t: "t = t1" by (auto split: if_splits)
  have "?I (Ngrid cfg + 1) t1"
  proof (rule foldE_upt_invariant [OF loop, where I = ?I])
    show "?I 0 s" by (simp add: oracle_frame_refl)
  next
    fix k a b
    assume k: "0 \<le> k" "k < Ngrid cfg + 1" and inv: "?I k a" and st: "cel_node mix cfg k a = Inr b"
    have "(k + 1) * Ncomp cfg \<le> (Ngrid cfg + 1) * Ncomp cfg"
      using k(2) by (intro mult_le_mono1) simp
    then have "k * Ncomp cfg + Ncomp cfg \<le> length (Qeqnew s)" by (simp add: len)
    with inv st show "?I (Suc k) b" by (intro cel_node_step) blast+
  qed simp
  then show ?thesis by (simp add: t less_Suc_eq_le)
qed

lemma stage_recomputed:
  assumes re: "\<exists>u e. computeEquilibriumLoadings mix cfg u = Inr e \<and> Yi u = Yi s \<and> Pt u = Pt s
           \<and> Qeqnew t = Qeqnew e \<and> Pt e = Pt s \<and> t = computeVelocity cfg (T cfg) e"
    and sz: "sized cfg t" and g: "1 \<le> Ngrid cfg"
  shows "recomputed_from_committed mix cfg s t"
proof -
  from re obtain u e where
    e: "computeEquilibriumLoadings mix cfg u = Inr e" and
    u: "Yi u = Yi s" "Pt u = Pt s" and
    q: "Qeqnew t = Qeqnew e" and pe: "Pt e = Pt s" and t: "t = computeVelocity cfg (T cfg) e"
    by blast
  from computeEquilibriumLoadings_effect [OF e] have "length (Qeqnew e) = length (Qeqnew u)"
    unfolding oracle_frame_def by auto
  with sz q have lu: "length (Qeqnew u) = (Ngrid cfg + 1) * Ncomp cfg"
    by (simp add: sized_def)
  note vals = computeEquilibriumLoadings_values [OF e lu]
  from computeVelocity_effect [of cfg "T cfg" e] obtain x where
    "t = e\<lparr>Vnew := x\<rparr>" "length x = length (Vnew e)" unfolding t by blast
  with sz have le: "length (Vnew e) = Ngrid cfg + 1" by (simp add: sized_def)
  note v = computeVelocity_values [OF le g, of "T cfg"]
  show ?thesis
    unfolding recomputed_from_committed_def
    using vals v(1,2) by (simp add: u q pe t [symmetric])
qed

text \<open>
  C1 (the integrator). A completed computeStep passes through three objects \<open>s1\<close>,
  \<open>s2\<close>, \<open>s3\<close>, one per stage, and combines \<open>Q\<close>, \<open>Yi\<close> and \<open>Pt\<close> with the
  weights of the claim: \<open>U + dt * D1\<close>, then \<open>3/4 U + 1/4 U1 + 1/4 dt * D2\<close>, then
  \<open>1/3 U + 2/3 U2 + 2/3 dt * D3\<close>, with \<open>Pnew[i*Ncomp+j] = Yinew[i*Ncomp+j] * Ptnew[i]\<close>
  after each stage. The derivatives \<open>D1\<close>, \<open>D2\<close>, \<open>D3\<close> are not one operator \<open>F\<close>
  applied to \<open>U\<close>, \<open>U1\<close>, \<open>U2\<close>. Stage 1 hands the flat partial pressures \<open>P\<close> to
  computeFirstDerivatives where stages 2 and 3 hand \<open>Ptnew\<close>: at the inlet the stencil
  reads \<open>P[1] - P[0]\<close> in stage 1 and \<open>Ptnew[1] - Ptnew[0]\<close> afterwards. And the loadings
  and velocities that enter \<open>D2\<close> and \<open>D3\<close>, and that are committed, are recomputed from
  the committed \<open>Yi\<close> and \<open>Pt\<close> the step started with, not from \<open>U1\<close> and \<open>U2\<close>.
\<close>

theorem computeStep_stage_operators:
  assumes "computeStep pol mix cfg step s = Inr s'" and "sized cfg s"
    and "1 \<le> Ncomp cfg" and "1 \<le> Ngrid cfg"
  shows "\<exists>s1 s2 s3.
      stage1 pol mix cfg (autoStepsCheck cfg step s) = Inr s1 \<and>
      stage2 pol mix cfg s1 = Inr s2 \<and> stage3 pol mix cfg s2 = Inr s3 \<and>
      computeFirstDerivatives pol cfg (prefactor s) (Dqdt s, Dpdt s, Dydt s)
        (Qeq s) (Q s) (V s) (P s) (Yi s) = Inr (Dqdt s1, Dpdt s1, Dydt s1) \<and>
      computeFirstDerivatives pol cfg (prefactor s) (Dqdtnew s1, Dpdtnew s1, Dydtnew s1)
        (Qeqnew s1) (Qnew s1) (Vnew s1) (Ptnew s1) (Yinew s1)
        = Inr (Dqdtnew s2, Dpdtnew s2, Dydtnew s2) \<and>
      computeFirstDerivatives pol cfg (prefactor s) (Dqdtnew s2, Dpdtnew s2, Dydtnew s2)
        (Qeqnew s2) (Qnew s2) (Vnew s2) (Ptnew s2) (Yinew s2)
        = Inr (Dqdtnew s3, Dpdtnew s3, Dydtnew s3) \<and>
      (\<forall>i\<le>Ngrid cfg.
         Ptnew s1 ! i = Pt s ! i + dt cfg * Dpdt s1 ! i \<and>
         Ptnew s2 ! i = 0.75 * Pt s ! i + 0.25 * Ptnew s1 ! i + 0.25 * dt cfg * Dpdtnew s2 ! i \<and>
         Pt s' ! i = (1 / 3) * Pt s ! i + (2 / 3) * Ptnew s2 ! i
                       + (2 / 3) * dt cfg * Dpdtnew s3 ! i \<and>
         (\<forall>j<Ncomp cfg.
            Qnew s1 ! (i * Ncomp cfg + j) = Q s ! (i * Ncomp cfg + j) + dt cfg * Dqdt s1 ! (i * Ncomp cfg + j) \<and>
            Yinew s1 ! (i * Ncomp cfg + j) = Yi s ! (i * Ncomp cfg + j) + dt cfg * Dydt s1 ! (i * Ncomp cfg + j) \<and>
            Pnew s1 ! (i * Ncomp cfg + j) = Yinew s1 ! (i * Ncomp cfg + j) * Ptnew s1 ! i \<and>
            Qnew s2 ! (i * Ncomp cfg + j) = 0.75 * Q s ! (i * Ncomp cfg + j) + 0.25 * Qnew s1 ! (i * Ncomp cfg + j)
                               + 0.25 * dt cfg * Dqdtnew s2 ! (i * Ncomp cfg + j) \<and>
            Yinew s2 ! (i * Ncomp cfg + j) = 0.75 * Yi s ! (i * Ncomp cfg + j) + 0.25 * Yinew s1 ! (i * Ncomp cfg + j)
                               + 0.25 * dt cfg * Dydtnew s2 ! (i * Ncomp cfg + j) \<and>
            Pnew s2 ! (i * Ncomp cfg + j) = Yinew s2 ! (i * Ncomp cfg + j) * Ptnew s2 ! i \<and>
            Q s' ! (i * Ncomp cfg + j) = (1 / 3) * Q s ! (i * Ncomp cfg + j) + (2 / 3) * Qnew s2 ! (i * Ncomp cfg + j)
                               + (2 / 3) * dt cfg * Dqdtnew s3 ! (i * Ncomp cfg + j) \<and>
            Yi s' ! (i * Ncomp cfg + j) = (1 / 3) * Yi s ! (i * Ncomp cfg + j) + (2 / 3) * Yinew s2 ! (i * Ncomp cfg + j)
                               + (2 / 3) * dt cfg * Dydtnew s3 ! (i * Ncomp cfg + j) \<and>
            Pnew s3 ! (i * Ncomp cfg + j) = Yi s' ! (i * Ncomp cfg + j) * Pt s' ! i \<and>
            (1 \<le> i \<or> \<not> (pulse cfg \<and> tpulse cfg < real step * dt cfg)
               \<longrightarrow> P s' ! (i * Ncomp cfg + j) = Yi s' ! (i * Ncomp cfg + j) * Pt s' ! i))) \<and>
      Qeq s' = Qeqnew s3 \<and> V s' = Vnew s3 \<and>
      Dpdt s1 ! 0 = - V s ! 0 * (P s ! 1 - P s ! 0) * idx cfg
                    - P s ! 0 * (V s ! 1 - V s ! 0) * idx cfg
                    - prefactor s ! (Ncomp cfg - 1)
                        * (Qeq s ! (Ncomp cfg - 1) - Q s ! (Ncomp cfg - 1)) \<and>
      Dpdtnew s2 ! 0 = - Vnew s1 ! 0 * (Ptnew s1 ! 1 - Ptnew s1 ! 0) * idx cfg
                    - Ptnew s1 ! 0 * (Vnew s1 ! 1 - Vnew s1 ! 0) * idx cfg
                    - prefactor s ! (Ncomp cfg - 1)
                        * (Qeqnew s1 ! (Ncomp cfg - 1) - Qnew s1 ! (Ncomp cfg - 1)) \<and>
      Dpdtnew s3 ! 0 = - Vnew s2 ! 0 * (Ptnew s2 ! 1 - Ptnew s2 ! 0) * idx cfg
                    - Ptnew s2 ! 0 * (Vnew s2 ! 1 - Vnew s2 ! 0) * idx cfg
                    - prefactor s ! (Ncomp cfg - 1)
                        * (Qeqnew s2 ! (Ncomp cfg - 1) - Qnew s2 ! (Ncomp cfg - 1)) \<and>
      (\<forall>j<Ncomp cfg. Dydt s1 ! j = 0 \<and> Dydtnew s2 ! j = 0 \<and> Dydtnew s3 ! j = 0) \<and>
      recomputed_from_committed mix cfg s s1 \<and>
      recomputed_from_committed mix cfg s s2 \<and>
      recomputed_from_committed mix cfg s s3"
proof -
  let ?s0 = "autoStepsCheck cfg step s"
  from computeStep_Inr [OF assms(1,2)] obtain s1 s2 s3 where
    1: "stage1 pol mix cfg ?s0 = Inr s1" and
    2: "stage2 pol mix cfg s1 = Inr s2" and 3: "stage3 pol mix cfg s2 = Inr s3" and
    z: "sized cfg s1" "sized cfg s2" "sized cfg s3" and
    s': "s' = pulseBoundary cfg (real step * dt cfg)
             (s3\<lparr>Q := Qnew s3, Pt := Ptnew s3, P := Pnew s3, Qeq := Qeqnew s3,
                 V := Vnew s3, Yi := Yinew s3\<rparr>)"
    by blast
  let ?sc = "s3\<lparr>Q := Qnew s3, Pt := Ptnew s3, P := Pnew s3, Qeq := Qeqnew s3,
                 V := Vnew s3, Yi := Yinew s3\<rparr>"
  have z0: "sized cfg ?s0" using assms(2) by (rule autoStepsCheck_sized)
  from autoStepsCheck_effect [of cfg step s] obtain n b where
    s0: "?s0 = s\<lparr>Nsteps := n, autoSteps := b\<rparr>" by blast
  note e1 = stage1_effect [OF 1 z0]
  note e2 = ssp_stage_effect [OF 2 [unfolded stage2_def] z(1)]
  note e3 = ssp_stage_effect [OF 3 [unfolded stage3_def] z(2)]
  have c1: "prefactor s1 = prefactor s" "Pt s1 = Pt s" "Q s1 = Q s" "Yi s1 = Yi s"
    using e1(2) by (simp_all add: committed_same_def s0)
  have c2: "prefactor s2 = prefactor s" "Pt s2 = Pt s" "Q s2 = Q s" "Yi s2 = Yi s"
    using e2(2) c1 by (simp_all add: committed_same_def)
  have "Ncomp cfg \<le> length (P ?sc)" using z(3) by (simp add: sized_def)
  from pulseBoundary_effect [OF this, of "real step * dt cfg"] obtain p where
    p: "s' = ?sc\<lparr>P := p\<rparr>" "\<forall>k\<ge>Ncomp cfg. p ! k = P ?sc ! k"
       "\<not> (pulse cfg \<and> tpulse cfg < real step * dt cfg) \<longrightarrow> p = P ?sc"
    unfolding s' by blast
  have f: "Pt s' = Ptnew s3" "Q s' = Qnew s3" "Yi s' = Yinew s3" "P s' = p"
    "Qeq s' = Qeqnew s3" "V s' = Vnew s3"
    by (simp_all add: p(1))
  have A: "stage1 pol mix cfg (autoStepsCheck cfg step s) = Inr s1 \<and>
      stage2 pol mix cfg s1 = Inr s2 \<and> stage3 pol mix cfg s2 = Inr s3 \<and>
      computeFirstDerivatives pol cfg (prefactor s) (Dqdt s, Dpdt s, Dydt s)
        (Qeq s) (Q s) (V s) (P s) (Yi s) = Inr (Dqdt s1, Dpdt s1, Dydt s1) \<and>
      computeFirstDerivatives pol cfg (prefactor s) (Dqdtnew s1, Dpdtnew s1, Dydtnew s1)
        (Qeqnew s1) (Qnew s1) (Vnew s1) (Ptnew s1) (Yinew s1)
        = Inr (Dqdtnew s2, Dpdtnew s2, Dydtnew s2) \<and>
      computeFirstDerivatives pol cfg (prefactor s) (Dqdtnew s2, Dpdtnew s2, Dydtnew s2)
        (Qeqnew s2) (Qnew s2) (Vnew s2) (Ptnew s2) (Yinew s2)
        = Inr (Dqdtnew s3, Dpdtnew s3, Dydtnew s3)"
    using 1 2 3 e1(3) e2(3) e3(3) by (simp add: s0 c1 c2)
  have node: "Ptnew s1 ! i = Pt s ! i + dt cfg * Dpdt s1 ! i \<and>
         Ptnew s2 ! i = 0.75 * Pt s ! i + 0.25 * Ptnew s1 ! i + 0.25 * dt cfg * Dpdtnew s2 ! i \<and>
         Pt s' ! i = (1 / 3) * Pt s ! i + (2 / 3) * Ptnew s2 ! i
                       + (2 / 3) * dt cfg * Dpdtnew s3 ! i" if i: "i \<le> Ngrid cfg" for i
    using e1(4) e2(4) e3(4) i by (simp add: s0 c1 c2 f)
  have cell: "Qnew s1 ! (i * Ncomp cfg + j) = Q s ! (i * Ncomp cfg + j) + dt cfg * Dqdt s1 ! (i * Ncomp cfg + j) \<and>
            Yinew s1 ! (i * Ncomp cfg + j) = Yi s ! (i * Ncomp cfg + j) + dt cfg * Dydt s1 ! (i * Ncomp cfg + j) \<and>
            Pnew s1 ! (i * Ncomp cfg + j) = Yinew s1 ! (i * Ncomp cfg + j) * Ptnew s1 ! i \<and>
            Qnew s2 ! (i * Ncomp cfg + j) = 0.75 * Q s ! (i * Ncomp cfg + j) + 0.25 * Qnew s1 ! (i * Ncomp cfg + j)
                               + 0.25 * dt cfg * Dqdtnew s2 ! (i * Ncomp cfg + j) \<and>
            Yinew s2 ! (i * Ncomp cfg + j) = 0.75 * Yi s ! (i * Ncomp cfg + j) + 0.25 * Yinew s1 ! (i * Ncomp cfg + j)
                               + 0.25 * dt cfg * Dydtnew s2 ! (i * Ncomp cfg + j) \<and>
            Pnew s2 ! (i * Ncomp cfg + j) = Yinew s2 ! (i * Ncomp cfg + j) * Ptnew s2 ! i \<and>
            Q s' ! (i * Ncomp cfg + j) = (1 / 3) * Q s ! (i * Ncomp cfg + j) + (2 / 3) * Qnew s2 ! (i * Ncomp cfg + j)
                               + (2 / 3) * dt cfg * Dqdtnew s3 ! (i * Ncomp cfg + j) \<and>
            Yi s' ! (i * Ncomp cfg + j) = (1 / 3) * Yi s ! (i * Ncomp cfg + j) + (2 / 3) * Yinew s2 ! (i * Ncomp cfg + j)
                               + (2 / 3) * dt cfg * Dydtnew s3 ! (i * Ncomp cfg + j) \<and>
            Pnew s3 ! (i * Ncomp cfg + j) = Yi s' ! (i * Ncomp cfg + j) * Pt s' ! i \<and>
            (1 \<le> i \<or> \<not> (pulse cfg \<and> tpulse cfg < real step * dt cfg)
               \<longrightarrow> P s' ! (i * Ncomp cfg + j) = Yi s' ! (i * Ncomp cfg + j) * Pt s' ! i)" if i: "i \<le> Ngrid cfg" and j: "j < Ncomp cfg" for i j
  proof -
    note k = cell_index [OF i j]
    have pk: "1 \<le> i \<or> \<not> (pulse cfg \<and> tpulse cfg < real step * dt cfg)
        \<Longrightarrow> p ! (i * Ncomp cfg + j) = Pnew s3 ! (i * Ncomp cfg + j)"
      using p(2,3) k(3) by auto
    from e1(5) k(1) have a1: "Qnew s1 ! (i * Ncomp cfg + j) = Q ?s0 ! (i * Ncomp cfg + j) + dt cfg * Dqdt s1 ! (i * Ncomp cfg + j) \<and>
           Yinew s1 ! (i * Ncomp cfg + j) = Yi ?s0 ! (i * Ncomp cfg + j) + dt cfg * Dydt s1 ! (i * Ncomp cfg + j) \<and>
           Pnew s1 ! (i * Ncomp cfg + j) = Yinew s1 ! (i * Ncomp cfg + j) * Ptnew s1 ! ((i * Ncomp cfg + j) div Ncomp cfg)" by blast
    from e2(5) k(1) have a2: "Qnew s2 ! (i * Ncomp cfg + j) = 0.75 * Q s1 ! (i * Ncomp cfg + j) + 0.25 * Qnew s1 ! (i * Ncomp cfg + j)
                               + 0.25 * dt cfg * Dqdtnew s2 ! (i * Ncomp cfg + j) \<and>
           Yinew s2 ! (i * Ncomp cfg + j) = 0.75 * Yi s1 ! (i * Ncomp cfg + j) + 0.25 * Yinew s1 ! (i * Ncomp cfg + j)
                               + 0.25 * dt cfg * Dydtnew s2 ! (i * Ncomp cfg + j) \<and>
           Pnew s2 ! (i * Ncomp cfg + j) = Yinew s2 ! (i * Ncomp cfg + j) * Ptnew s2 ! ((i * Ncomp cfg + j) div Ncomp cfg)" by blast
    from e3(5) k(1) have a3: "Qnew s3 ! (i * Ncomp cfg + j) = (1 / 3) * Q s2 ! (i * Ncomp cfg + j) + (2 / 3) * Qnew s2 ! (i * Ncomp cfg + j)
                               + (2 / 3) * dt cfg * Dqdtnew s3 ! (i * Ncomp cfg + j) \<and>
           Yinew s3 ! (i * Ncomp cfg + j) = (1 / 3) * Yi s2 ! (i * Ncomp cfg + j) + (2 / 3) * Yinew s2 ! (i * Ncomp cfg + j)
                               + (2 / 3) * dt cfg * Dydtnew s3 ! (i * Ncomp cfg + j) \<and>
           Pnew s3 ! (i * Ncomp cfg + j) = Yinew s3 ! (i * Ncomp cfg + j) * Ptnew s3 ! ((i * Ncomp cfg + j) div Ncomp cfg)" by blast
    show ?thesis
      using a1 a2 a3 pk unfolding k(2) by (simp add: s0 c1 c2 f)
  qed
  have C: "Qeq s' = Qeqnew s3 \<and> V s' = Vnew s3" using f(5,6) by simp
  have y0: "Yi ?s0 = Yi s" "Pt ?s0 = Pt s" by (simp_all add: s0)
  have R: "recomputed_from_committed mix cfg s s1 \<and>
      recomputed_from_committed mix cfg s s2 \<and>
      recomputed_from_committed mix cfg s s3"
  proof (intro conjI)
    from e1(7) have "\<exists>u e. computeEquilibriumLoadings mix cfg u = Inr e \<and> Yi u = Yi s
        \<and> Pt u = Pt s \<and> Qeqnew s1 = Qeqnew e \<and> Pt e = Pt s
        \<and> s1 = computeVelocity cfg (T cfg) e"
      unfolding y0 .
    then show "recomputed_from_committed mix cfg s s1" using z(1) assms(4) by (rule stage_recomputed)
    from e2(7) have "\<exists>u e. computeEquilibriumLoadings mix cfg u = Inr e \<and> Yi u = Yi s
        \<and> Pt u = Pt s \<and> Qeqnew s2 = Qeqnew e \<and> Pt e = Pt s
        \<and> s2 = computeVelocity cfg (T cfg) e"
      unfolding c1 .
    then show "recomputed_from_committed mix cfg s s2" using z(2) assms(4) by (rule stage_recomputed)
    from e3(7) have "\<exists>u e. computeEquilibriumLoadings mix cfg u = Inr e \<and> Yi u = Yi s
        \<and> Pt u = Pt s \<and> Qeqnew s3 = Qeqnew e \<and> Pt e = Pt s
        \<and> s3 = computeVelocity cfg (T cfg) e"
      unfolding c2 .
    then show "recomputed_from_committed mix cfg s s3" using z(3) assms(4) by (rule stage_recomputed)
  qed
  have two: "2 \<le> Ngrid cfg + 1" "Ncomp cfg \<le> (Ngrid cfg + 1) * Ncomp cfg" using assms(4) by simp_all
  have "2 * 1 \<le> (Ngrid cfg + 1) * Ncomp cfg"
    using assms(3,4) by (intro mult_le_mono) simp_all
  then have two': "2 \<le> (Ngrid cfg + 1) * Ncomp cfg" by simp
  have l0: "2 \<le> length (V s)" "2 \<le> length (P s)" "Ncomp cfg \<le> length (prefactor s)"
    "Ncomp cfg \<le> length (Qeq s)" "Ncomp cfg \<le> length (Q s)"
    using assms(2) two two' by (simp_all add: sized_def)
  have l1: "2 \<le> length (Vnew s1)" "2 \<le> length (Ptnew s1)"
    "Ncomp cfg \<le> length (Qeqnew s1)" "Ncomp cfg \<le> length (Qnew s1)"
    using z(1) two by (simp_all add: sized_def)
  have l2: "2 \<le> length (Vnew s2)" "2 \<le> length (Ptnew s2)"
    "Ncomp cfg \<le> length (Qeqnew s2)" "Ncomp cfg \<le> length (Qnew s2)"
    using z(2) two by (simp_all add: sized_def)
  from A have cf:
    "computeFirstDerivatives pol cfg (prefactor s) (Dqdt s, Dpdt s, Dydt s)
        (Qeq s) (Q s) (V s) (P s) (Yi s) = Inr (Dqdt s1, Dpdt s1, Dydt s1)"
    "computeFirstDerivatives pol cfg (prefactor s) (Dqdtnew s1, Dpdtnew s1, Dydtnew s1)
        (Qeqnew s1) (Qnew s1) (Vnew s1) (Ptnew s1) (Yinew s1)
        = Inr (Dqdtnew s2, Dpdtnew s2, Dydtnew s2)"
    "computeFirstDerivatives pol cfg (prefactor s) (Dqdtnew s2, Dpdtnew s2, Dydtnew s2)
        (Qeqnew s2) (Qnew s2) (Vnew s2) (Ptnew s2) (Yinew s2)
        = Inr (Dqdtnew s3, Dpdtnew s3, Dydtnew s3)"
    by simp_all
  have I: "Dpdt s1 ! 0 = - V s ! 0 * (P s ! 1 - P s ! 0) * idx cfg
                    - P s ! 0 * (V s ! 1 - V s ! 0) * idx cfg
                    - prefactor s ! (Ncomp cfg - 1)
                        * (Qeq s ! (Ncomp cfg - 1) - Q s ! (Ncomp cfg - 1)) \<and>
      Dpdtnew s2 ! 0 = - Vnew s1 ! 0 * (Ptnew s1 ! 1 - Ptnew s1 ! 0) * idx cfg
                    - Ptnew s1 ! 0 * (Vnew s1 ! 1 - Vnew s1 ! 0) * idx cfg
                    - prefactor s ! (Ncomp cfg - 1)
                        * (Qeqnew s1 ! (Ncomp cfg - 1) - Qnew s1 ! (Ncomp cfg - 1)) \<and>
      Dpdtnew s3 ! 0 = - Vnew s2 ! 0 * (Ptnew s2 ! 1 - Ptnew s2 ! 0) * idx cfg
                    - Ptnew s2 ! 0 * (Vnew s2 ! 1 - Vnew s2 ! 0) * idx cfg
                    - prefactor s ! (Ncomp cfg - 1)
                        * (Qeqnew s2 ! (Ncomp cfg - 1) - Qnew s2 ! (Ncomp cfg - 1))"
    using computeFirstDerivatives_inlet_dpdt [OF cf(1) assms(3,4) l0]
      computeFirstDerivatives_inlet_dpdt [OF cf(2) assms(3,4) l1(1,2) l0(3) l1(3,4)]
      computeFirstDerivatives_inlet_dpdt [OF cf(3) assms(3,4) l2(1,2) l0(3) l2(3,4)]
    by (simp add: dpdt0_is_def)
  have Z: "\<forall>j<Ncomp cfg. Dydt s1 ! j = 0 \<and> Dydtnew s2 ! j = 0 \<and> Dydtnew s3 ! j = 0"
    using computeFirstDerivatives_inlet_dydt [OF cf(1) assms(4)]
      computeFirstDerivatives_inlet_dydt [OF cf(2) assms(4)]
      computeFirstDerivatives_inlet_dydt [OF cf(3) assms(4)]
    by (simp add: inlet_dydt_zero_def)
  from A node cell C I Z R show ?thesis by blast
qed

text \<open>
  C1 on the first step of the binary one-cell column, started by initialize. The weights
  and the reconstruction of \<open>P\<close> are those of the claim. The inlet derivative of stage 1
  is built from \<open>P[1] - P[0] = 40000 - 60000\<close> and differs from the one the total
  pressures give; the committed outlet velocity is the root for the uniform pressure the
  step started with, although the committed pressures are no longer uniform; and the
  committed loading of the second component at node 1 is the oracle's answer for the
  mole fraction 0 the step started with, although the committed mole fraction is positive.
\<close>

theorem computeStep_stage_operators_witness:
  "\<exists>s' s1 s2 s3.
      computeStep (garbage 0) henry dispersive 0 dispersive_start = Inr s'
    \<and> sized dispersive dispersive_start \<and> 1 \<le> Ncomp dispersive \<and> 1 \<le> Ngrid dispersive
    \<and> stage1 (garbage 0) henry dispersive (autoStepsCheck dispersive 0 dispersive_start) = Inr s1
    \<and> stage2 (garbage 0) henry dispersive s1 = Inr s2
    \<and> stage3 (garbage 0) henry dispersive s2 = Inr s3
    \<and> Yi s' ! 2 = (1 / 3) * Yi dispersive_start ! 2 + (2 / 3) * Yinew s2 ! 2
                        + (2 / 3) * dt dispersive * Dydtnew s3 ! 2
    \<and> P s' ! 2 = Yi s' ! 2 * Pt s' ! 1
    \<and> Dpdt s1 ! 0
        = - V dispersive_start ! 0 * (P dispersive_start ! 1 - P dispersive_start ! 0)
              * idx dispersive
          - P dispersive_start ! 0 * (V dispersive_start ! 1 - V dispersive_start ! 0)
              * idx dispersive
          - prefactor dispersive_start ! 1 * (Qeq dispersive_start ! 1 - Q dispersive_start ! 1)
    \<and> Dpdt s1 ! 0
        \<noteq> - V dispersive_start ! 0 * (Pt dispersive_start ! 1 - Pt dispersive_start ! 0)
              * idx dispersive
          - Pt dispersive_start ! 0 * (V dispersive_start ! 1 - V dispersive_start ! 0)
              * idx dispersive
          - prefactor dispersive_start ! 1 * (Qeq dispersive_start ! 1 - Q dispersive_start ! 1)
    \<and> V s' ! 1 = 0 \<and> Pt s' ! 0 < Pt s' ! 1
    \<and> Qeq s' ! 3 = 0 \<and> 0 < Yi s' ! 3 \<and> 0 < Pt s' ! 1"
proof -
  from dispersive_step obtain s' where
    run: "computeStep (garbage 0) henry dispersive 0 dispersive_start = Inr s'" and
    new: "0 < Yi s' ! 3" "0 < Pt s' ! 1" "Pt s' ! 0 < Pt s' ! 1" by blast
  have n: "1 \<le> Ncomp dispersive" "1 \<le> Ngrid dispersive" by (simp_all add: dispersive_dims)
  from computeStep_stage_operators [OF run sized_dispersive_start n] obtain s1 s2 s3 where
    st: "stage1 (garbage 0) henry dispersive (autoStepsCheck dispersive 0 dispersive_start) = Inr s1"
        "stage2 (garbage 0) henry dispersive s1 = Inr s2"
        "stage3 (garbage 0) henry dispersive s2 = Inr s3" and
    node: "\<forall>i\<le>Ngrid dispersive.
         Ptnew s1 ! i = Pt dispersive_start ! i + dt dispersive * Dpdt s1 ! i \<and>
         Ptnew s2 ! i = 0.75 * Pt dispersive_start ! i + 0.25 * Ptnew s1 ! i + 0.25 * dt dispersive * Dpdtnew s2 ! i \<and>
         Pt s' ! i = (1 / 3) * Pt dispersive_start ! i + (2 / 3) * Ptnew s2 ! i
                       + (2 / 3) * dt dispersive * Dpdtnew s3 ! i \<and>
         (\<forall>j<Ncomp dispersive.
            Qnew s1 ! (i * Ncomp dispersive + j) = Q dispersive_start ! (i * Ncomp dispersive + j) + dt dispersive * Dqdt s1 ! (i * Ncomp dispersive + j) \<and>
            Yinew s1 ! (i * Ncomp dispersive + j) = Yi dispersive_start ! (i * Ncomp dispersive + j) + dt dispersive * Dydt s1 ! (i * Ncomp dispersive + j) \<and>
            Pnew s1 ! (i * Ncomp dispersive + j) = Yinew s1 ! (i * Ncomp dispersive + j) * Ptnew s1 ! i \<and>
            Qnew s2 ! (i * Ncomp dispersive + j) = 0.75 * Q dispersive_start ! (i * Ncomp dispersive + j) + 0.25 * Qnew s1 ! (i * Ncomp dispersive + j)
                               + 0.25 * dt dispersive * Dqdtnew s2 ! (i * Ncomp dispersive + j) \<and>
            Yinew s2 ! (i * Ncomp dispersive + j) = 0.75 * Yi dispersive_start ! (i * Ncomp dispersive + j) + 0.25 * Yinew s1 ! (i * Ncomp dispersive + j)
                               + 0.25 * dt dispersive * Dydtnew s2 ! (i * Ncomp dispersive + j) \<and>
            Pnew s2 ! (i * Ncomp dispersive + j) = Yinew s2 ! (i * Ncomp dispersive + j) * Ptnew s2 ! i \<and>
            Q s' ! (i * Ncomp dispersive + j) = (1 / 3) * Q dispersive_start ! (i * Ncomp dispersive + j) + (2 / 3) * Qnew s2 ! (i * Ncomp dispersive + j)
                               + (2 / 3) * dt dispersive * Dqdtnew s3 ! (i * Ncomp dispersive + j) \<and>
            Yi s' ! (i * Ncomp dispersive + j) = (1 / 3) * Yi dispersive_start ! (i * Ncomp dispersive + j) + (2 / 3) * Yinew s2 ! (i * Ncomp dispersive + j)
                               + (2 / 3) * dt dispersive * Dydtnew s3 ! (i * Ncomp dispersive + j) \<and>
            Pnew s3 ! (i * Ncomp dispersive + j) = Yi s' ! (i * Ncomp dispersive + j) * Pt s' ! i \<and>
            (1 \<le> i \<or> \<not> (pulse dispersive \<and> tpulse dispersive < real (0::nat) * dt dispersive)
               \<longrightarrow> P s' ! (i * Ncomp dispersive + j) = Yi s' ! (i * Ncomp dispersive + j) * Pt s' ! i))" and
    c: "Qeq s' = Qeqnew s3" "V s' = Vnew s3" and
    d1: "Dpdt s1 ! 0
        = - V dispersive_start ! 0 * (P dispersive_start ! 1 - P dispersive_start ! 0)
              * idx dispersive
          - P dispersive_start ! 0 * (V dispersive_start ! 1 - V dispersive_start ! 0)
              * idx dispersive
          - prefactor dispersive_start ! (Ncomp dispersive - 1)
              * (Qeq dispersive_start ! (Ncomp dispersive - 1)
                 - Q dispersive_start ! (Ncomp dispersive - 1))" and
    r3: "recomputed_from_committed henry dispersive dispersive_start s3"
    by blast
  have i: "1 \<le> Ngrid dispersive" and j: "0 < Ncomp dispersive"
    by (simp_all add: dispersive_dims)
  note n1 = node [rule_format, of 1, OF i]
  note c0 = n1 [THEN conjunct2, THEN conjunct2, THEN conjunct2, rule_format, of 0, OF j]
  from n1 c0 have w:
    "Yi s' ! 2 = (1 / 3) * Yi dispersive_start ! 2 + (2 / 3) * Yinew s2 ! 2
                        + (2 / 3) * dt dispersive * Dydtnew s3 ! 2"
    "P s' ! 2 = Yi s' ! 2 * Pt s' ! 1"
    by (simp_all add: dispersive_dims)
  from d1 have d1': "Dpdt s1 ! 0
        = - V dispersive_start ! 0 * (P dispersive_start ! 1 - P dispersive_start ! 0)
              * idx dispersive
          - P dispersive_start ! 0 * (V dispersive_start ! 1 - V dispersive_start ! 0)
              * idx dispersive
          - prefactor dispersive_start ! 1 * (Qeq dispersive_start ! 1 - Q dispersive_start ! 1)"
    by (simp add: dispersive_dims)
  have d2: "Dpdt s1 ! 0
        \<noteq> - V dispersive_start ! 0 * (Pt dispersive_start ! 1 - Pt dispersive_start ! 0)
              * idx dispersive
          - Pt dispersive_start ! 0 * (V dispersive_start ! 1 - V dispersive_start ! 0)
              * idx dispersive
          - prefactor dispersive_start ! 1 * (Qeq dispersive_start ! 1 - Q dispersive_start ! 1)"
    unfolding d1'
    by (simp add: dispersive_start_def Breakthrough_def idx_def pt_init_dispersive)
      (simp add: dispersive_values)
  have pt: "Pt dispersive_start = [100000, 100000]" "Yi dispersive_start = [0.6, 0.4, 1, 0]"
    by (simp_all add: dispersive_start_def)
  have ta: "term_a dispersive (T dispersive) (Pt dispersive_start) 1 \<noteq> 0"
    unfolding pt by (simp add: term_a_def laminar_prefactor_def mu0_def par_diam_def)
      (simp add: dispersive_def carrier_only_def)
  have di: "0 \<le> discriminant dispersive (T dispersive) (Pt dispersive_start) 1"
    unfolding pt by (simp add: discriminant_def term_c_def)
  from r3 have rv: "\<forall>i. 1 \<le> i \<and> i \<le> Ngrid dispersive
            \<and> term_a dispersive (T dispersive) (Pt dispersive_start) i \<noteq> 0
            \<and> 0 \<le> discriminant dispersive (T dispersive) (Pt dispersive_start) i
          \<longrightarrow> Vnew s3 ! i = explicit_velocity dispersive (T dispersive) (Pt dispersive_start) i"
    and rq: "\<forall>i\<le>Ngrid dispersive. \<exists>out b1 b2.
          henry (Yi_i dispersive (Yi dispersive_start) i) (Pt dispersive_start ! i) b1 b2 = Some out \<and>
          (\<forall>j<Ncomp dispersive. Qeqnew s3 ! (i * Ncomp dispersive + j) = out_Ni out ! j)"
    unfolding recomputed_from_committed_def by blast+
  from rv [rule_format, of 1] i ta di
  have "Vnew s3 ! 1 = explicit_velocity dispersive (T dispersive) (Pt dispersive_start) 1"
    by simp
  then have v: "V s' ! 1 = 0"
    unfolding pt c using dispersive_velocity by simp
  from rq [rule_format, OF i] obtain out b1 b2 where
    o: "henry (Yi_i dispersive (Yi dispersive_start) 1) (Pt dispersive_start ! 1) b1 b2 = Some out"
       "\<forall>j<Ncomp dispersive. Qeqnew s3 ! (1 * Ncomp dispersive + j) = out_Ni out ! j"
    by blast
  have "Yi_i dispersive (Yi dispersive_start) 1 ! 1 = 0"
    by (simp add: Yi_i_eq dispersive_dims pt eval_nat_numeral)
  with o(1) have "out_Ni out ! 1 = 0" by (auto simp: henry_def)
  moreover from o(2) have "Qeqnew s3 ! 3 = out_Ni out ! 1"
    by (simp add: dispersive_dims eval_nat_numeral)
  ultimately have q: "Qeq s' ! 3 = 0" by (simp add: c)
  from run sized_dispersive_start n st w d1' d2 v new q show ?thesis by blast
qed

end
